(* ===== verification/Prelude.thy ===== *)
theory Prelude
  imports Main "HOL-Library.Word"
begin

text \<open>
  Shared vocabulary of the development: Go's error values and the
  \<open>(value, error)\<close> results built from them, the representation of identifiers
  and times, the collections of simplification rules that the component
  theories extend, and generic facts on lists and maps.

  A Go \<open>error\<close> is a value of \<open>goerr\<close>: a sentinel made by \<open>errors.New\<close> (identified
  by its text, the texts used are pairwise different) or a wrapped error made by
  \<open>fmt.Errorf\<close> with the verb \<open>%w\<close>.  A pair \<open>(T, error)\<close> is \<open>goerr + 'a\<close>,
  with \<open>Inl\<close> for a non-nil error.  A nil-able pointer is an \<open>option\<close>.

  A \<open>uuid.UUID\<close> is an array of sixteen bytes, that is, one 128-bit word
  (big-endian); \<open>uuid.Nil\<close> is \<open>0\<close>.  A \<open>time.Time\<close> is the number of nanoseconds
  since Go's zero time, so that \<open>IsZero\<close> is equality with \<open>0\<close>.  A \<open>float64\<close> is
  only ever copied by this program: it is kept as its bit pattern.
\<close>

section \<open>Collections of rules\<close>

named_theorems go_strings \<open>definitions of the string functions of the Go library\<close>
named_theorems go_consts \<open>string constants of the program\<close>
named_theorems ctx_simps \<open>equations of the HTTP request and response model\<close>
named_theorems db_simps \<open>equations of the relational store\<close>

section \<open>Errors and results\<close>

datatype goerr = ErrNew string | ErrWrap string goerr | ErrDetail goerr string

type_synonym 'a result = "goerr + 'a"

text \<open>\<open>errors.Is\<close> walks the chain of wrapped errors.\<close>

primrec errors_Is :: "goerr \<Rightarrow> goerr \<Rightarrow> bool" where
  "errors_Is (ErrNew m) target \<longleftrightarrow> ErrNew m = target"
| "errors_Is (ErrWrap m e) target \<longleftrightarrow> ErrWrap m e = target \<or> errors_Is e target"
| "errors_Is (ErrDetail e m) target \<longleftrightarrow> ErrDetail e m = target \<or> errors_Is e target"

text \<open>
  The text of an error, \<open>err.Error()\<close>.  The wrapping formats of the program are
  \<open>msg: %w\<close> (\<open>ErrWrap\<close>) and \<open>%w: msg\<close> (\<open>ErrDetail\<close>).
\<close>

primrec Error :: "goerr \<Rightarrow> string" where
  "Error (ErrNew m) = m"
| "Error (ErrWrap m e) = m @ '': '' @ Error e"
| "Error (ErrDetail e m) = Error e @ '': '' @ m"

definition rbind :: "'a result \<Rightarrow> ('a \<Rightarrow> 'b result) \<Rightarrow> 'b result" where
  "rbind r f = (case r of Inl e \<Rightarrow> Inl e | Inr x \<Rightarrow> f x)"

definition wrap_err :: "string \<Rightarrow> 'a result \<Rightarrow> 'a result" where
  "wrap_err m r = (case r of Inl e \<Rightarrow> Inl (ErrWrap m e) | Inr x \<Rightarrow> Inr x)"

section \<open>Identifiers, times, floats\<close>

type_synonym uuid = "128 word"

abbreviation uuid_Nil :: uuid where
  "uuid_Nil \<equiv> 0"

type_synonym go_time = int
type_synonym go_duration = int
type_synonym float64 = "64 word"

definition IsZero :: "go_time \<Rightarrow> bool" where
  "IsZero t \<longleftrightarrow> t = 0"

text \<open>\<open>Time.Sub\<close> saturates at the bounds of a 64-bit duration.\<close>

definition time_Sub :: "go_time \<Rightarrow> go_time \<Rightarrow> go_duration" where
  "time_Sub t u = max (- (2 ^ 63)) (min (2 ^ 63 - 1) (t - u))"

definition seconds :: "int \<Rightarrow> go_duration" where
  "seconds n = n * 1000000000"

definition in_int64 :: "int \<Rightarrow> bool" where
  "in_int64 n \<longleftrightarrow> - (2 ^ 63) \<le> n \<and> n < 2 ^ 63"

text \<open>
  The functions of \<open>github.com/google/uuid\<close> that the program calls are a
  parameter of the definitions that use them.
\<close>

record uuid_pkg =
  uuid_Parse :: "string \<Rightarrow> uuid result"
  uuid_String :: "uuid \<Rightarrow> string"

text \<open>What the code relies on: the canonical text of an identifier parses back to it.\<close>

definition uuid_pkg_ok :: "uuid_pkg \<Rightarrow> bool" where
  "uuid_pkg_ok U \<longleftrightarrow> (\<forall>u. uuid_Parse U (uuid_String U u) = Inr u)"

section \<open>Generic facts\<close>

lemma rbind_Inl [simp]: "rbind (Inl e) f = Inl e"
  by (simp add: rbind_def)

lemma rbind_Inr [simp]: "rbind (Inr x) f = f x"
  by (simp add: rbind_def)

lemma rbind_eq_Inr_iff: "rbind r f = Inr y \<longleftrightarrow> (\<exists>x. r = Inr x \<and> f x = Inr y)"
  by (cases r) simp_all

lemma wrap_err_simps [simp]:
  "wrap_err m (Inl e) = Inl (ErrWrap m e)"
  "wrap_err m (Inr x) = Inr x"
  by (simp_all add: wrap_err_def)

lemma wrap_err_eq_Inr [simp]: "wrap_err m r = Inr x \<longleftrightarrow> r = Inr x"
  by (cases r) simp_all

lemma errors_Is_refl [simp]: "errors_Is e e"
  by (cases e) simp_all

lemma errors_Is_wrap: "errors_Is e t \<Longrightarrow> errors_Is (ErrWrap m e) t"
  by simp

lemma time_Sub_exact: "in_int64 (t - u) \<Longrightarrow> time_Sub t u = t - u"
  by (simp add: time_Sub_def in_int64_def)

lemma time_Sub_mono: "t \<le> t' \<Longrightarrow> time_Sub t u \<le> time_Sub t' u"
  by (simp add: time_Sub_def)

lemma uuid_String_inj:
  assumes "uuid_pkg_ok U" and "uuid_String U u = uuid_String U v"
  shows "u = v"
  using assms unfolding uuid_pkg_ok_def by (metis sum.inject(2))

lemma length_filter_insert:
  "length (filter P (xs @ [x])) = length (filter P xs) + (if P x then 1 else 0)"
  by simp

lemma length_filter_split:
  "length (filter P xs) =
     length (filter (\<lambda>x. P x \<and> Q x) xs) + length (filter (\<lambda>x. P x \<and> \<not> Q x) xs)"
  by (induction xs) auto

lemma length_filter_mono:
  assumes "\<And>x. x \<in> set xs \<Longrightarrow> P x \<Longrightarrow> Q x"
  shows "length (filter P xs) \<le> length (filter Q xs)"
  using assms by (induction xs) (auto simp: le_Suc_eq)

lemma filter_unique_key:
  assumes "distinct (map f xs)" and "x \<in> set xs" and "f x = i"
  shows "filter (\<lambda>y. f y = i) xs = [x]"
  using assms
proof (induction xs)
  case (Cons y ys)
  show ?case
  proof (cases "f y = i")
    case True
    then have "x \<notin> set ys" and "filter (\<lambda>y. f y = i) ys = []"
      using Cons.prems(1,3) by (force simp: filter_empty_conv image_iff)+
    then show ?thesis using True Cons.prems(2) by simp
  next
    case False
    then show ?thesis using Cons by auto
  qed
qed simp

text \<open>A concrete \<open>uuid\<close> package: the text of an identifier is its value in unary.\<close>

definition ex_uuid :: uuid_pkg where
  "ex_uuid = \<lparr> uuid_Parse = (\<lambda>s. if set s \<subseteq> {CHR ''1''} \<and> length s < 2 ^ 128
       then Inr (of_nat (length s)) else Inl (ErrNew ''invalid UUID'')),
     uuid_String = (\<lambda>u. replicate (unat u) CHR ''1'') \<rparr>"

lemma ex_uuid_ok: "uuid_pkg_ok ex_uuid"
proof -
  have "unat u < 2 ^ 128" for u :: uuid using unsigned_less [of u] by simp
  then show ?thesis by (auto simp: uuid_pkg_ok_def ex_uuid_def)
qed

section \<open>Reachable states\<close>

text \<open>
  A component that runs by steps is given by its initial states and its step
  relation.  The locale states once how an inductive invariant carries over to
  every reachable state; each component interprets it on its own steps.
\<close>

inductive reachable :: "('s \<Rightarrow> bool) \<Rightarrow> ('s \<Rightarrow> 's \<Rightarrow> bool) \<Rightarrow> 's \<Rightarrow> bool"
  for init :: "'s \<Rightarrow> bool" and step :: "'s \<Rightarrow> 's \<Rightarrow> bool" where
  start: "init s \<Longrightarrow> reachable init step s"
| move: "reachable init step s \<Longrightarrow> step s s' \<Longrightarrow> reachable init step s'"

locale invariant_of =
  fixes init :: "'s \<Rightarrow> bool" and step :: "'s \<Rightarrow> 's \<Rightarrow> bool" and inv :: "'s \<Rightarrow> bool"
  assumes inv_init: "init s \<Longrightarrow> inv s"
    and inv_step: "inv s \<Longrightarrow> step s s' \<Longrightarrow> inv s'"
begin

lemma inv_reachable: "reachable init step s \<Longrightarrow> inv s"
  by (induction rule: reachable.induct) (auto intro: inv_init inv_step)

lemma inv_star: "step\<^sup>*\<^sup>* s s' \<Longrightarrow> inv s \<Longrightarrow> inv s'"
  by (induction rule: rtranclp_induct) (auto intro: inv_step)

end

lemma split_at_sep:
  assumes "p @ c # q = p' @ c # q'" and "c \<notin> set p" and "c \<notin> set p'"
  shows "p = p' \<and> q = q'"
  using assms
proof (induction p arbitrary: p')
  case Nil
  then show ?case by (cases p') auto
next
  case (Cons a p)
  then show ?case by (cases p') auto
qed

end
