(* ===== verification/Go_Strings.thy ===== *)
theory Go_Strings
  imports Prelude
begin

text \<open>
  The functions of Go's \<open>strings\<close> and \<open>strconv\<close> packages that the program uses.
  A Go string is a sequence of bytes, here a \<open>char list\<close>.  \<open>TrimSpace\<close> removes
  every UTF-8 encoded Unicode space; case mapping acts on ASCII letters and
  leaves the bytes of other characters as they are (every literal the program
  compares a mapped string with is ASCII).
\<close>

section \<open>Spaces, prefixes, case\<close>

text \<open>The UTF-8 encodings of the runes for which \<open>unicode.IsSpace\<close> holds.\<close>

definition unicode_spaces :: "string list" where
  "unicode_spaces =
     [[CHR 0x09], [CHR 0x0A], [CHR 0x0B], [CHR 0x0C], [CHR 0x0D], [CHR 0x20],
      [CHR 0xC2, CHR 0x85], [CHR 0xC2, CHR 0xA0], [CHR 0xE1, CHR 0x9A, CHR 0x80],
      [CHR 0xE2, CHR 0x80, CHR 0x80], [CHR 0xE2, CHR 0x80, CHR 0x81],
      [CHR 0xE2, CHR 0x80, CHR 0x82], [CHR 0xE2, CHR 0x80, CHR 0x83],
      [CHR 0xE2, CHR 0x80, CHR 0x84], [CHR 0xE2, CHR 0x80, CHR 0x85],
      [CHR 0xE2, CHR 0x80, CHR 0x86], [CHR 0xE2, CHR 0x80, CHR 0x87],
      [CHR 0xE2, CHR 0x80, CHR 0x88], [CHR 0xE2, CHR 0x80, CHR 0x89],
      [CHR 0xE2, CHR 0x80, CHR 0x8A], [CHR 0xE2, CHR 0x80, CHR 0xA8],
      [CHR 0xE2, CHR 0x80, CHR 0xA9], [CHR 0xE2, CHR 0x80, CHR 0xAF],
      [CHR 0xE2, CHR 0x81, CHR 0x9F], [CHR 0xE3, CHR 0x80, CHR 0x80]]"

definition HasPrefix :: "string \<Rightarrow> string \<Rightarrow> bool" where
  "HasPrefix s p \<longleftrightarrow> take (length p) s = p"

definition lead_len :: "string list \<Rightarrow> string \<Rightarrow> nat" where
  "lead_len ps s = (case find (\<lambda>p. p \<noteq> [] \<and> HasPrefix s p) ps of
     None \<Rightarrow> 0 | Some p \<Rightarrow> length p)"

lemma lead_len_le: "lead_len ps s \<le> length s"
proof (cases "find (\<lambda>p. p \<noteq> [] \<and> HasPrefix s p) ps")
  case (Some p)
  then have "take (length p) s = p"
    by (auto simp: find_Some_iff HasPrefix_def)
  then have "length p \<le> length s" by (metis length_take min.cobounded1)
  with Some show ?thesis by (simp add: lead_len_def)
qed (simp add: lead_len_def)

function drop_leads :: "string list \<Rightarrow> string \<Rightarrow> string" where
  "drop_leads ps s =
     (if lead_len ps s = 0 then s else drop_leads ps (drop (lead_len ps s) s))"
  by pat_completeness auto
termination
proof (relation "measure (\<lambda>(ps, s). length s)", goal_cases)
  case (2 ps s)
  then show ?case using lead_len_le [of ps s] by simp
qed simp

declare drop_leads.simps [simp del]

definition TrimSpace :: "string \<Rightarrow> string" where
  "TrimSpace s =
     rev (drop_leads (map rev unicode_spaces) (rev (drop_leads unicode_spaces s)))"

definition TrimRight :: "string \<Rightarrow> char \<Rightarrow> string" where
  "TrimRight s c = rev (dropWhile (\<lambda>d. d = c) (rev s))"

definition byte :: "char \<Rightarrow> nat" where
  "byte c = of_char c"

definition lower_char :: "char \<Rightarrow> char" where
  "lower_char c = (if 65 \<le> byte c \<and> byte c \<le> 90 then char_of (byte c + 32) else c)"

definition upper_char :: "char \<Rightarrow> char" where
  "upper_char c = (if 97 \<le> byte c \<and> byte c \<le> 122 then char_of (byte c - 32) else c)"

definition ToLower :: "string \<Rightarrow> string" where
  "ToLower s = map lower_char s"

definition ToUpper :: "string \<Rightarrow> string" where
  "ToUpper s = map upper_char s"

definition EqualFold :: "string \<Rightarrow> string \<Rightarrow> bool" where
  "EqualFold s t \<longleftrightarrow> ToLower s = ToLower t"

text \<open>\<open>strings.Split(s, sep)\<close> for a one-byte separator.\<close>

fun Split :: "string \<Rightarrow> char \<Rightarrow> string list" where
  "Split [] sep = [[]]"
| "Split (c # cs) sep =
     (if c = sep then [] # Split cs sep
      else (case Split cs sep of [] \<Rightarrow> [[c]] | p # ps \<Rightarrow> (c # p) # ps))"

text \<open>\<open>strings.ReplaceAll(s, old, new)\<close> for a non-empty \<open>old\<close>.\<close>

function ReplaceAll :: "string \<Rightarrow> string \<Rightarrow> string \<Rightarrow> string" where
  "ReplaceAll s old new =
     (if old = [] \<or> s = [] then s
      else if HasPrefix s old then new @ ReplaceAll (drop (length old) s) old new
      else hd s # ReplaceAll (tl s) old new)"
  by pat_completeness auto
termination
  by (relation "measure (\<lambda>(s, old, new). length s)") (auto simp: neq_Nil_conv)

declare ReplaceAll.simps [simp del]

section \<open>Numbers\<close>

fun FormatUint :: "nat \<Rightarrow> string" where
  "FormatUint n =
     (if n < 10 then [char_of (48 + n)]
      else FormatUint (n div 10) @ [char_of (48 + n mod 10)])"

declare FormatUint.simps [simp del]

definition FormatInt :: "int \<Rightarrow> string" where
  "FormatInt i = (if i < 0 then CHR ''-'' # FormatUint (nat (- i)) else FormatUint (nat i))"

definition is_digit :: "char \<Rightarrow> bool" where
  "is_digit c \<longleftrightarrow> 48 \<le> byte c \<and> byte c \<le> 57"

definition digits_value :: "string \<Rightarrow> nat" where
  "digits_value s = foldl (\<lambda>a c. 10 * a + (byte c - 48)) 0 s"

definition ParseUint10 :: "string \<Rightarrow> nat option" where
  "ParseUint10 s = (if s \<noteq> [] \<and> list_all is_digit s then Some (digits_value s) else None)"

text \<open>\<open>strconv.ParseInt(s, 10, 64)\<close>: an optional sign, decimal digits, and the range check.\<close>

definition ParseInt :: "string \<Rightarrow> int option" where
  "ParseInt s =
     (let neg = (s \<noteq> [] \<and> hd s = CHR ''-'');
          body = (if s \<noteq> [] \<and> (hd s = CHR ''-'' \<or> hd s = CHR ''+'') then tl s else s)
      in case ParseUint10 body of
           None \<Rightarrow> None
         | Some n \<Rightarrow>
             (let v = (if neg then - int n else int n)
              in if in_int64 v then Some v else None))"

definition ParseBool :: "string \<Rightarrow> bool option" where
  "ParseBool s =
     (if s \<in> {''1'', ''t'', ''T'', ''TRUE'', ''true'', ''True''} then Some True
      else if s \<in> {''0'', ''f'', ''F'', ''FALSE'', ''false'', ''False''} then Some False
      else None)"

lemmas string_defs [go_strings] =
  HasPrefix_def lead_len_def TrimSpace_def TrimRight_def byte_def lower_char_def
  upper_char_def ToLower_def ToUpper_def EqualFold_def is_digit_def unicode_spaces_def

section \<open>Facts on splitting\<close>

lemma Split_not_Nil [simp]: "Split s c \<noteq> []"
  by (cases s) (simp_all split: list.splits)

lemma Split_no_sep: "p \<in> set (Split s c) \<Longrightarrow> c \<notin> set p"
proof (induction s arbitrary: p)
  case (Cons a s)
  obtain q qs where "Split s c = q # qs" by (cases "Split s c") simp_all
  with Cons show ?case by (auto split: if_splits)
qed simp

lemma Split_plain: "c \<notin> set s \<Longrightarrow> Split s c = [s]"
  by (induction s) auto

lemma Split_append_sep: "c \<notin> set p \<Longrightarrow> Split (p @ c # s) c = p # Split s c"
  by (induction p) auto

section \<open>Facts on trimming and case\<close>

lemma lead_len_zero_iff:
  "lead_len ps s = 0 \<longleftrightarrow> (\<forall>p \<in> set ps. p \<noteq> [] \<longrightarrow> \<not> HasPrefix s p)"
  by (auto simp: lead_len_def find_None_iff find_Some_iff split: option.split)

lemma drop_leads_lead: "lead_len ps (drop_leads ps s) = 0"
proof (induction ps s rule: drop_leads.induct)
  case (1 ps s)
  then show ?case by (cases "lead_len ps s = 0") (simp_all add: drop_leads.simps [of ps s])
qed

lemma drop_leads_fixed: "lead_len ps s = 0 \<Longrightarrow> drop_leads ps s = s"
  by (simp add: drop_leads.simps [of ps s])

lemma drop_leads_suffix: "\<exists>n. drop_leads ps s = drop n s"
proof (induction ps s rule: drop_leads.induct)
  case (1 ps s)
  show ?case
  proof (cases "lead_len ps s = 0")
    case True
    then show ?thesis by (metis drop0 drop_leads_fixed)
  next
    case False
    with 1 obtain n where "drop_leads ps (drop (lead_len ps s) s) = drop n (drop (lead_len ps s) s)"
      by blast
    with False show ?thesis by (auto simp: drop_leads.simps [of ps s])
  qed
qed

lemma HasPrefix_take: "HasPrefix (take n s) p \<Longrightarrow> HasPrefix s p"
  unfolding HasPrefix_def by (metis append_take_drop_id append_eq_conv_conj length_take min.cobounded1
      take_take min_def)

lemma lead_len_take: "lead_len ps s = 0 \<Longrightarrow> lead_len ps (take n s) = 0"
  by (auto simp: lead_len_zero_iff dest: HasPrefix_take)

lemma TrimSpace_idem [simp]: "TrimSpace (TrimSpace s) = TrimSpace s"
proof -
  define l where "l = drop_leads unicode_spaces s"
  define r where "r = drop_leads (map rev unicode_spaces) (rev l)"
  obtain n where "r = drop n (rev l)" using drop_leads_suffix by (auto simp: r_def)
  then have "rev r = take (length l - n) l" by (simp add: rev_drop)
  moreover have "lead_len unicode_spaces l = 0" by (simp add: l_def drop_leads_lead)
  ultimately have "drop_leads unicode_spaces (rev r) = rev r"
    by (simp add: drop_leads_fixed lead_len_take)
  moreover have "drop_leads (map rev unicode_spaces) r = r"
    by (simp add: r_def drop_leads_fixed drop_leads_lead)
  ultimately show ?thesis by (simp add: TrimSpace_def l_def [symmetric] r_def [symmetric])
qed

lemma TrimSpace_substring: "\<exists>m n. TrimSpace s = take m (drop n s)"
proof -
  obtain n where n: "drop_leads unicode_spaces s = drop n s" using drop_leads_suffix by blast
  obtain t where t: "t = drop n s" by simp
  obtain k where "drop_leads (map rev unicode_spaces) (rev t) = drop k (rev t)"
    using drop_leads_suffix by blast
  then have "TrimSpace s = rev (drop k (rev t))" by (simp add: TrimSpace_def n t [symmetric])
  also have "\<dots> = take (length t - k) t" by (simp add: rev_drop)
  finally show ?thesis by (auto simp: t)
qed

lemma set_TrimSpace: "set (TrimSpace s) \<subseteq> set s"
  using TrimSpace_substring [of s] by (metis set_drop_subset set_take_subset subset_trans)

text \<open>A string whose first and last bytes are printable ASCII is left alone.\<close>

definition plain_char :: "char \<Rightarrow> bool" where
  "plain_char c \<longleftrightarrow> 33 \<le> byte c \<and> byte c \<le> 126"

lemma lead_len_plain:
  assumes "s \<noteq> []" "plain_char (hd s)"
  shows "lead_len unicode_spaces s = 0" "lead_len (map rev unicode_spaces) s = 0"
  using assms
  by (cases s; auto simp: lead_len_zero_iff unicode_spaces_def HasPrefix_def plain_char_def byte_def)+

lemma TrimSpace_plain:
  assumes "s \<noteq> []" "plain_char (hd s)" "plain_char (last s)"
  shows "TrimSpace s = s"
proof -
  have "drop_leads unicode_spaces s = s"
    using assms by (simp add: drop_leads_fixed lead_len_plain)
  moreover have "drop_leads (map rev unicode_spaces) (rev s) = rev s"
    using assms by (simp add: drop_leads_fixed lead_len_plain hd_rev)
  ultimately show ?thesis by (simp add: TrimSpace_def)
qed

lemma TrimSpace_Nil [simp]: "TrimSpace [] = []"
  using TrimSpace_substring [of "[]"] by auto

lemma byte_lt: "byte c < 256"
  by (simp add: byte_def)

lemma byte_char_of [simp]: "n < 256 \<Longrightarrow> byte (char_of n) = n"
  by (simp add: byte_def of_char_of)

lemma lower_char_idem [simp]: "lower_char (lower_char c) = lower_char c"
  using byte_lt [of c] by (auto simp: lower_char_def)

lemma ToLower_idem [simp]: "ToLower (ToLower s) = ToLower s"
  by (simp add: ToLower_def)

lemma length_ToLower [simp]: "length (ToLower s) = length s"
  by (simp add: ToLower_def)

lemma EqualFold_refl [simp]: "EqualFold s s"
  by (simp add: EqualFold_def)

section \<open>Facts on numbers\<close>

lemma is_digit_char_of: "(n::nat) < 10 \<Longrightarrow> is_digit (char_of (48 + n))"
  by (simp add: is_digit_def)

lemma FormatUint_digits: "list_all is_digit (FormatUint n) \<and> FormatUint n \<noteq> []"
proof (induction n rule: FormatUint.induct)
  case (1 n)
  show ?case
    using 1 by (cases "n < 10") (simp_all add: FormatUint.simps [of n] is_digit_char_of)
qed

lemma digits_value_snoc: "digits_value (s @ [c]) = 10 * digits_value s + (byte c - 48)"
  by (simp add: digits_value_def)

lemma digits_value_FormatUint: "digits_value (FormatUint n) = n"
proof (induction n rule: FormatUint.induct)
  case (1 n)
  show ?case
  proof (cases "n < 10")
    case True
    then show ?thesis by (simp add: FormatUint.simps [of n] digits_value_def)
  next
    case False
    with 1 have "digits_value (FormatUint (n div 10)) = n div 10" by simp
    with False show ?thesis by (simp add: FormatUint.simps [of n] digits_value_snoc)
  qed
qed

lemma ParseUint10_FormatUint [simp]: "ParseUint10 (FormatUint n) = Some n"
  by (simp add: ParseUint10_def FormatUint_digits digits_value_FormatUint)

lemma FormatUint_inj: "FormatUint m = FormatUint n \<Longrightarrow> m = n"
  by (metis digits_value_FormatUint)

lemma digit_not_sign: "is_digit c \<Longrightarrow> c \<noteq> CHR ''-'' \<and> c \<noteq> CHR ''+'' \<and> c \<noteq> CHR '':''"
  by (auto simp: is_digit_def byte_def)

lemma FormatUint_no_colon: "CHR '':'' \<notin> set (FormatUint n)"
  using FormatUint_digits [of n] digit_not_sign by (auto simp: list_all_iff)

lemma hd_FormatUint: "hd (FormatUint n) \<noteq> CHR ''-'' \<and> hd (FormatUint n) \<noteq> CHR ''+''"
  using FormatUint_digits [of n] digit_not_sign [of "hd (FormatUint n)"]
  by (auto simp: list_all_iff)

lemma ParseInt_FormatInt: "in_int64 i \<Longrightarrow> ParseInt (FormatInt i) = Some i"
  using hd_FormatUint [of "nat i"]
  by (cases "i < 0") (simp_all add: ParseInt_def FormatInt_def Let_def)

lemma ParseInt_range: "ParseInt s = Some v \<Longrightarrow> in_int64 v"
  by (auto simp: ParseInt_def Let_def split: option.splits if_splits)

text \<open>Two strings with a colon-free tail after a colon agree in head and tail.\<close>

lemma colon_suffix_unique:
  "a @ CHR '':'' # x = b @ CHR '':'' # y \<Longrightarrow> CHR '':'' \<notin> set x \<Longrightarrow> CHR '':'' \<notin> set y \<Longrightarrow>
     a = b \<and> x = y"
proof (induction a arbitrary: b)
  case Nil
  then show ?case by (cases b) auto
next
  case (Cons c cs)
  then show ?case by (cases b) auto
qed

end
