(* ===== verification/Scan_State.thy ===== *)
theory Scan_State
  imports Go_Strings
begin

text \<open>
  The package \<open>src/pkg/scan\<close>: kinds, plan-limit keys and the life cycle of a
  scan, with the public status that \<open>walletScanLifecycleStatusV1\<close> of
  \<open>src/internal/handler/discovery_v1_scans.go\<close> derives from a stored status.
  The locale \<open>status_machine\<close> is the contract of a life cycle (terminal states
  are final, every step makes progress); the last section interprets it on
  \<open>ValidTransition\<close> and \<open>IsTerminal\<close>.
\<close>

section \<open>Definitions\<close>

definition ErrPlanLimitExceeded :: string where
  "ErrPlanLimitExceeded = ''PLAN_LIMIT_EXCEEDED''"

definition KindTLS :: string where "KindTLS = ''tls''"
definition KindWallet :: string where "KindWallet = ''wallet''"
definition PlanLimitKeyEndpoint :: string where "PlanLimitKeyEndpoint = ''endpoint''"
definition PlanLimitKeyWallet :: string where "PlanLimitKeyWallet = ''wallet''"

definition StatePENDING :: string where "StatePENDING = ''PENDING''"
definition StateRUNNING :: string where "StateRUNNING = ''RUNNING''"
definition StateSUCCESS :: string where "StateSUCCESS = ''SUCCESS''"
definition StateFAILED :: string where "StateFAILED = ''FAILED''"
definition StateTIMEOUT :: string where "StateTIMEOUT = ''TIMEOUT''"
definition StateUNREACHABLE :: string where "StateUNREACHABLE = ''UNREACHABLE''"

lemmas state_consts [go_consts] =
  StatePENDING_def StateRUNNING_def StateSUCCESS_def StateFAILED_def StateTIMEOUT_def
  StateUNREACHABLE_def

lemmas kind_consts [go_consts] =
  KindTLS_def KindWallet_def PlanLimitKeyEndpoint_def PlanLimitKeyWallet_def

text \<open>\<open>TerminalStates\<close>, a map whose missing keys read as \<open>false\<close>.\<close>

definition TerminalStates :: "string list" where
  "TerminalStates = [StateSUCCESS, StateFAILED, StateTIMEOUT, StateUNREACHABLE]"

definition ValidTransition :: "string \<Rightarrow> string \<Rightarrow> bool" where
  "ValidTransition fromState toState =
     (let fromState = (if fromState = '''' then StatePENDING else fromState) in
      if toState = StateRUNNING then fromState = StatePENDING
      else if toState = StateSUCCESS \<or> toState = StateFAILED \<or> toState = StateTIMEOUT
              \<or> toState = StateUNREACHABLE
      then fromState = StateRUNNING \<or> fromState = StatePENDING
      else False)"

definition IsTerminal :: "string \<Rightarrow> bool" where
  "IsTerminal status \<longleftrightarrow> status \<in> set TerminalStates"

definition IsSuccess :: "string \<Rightarrow> bool" where
  "IsSuccess status \<longleftrightarrow> status = StateSUCCESS"

definition walletScanLifecycleStatusV1 :: "string \<Rightarrow> string" where
  "walletScanLifecycleStatusV1 dbStatus =
     (let st = ToUpper (TrimSpace dbStatus) in
      if st = StatePENDING \<or> st = '''' then ''requested''
      else if st = StateRUNNING then ''started''
      else if st = StateSUCCESS then ''completed''
      else if st = StateFAILED \<or> st = StateTIMEOUT \<or> st = StateUNREACHABLE then ''failed''
      else ''started'')"

text \<open>The sequences of statuses a stored scan can go through, one applied transition per step.\<close>

inductive status_path :: "('s \<Rightarrow> 's \<Rightarrow> bool) \<Rightarrow> 's \<Rightarrow> 's list \<Rightarrow> bool" for valid where
  path_end: "status_path valid s []"
| path_step: "valid s t \<Longrightarrow> status_path valid t ts \<Longrightarrow> status_path valid s (t # ts)"

inductive_cases path_Nil: "status_path valid s []"
inductive_cases path_ConsE [elim!]: "status_path valid s (t # ts)"
inductive_simps path_Cons_iff: "status_path valid s (t # ts)"

text \<open>How many more transitions a status allows.\<close>

definition status_rank :: "string \<Rightarrow> nat" where
  "status_rank st =
     (if st = '''' \<or> st = StatePENDING then 2 else if st = StateRUNNING then 1 else 0)"

section \<open>The contract of a life cycle\<close>

locale status_machine =
  fixes valid :: "'s \<Rightarrow> 's \<Rightarrow> bool"
    and terminal :: "'s \<Rightarrow> bool"
    and rank :: "'s \<Rightarrow> nat"
  assumes terminal_final: "terminal s \<Longrightarrow> \<not> valid s t"
    and progress: "valid s t \<Longrightarrow> rank t < rank s"
begin

lemma path_length: "status_path valid s ts \<Longrightarrow> length ts \<le> rank s"
proof (induction rule: status_path.induct)
  case (path_step s t ts)
  then show ?case using progress [of s t] by simp
qed simp

lemma terminal_path: "terminal s \<Longrightarrow> status_path valid s ts \<Longrightarrow> ts = []"
  by (cases ts) (auto dest: terminal_final)

lemma terminal_only_last:
  "status_path valid s ts \<Longrightarrow> terminal x \<Longrightarrow> ts = as @ x # bs \<Longrightarrow> bs = []"
proof (induction arbitrary: as rule: status_path.induct)
  case (path_step s t ts)
  then show ?case by (cases as) (auto dest: terminal_path)
qed simp

end

section \<open>The life cycle of a scan\<close>

lemma ValidTransition_iff:
  "ValidTransition f t \<longleftrightarrow>
     (f \<in> {'''', StatePENDING} \<and> (t = StateRUNNING \<or> IsTerminal t)) \<or>
     (f = StateRUNNING \<and> IsTerminal t)"
  by (auto simp: ValidTransition_def Let_def IsTerminal_def TerminalStates_def go_consts)

lemma IsTerminal_iff:
  "IsTerminal st \<longleftrightarrow>
     st = StateSUCCESS \<or> st = StateFAILED \<or> st = StateTIMEOUT \<or> st = StateUNREACHABLE"
  by (simp add: IsTerminal_def TerminalStates_def)

interpretation scan_status: status_machine ValidTransition IsTerminal status_rank
proof unfold_locales
  show "\<not> ValidTransition s t" if "IsTerminal s" for s t
    using that by (auto simp: ValidTransition_iff IsTerminal_iff go_consts)
  show "status_rank t < status_rank s" if "ValidTransition s t" for s t
    using that by (auto simp: ValidTransition_iff IsTerminal_iff status_rank_def go_consts)
qed

lemma status_rank_le: "status_rank st \<le> 2"
  by (simp add: status_rank_def)

lemma path_targets:
  "status_path ValidTransition s ts \<Longrightarrow> t \<in> set ts \<Longrightarrow> t = StateRUNNING \<or> IsTerminal t"
  by (induction rule: status_path.induct) (auto simp: ValidTransition_iff)

text \<open>
  C37: whatever status a scan starts from, the transitions that \<open>ValidTransition\<close>
  allows form a path of at most two steps, every status entered is RUNNING or
  terminal, and a terminal status is only ever the last one: nothing overwrites it.
\<close>

theorem scan_path_shape:
  assumes "status_path ValidTransition s ts"
  shows "length ts \<le> 2
    \<and> (\<forall>t \<in> set ts. t = StateRUNNING \<or> IsTerminal t)
    \<and> (\<forall>as x bs. ts = as @ x # bs \<longrightarrow> IsTerminal x \<longrightarrow> bs = [])
    \<and> (IsTerminal s \<longrightarrow> ts = [])"
  using scan_status.path_length [OF assms] status_rank_le [of s]
    scan_status.terminal_only_last [OF assms] scan_status.terminal_path [OF _ assms]
    path_targets [OF assms]
  by (auto simp: le_trans)

theorem scan_path_shape_witness:
  "status_path ValidTransition '''' [StateRUNNING, StateSUCCESS]
   \<and> length [StateRUNNING, StateSUCCESS] \<le> 2 \<and> \<not> IsTerminal StateRUNNING"
proof -
  have p: "status_path ValidTransition '''' [StateRUNNING, StateSUCCESS]"
    by (auto simp: path_Cons_iff status_path.path_end ValidTransition_iff IsTerminal_iff)
  have "[StateRUNNING, StateSUCCESS] = [] @ StateRUNNING # [StateSUCCESS]" by simp
  with p scan_path_shape [OF p] show ?thesis by blast
qed

lemma ToUpper_Trim_states:
  "ToUpper (TrimSpace StatePENDING) = StatePENDING"
  "ToUpper (TrimSpace StateRUNNING) = StateRUNNING"
  "ToUpper (TrimSpace StateSUCCESS) = StateSUCCESS"
  "ToUpper (TrimSpace StateFAILED) = StateFAILED"
  "ToUpper (TrimSpace StateTIMEOUT) = StateTIMEOUT"
  "ToUpper (TrimSpace StateUNREACHABLE) = StateUNREACHABLE"
  "ToUpper (TrimSpace '''') = ''''"
  by (simp_all add: TrimSpace_plain go_consts plain_char_def byte_def ToUpper_def upper_char_def)

lemma state_distinct:
  "distinct ['''', StatePENDING, StateRUNNING, StateSUCCESS, StateFAILED, StateTIMEOUT,
     StateUNREACHABLE]"
  by (simp add: go_consts)

lemma lifecycle_table:
  "walletScanLifecycleStatusV1 '''' = ''requested''"
  "walletScanLifecycleStatusV1 StatePENDING = ''requested''"
  "walletScanLifecycleStatusV1 StateRUNNING = ''started''"
  "walletScanLifecycleStatusV1 StateSUCCESS = ''completed''"
  "walletScanLifecycleStatusV1 StateFAILED = ''failed''"
  "walletScanLifecycleStatusV1 StateTIMEOUT = ''failed''"
  "walletScanLifecycleStatusV1 StateUNREACHABLE = ''failed''"
  unfolding walletScanLifecycleStatusV1_def Let_def ToUpper_Trim_states
  by (simp_all add: go_consts)

definition scan_statuses :: "string list" where
  "scan_statuses = ['''', StatePENDING, StateRUNNING] @ TerminalStates"

text \<open>
  On the statuses the program stores, the public status agrees with the
  state machine: \<open>completed\<close> is exactly the success state, \<open>failed\<close> exactly the
  other terminal states, and the two open statuses are exactly the states a
  transition can still leave.
\<close>

theorem lifecycle_status_agrees:
  assumes "st \<in> set scan_statuses"
  shows "(walletScanLifecycleStatusV1 st = ''completed'' \<longleftrightarrow> IsSuccess st)
    \<and> (walletScanLifecycleStatusV1 st = ''failed'' \<longleftrightarrow> IsTerminal st \<and> \<not> IsSuccess st)
    \<and> (walletScanLifecycleStatusV1 st \<in> {''requested'', ''started''}
         \<longleftrightarrow> (\<exists>t. ValidTransition st t))"
proof -
  have ex: "(\<exists>t. ValidTransition st t) \<longleftrightarrow> st \<in> {'''', StatePENDING, StateRUNNING}"
    by (auto simp: ValidTransition_iff IsTerminal_iff)
  consider "st = ''''" | "st = StatePENDING" | "st = StateRUNNING" | "st = StateSUCCESS"
    | "st = StateFAILED" | "st = StateTIMEOUT" | "st = StateUNREACHABLE"
    using assms by (auto simp: scan_statuses_def TerminalStates_def)
  then show ?thesis
    unfolding ex
    by cases (simp_all add: lifecycle_table IsSuccess_def IsTerminal_iff, simp_all add: go_consts)
qed

theorem lifecycle_status_agrees_witness:
  "StateTIMEOUT \<in> set scan_statuses \<and> walletScanLifecycleStatusV1 StateTIMEOUT = ''failed''
   \<and> \<not> (\<exists>t. ValidTransition StateTIMEOUT t)"
proof -
  have m: "StateTIMEOUT \<in> set scan_statuses"
    by (simp add: scan_statuses_def TerminalStates_def)
  have "IsTerminal StateTIMEOUT \<and> \<not> IsSuccess StateTIMEOUT"
    by (simp add: IsTerminal_iff IsSuccess_def go_consts)
  with m lifecycle_status_agrees [OF m] show ?thesis by auto
qed

end
