(* ===== verification/Domain_Model.thy ===== *)
theory Domain_Model
  imports Scan_State
begin

text \<open>
  The package \<open>src/internal/domain\<close>: the entities that the relational store
  keeps, the transfer objects the handlers and exports build from them, and the
  derivation of the wallet kind.  A record has the fields of the Go struct in
  its order, prefixed to keep the selectors apart.  A nil-able slice is an
  \<open>option\<close>: \<open>None\<close> is the nil slice.  A NULL-able column (\<open>gorm.DeletedAt\<close>, the
  owner of a TLS row) is an \<open>option\<close>.

  The text columns hold JSON.  Decoding them is \<open>encoding/json\<close>, a parameter
  (\<open>json_pkg\<close>): the decoders with an error result, and the value a decoder
  leaves in its target where the program ignores the error.
\<close>

section \<open>Constants\<close>

definition AccountTypeEOA :: string where "AccountTypeEOA = ''EOA''"
definition AccountTypeAA :: string where "AccountTypeAA = ''AA''"
definition AccountTypeContract :: string where "AccountTypeContract = ''Contract''"
definition AccountTypeUnknown :: string where "AccountTypeUnknown = ''unknown''"
definition AlgorithmECDSAsecp256k1 :: string where "AlgorithmECDSAsecp256k1 = ''ECDSA-secp256k1''"
definition WalletTypeEOA :: string where "WalletTypeEOA = ''eoa''"
definition WalletTypeSmartAccount :: string where "WalletTypeSmartAccount = ''smart_account''"
definition WalletTypeContract :: string where "WalletTypeContract = ''contract''"
definition WalletTypeUnknown :: string where "WalletTypeUnknown = ''unknown''"
definition PlanTypeFree :: string where "PlanTypeFree = ''FREE''"
definition PlanTypePremium :: string where "PlanTypePremium = ''PREMIUM''"
definition ScanUsageKindWallet :: string where "ScanUsageKindWallet = ''wallet''"
definition ScanUsageKindEndpoint :: string where "ScanUsageKindEndpoint = ''endpoint''"

lemmas domain_consts [go_consts] =
  AccountTypeEOA_def AccountTypeAA_def AccountTypeContract_def AccountTypeUnknown_def
  AlgorithmECDSAsecp256k1_def WalletTypeEOA_def WalletTypeSmartAccount_def WalletTypeContract_def
  WalletTypeUnknown_def PlanTypeFree_def PlanTypePremium_def ScanUsageKindWallet_def
  ScanUsageKindEndpoint_def

text \<open>NIST levels are Go integers; the named ones are 1 to 5.\<close>

type_synonym NISTLevel = int

definition NISTLevel1 :: NISTLevel where "NISTLevel1 = 1"

section \<open>Transfer objects\<close>

record Delegation =
  dg_ChainID :: int
  dg_DelegatedAddress :: string

record ScanResult =
  res_Address :: string
  res_Type :: string
  res_Algorithm :: string
  res_NISTLevel :: NISTLevel
  res_KeyExposed :: bool
  res_PublicKey :: string
  res_TransactionHash :: string
  res_ExposedNetwork :: string
  res_PublicKeyRecovery :: string
  res_IsEOA :: bool
  res_IsERC4337 :: bool
  res_RiskScore :: float64
  res_ScannedAt :: go_time
  res_Networks :: "string list option"
  res_Delegations :: "Delegation list option"
  res_Connections :: "string list option"

record CertificateInfo =
  crt_Subject :: string
  crt_Issuer :: string
  crt_SignatureAlgorithm :: string
  crt_PublicKeyAlgorithm :: string
  crt_KeySize :: int
  crt_NotBefore :: go_time
  crt_NotAfter :: go_time
  crt_SerialNumber :: string
  crt_NISTLevel :: NISTLevel
  crt_IsPQCReady :: bool

record CipherSuiteInfo =
  cs_ID :: "16 word"
  cs_Name :: string
  cs_KeyExchange :: string
  cs_Encryption :: string
  cs_MAC :: string
  cs_NISTLevel :: NISTLevel
  cs_IsPQCReady :: bool

record TLSScanResult =
  tls_URL :: string
  tls_Host :: string
  tls_Port :: int
  tls_Certificate :: CertificateInfo
  tls_CipherSuites :: "CipherSuiteInfo list option"
  tls_ProtocolVersion :: string
  tls_NISTLevel :: NISTLevel
  tls_RiskScore :: float64
  tls_PQCRisk :: string
  tls_SupportedPQCs :: "string list option"
  tls_Recommendations :: "string list option"
  tls_ScannedAt :: go_time
  tls_KexAlgorithm :: string
  tls_KexPQCReady :: bool
  tls_PQCMode :: string
  tls_PFS :: bool
  tls_ALPN :: string
  tls_OCSPStapled :: bool
  tls_Curve :: string
  tls_NISTLevels :: "(string \<times> int) list option"
  tls_Default :: bool

section \<open>Entities\<close>

record CafeWallet =
  cw_PubKeyHash :: string
  cw_UserID :: uuid
  cw_UserPubKey :: string
  cw_Label :: string
  cw_CreatedAt :: go_time
  cw_UpdatedAt :: go_time
  cw_DeletedAt :: "go_time option"

record Plan =
  plan_ID :: uuid
  plan_Name :: string
  plan_Type :: string
  plan_WalletScanLimit :: int
  plan_EndpointScanLimit :: int
  plan_Price :: float64
  plan_IsActive :: bool
  plan_CreatedAt :: go_time
  plan_UpdatedAt :: go_time
  plan_DeletedAt :: "go_time option"

record User =
  user_ID :: uuid
  user_Email :: string
  user_Password :: string
  user_PlanID :: uuid
  user_CreatedAt :: go_time
  user_UpdatedAt :: go_time
  user_DeletedAt :: "go_time option"

record ScanUsageEventEntity =
  ev_ID :: uuid
  ev_UserID :: uuid
  ev_ScanID :: uuid
  ev_ScanKind :: string
  ev_ConsumedAt :: go_time

record ScanResultEntity =
  sr_ID :: uuid
  sr_UserID :: uuid
  sr_Address :: string
  sr_Type :: string
  sr_Algorithm :: string
  sr_NISTLevel :: NISTLevel
  sr_KeyExposed :: bool
  sr_PublicKey :: string
  sr_TransactionHash :: string
  sr_ExposedNetwork :: string
  sr_PublicKeyRecovery :: string
  sr_IsEOA :: bool
  sr_IsERC4337 :: bool
  sr_RiskScore :: float64
  sr_Networks :: string
  sr_Delegations :: string
  sr_Connections :: string
  sr_Status :: string
  sr_Error :: string
  sr_ScannedAt :: "go_time option"
  sr_CreatedAt :: go_time
  sr_UpdatedAt :: go_time
  sr_DeletedAt :: "go_time option"

record TLSScanResultEntity =
  ts_ID :: uuid
  ts_UserID :: "uuid option"
  ts_URL :: string
  ts_Host :: string
  ts_Port :: int
  ts_ProtocolVersion :: string
  ts_NISTLevel :: NISTLevel
  ts_RiskScore :: float64
  ts_PQCRisk :: string
  ts_Certificate :: string
  ts_CipherSuites :: string
  ts_SupportedPQCs :: string
  ts_Recommendations :: string
  ts_KexAlgorithm :: string
  ts_KexPQCReady :: bool
  ts_PQCMode :: string
  ts_PFS :: bool
  ts_ALPN :: string
  ts_OCSPStapled :: bool
  ts_Curve :: string
  ts_NISTLevels :: string
  ts_Default :: bool
  ts_Status :: string
  ts_Error :: string
  ts_CreatedAt :: go_time
  ts_UpdatedAt :: go_time
  ts_DeletedAt :: "go_time option"

text \<open>The parts of \<open>encoding/json\<close> that the entities use.\<close>

record json_pkg =
  unmarshal_strings :: "string \<Rightarrow> string list option result"
  unmarshal_delegations :: "string \<Rightarrow> Delegation list option result"
  decode_certificate :: "string \<Rightarrow> CertificateInfo"
  decode_cipher_suites :: "string \<Rightarrow> CipherSuiteInfo list option"
  decode_strings :: "string \<Rightarrow> string list option"
  decode_levels :: "string \<Rightarrow> (string \<times> int) list option"

section \<open>Operations\<close>

text \<open>The hooks that give a new row an identifier; \<open>fresh\<close> is the value of \<open>uuid.New()\<close>.\<close>

definition Plan_BeforeCreate :: "uuid \<Rightarrow> Plan \<Rightarrow> Plan" where
  "Plan_BeforeCreate fresh p = (if plan_ID p = uuid_Nil then p\<lparr>plan_ID := fresh\<rparr> else p)"

definition User_BeforeCreate :: "uuid \<Rightarrow> User \<Rightarrow> User" where
  "User_BeforeCreate fresh u = (if user_ID u = uuid_Nil then u\<lparr>user_ID := fresh\<rparr> else u)"

definition ScanResult_BeforeCreate :: "uuid \<Rightarrow> ScanResultEntity \<Rightarrow> ScanResultEntity" where
  "ScanResult_BeforeCreate fresh s = (if sr_ID s = uuid_Nil then s\<lparr>sr_ID := fresh\<rparr> else s)"

definition TLSScanResult_BeforeCreate :: "uuid \<Rightarrow> TLSScanResultEntity \<Rightarrow> TLSScanResultEntity" where
  "TLSScanResult_BeforeCreate fresh t = (if ts_ID t = uuid_Nil then t\<lparr>ts_ID := fresh\<rparr> else t)"

definition ScanUsageEvent_BeforeCreate :: "uuid \<Rightarrow> ScanUsageEventEntity \<Rightarrow> ScanUsageEventEntity" where
  "ScanUsageEvent_BeforeCreate fresh e = (if ev_ID e = uuid_Nil then e\<lparr>ev_ID := fresh\<rparr> else e)"

definition IsUnlimited :: "Plan \<Rightarrow> string \<Rightarrow> bool" where
  "IsUnlimited p scanType =
     (if scanType = ''wallet'' then plan_WalletScanLimit p = 0
      else if scanType = ''endpoint'' then plan_EndpointScanLimit p = 0
      else False)"

definition scannedAtOr :: "go_time option \<Rightarrow> go_time \<Rightarrow> go_time" where
  "scannedAtOr scanned fallback =
     (case scanned of Some t \<Rightarrow> if \<not> IsZero t then t else fallback | None \<Rightarrow> fallback)"

definition parseStringArray :: "json_pkg \<Rightarrow> string \<Rightarrow> string list option" where
  "parseStringArray J s =
     (if s = '''' \<or> s = ''[]'' then Some []
      else case unmarshal_strings J s of Inl _ \<Rightarrow> Some [] | Inr arr \<Rightarrow> arr)"

definition parseDelegations :: "json_pkg \<Rightarrow> string \<Rightarrow> Delegation list option" where
  "parseDelegations J s0 =
     (let s = TrimSpace s0 in
      if s = '''' \<or> s = ''[]'' \<or> s = ''null'' then Some []
      else case unmarshal_delegations J s of
             Inl _ \<Rightarrow> Some []
           | Inr None \<Rightarrow> Some []
           | Inr (Some arr) \<Rightarrow> Some arr)"

definition ToScanResult :: "json_pkg \<Rightarrow> ScanResultEntity \<Rightarrow> ScanResult" where
  "ToScanResult J s =
     \<lparr> res_Address = sr_Address s,
       res_Type = sr_Type s,
       res_Algorithm = sr_Algorithm s,
       res_NISTLevel = sr_NISTLevel s,
       res_KeyExposed = sr_KeyExposed s,
       res_PublicKey = sr_PublicKey s,
       res_TransactionHash = sr_TransactionHash s,
       res_ExposedNetwork = sr_ExposedNetwork s,
       res_PublicKeyRecovery = sr_PublicKeyRecovery s,
       res_IsEOA = sr_IsEOA s,
       res_IsERC4337 = sr_IsERC4337 s,
       res_RiskScore = sr_RiskScore s,
       res_ScannedAt = scannedAtOr (sr_ScannedAt s) (sr_UpdatedAt s),
       res_Networks = parseStringArray J (sr_Networks s),
       res_Delegations = parseDelegations J (sr_Delegations s),
       res_Connections = parseStringArray J (sr_Connections s) \<rparr>"

definition zero_certificate :: CertificateInfo where
  "zero_certificate =
     \<lparr> crt_Subject = '''', crt_Issuer = '''', crt_SignatureAlgorithm = '''',
       crt_PublicKeyAlgorithm = '''', crt_KeySize = 0, crt_NotBefore = 0, crt_NotAfter = 0,
       crt_SerialNumber = '''', crt_NISTLevel = 0, crt_IsPQCReady = False \<rparr>"

definition ToTLSScanResult :: "json_pkg \<Rightarrow> TLSScanResultEntity \<Rightarrow> TLSScanResult" where
  "ToTLSScanResult J t =
     \<lparr> tls_URL = ts_URL t,
       tls_Host = ts_Host t,
       tls_Port = ts_Port t,
       tls_Certificate = (if ts_Certificate t \<noteq> '''' then decode_certificate J (ts_Certificate t)
                          else zero_certificate),
       tls_CipherSuites = (if ts_CipherSuites t \<noteq> '''' then decode_cipher_suites J (ts_CipherSuites t)
                           else None),
       tls_ProtocolVersion = ts_ProtocolVersion t,
       tls_NISTLevel = ts_NISTLevel t,
       tls_RiskScore = ts_RiskScore t,
       tls_PQCRisk = ts_PQCRisk t,
       tls_SupportedPQCs = (if ts_SupportedPQCs t \<noteq> '''' then decode_strings J (ts_SupportedPQCs t)
                            else None),
       tls_Recommendations = (if ts_Recommendations t \<noteq> '''' then decode_strings J (ts_Recommendations t)
                              else None),
       tls_ScannedAt = ts_CreatedAt t,
       tls_KexAlgorithm = ts_KexAlgorithm t,
       tls_KexPQCReady = ts_KexPQCReady t,
       tls_PQCMode = ts_PQCMode t,
       tls_PFS = ts_PFS t,
       tls_ALPN = ts_ALPN t,
       tls_OCSPStapled = ts_OCSPStapled t,
       tls_Curve = ts_Curve t,
       tls_NISTLevels = (if ts_NISTLevels t \<noteq> '''' then decode_levels J (ts_NISTLevels t) else None),
       tls_Default = ts_Default t \<rparr>"

definition DeriveWalletTypeV1 :: "string \<Rightarrow> bool \<Rightarrow> bool \<Rightarrow> string" where
  "DeriveWalletTypeV1 t isEOA is4337 =
     (if is4337 \<or> t = AccountTypeAA then WalletTypeSmartAccount
      else if t = AccountTypeContract then WalletTypeContract
      else if isEOA \<or> t = AccountTypeEOA then WalletTypeEOA
      else WalletTypeUnknown)"

definition NormalizeWalletAccountKind :: "string \<Rightarrow> bool \<Rightarrow> bool \<Rightarrow> string \<times> bool \<times> bool \<times> string" where
  "NormalizeWalletAccountKind t isEOA is4337 =
     (let wt = DeriveWalletTypeV1 t isEOA is4337 in
      if wt = WalletTypeSmartAccount then (AccountTypeAA, False, True, WalletTypeSmartAccount)
      else if wt = WalletTypeContract then (AccountTypeContract, False, False, WalletTypeContract)
      else if wt = WalletTypeEOA then (AccountTypeEOA, True, False, WalletTypeEOA)
      else (AccountTypeUnknown, False, False, WalletTypeUnknown))"

definition NormalizeScanResultWalletKind :: "ScanResult option \<Rightarrow> ScanResult option" where
  "NormalizeScanResultWalletKind r =
     (case r of
        None \<Rightarrow> None
      | Some r \<Rightarrow>
          (case NormalizeWalletAccountKind (res_Type r) (res_IsEOA r) (res_IsERC4337 r) of
             (t, isEOA, is4337, _) \<Rightarrow>
               Some (r\<lparr>res_Type := t, res_IsEOA := isEOA, res_IsERC4337 := is4337\<rparr>)))"

section \<open>The wallet kind\<close>

lemma DeriveWalletTypeV1_cases:
  "DeriveWalletTypeV1 t e a \<in>
     {WalletTypeSmartAccount, WalletTypeContract, WalletTypeEOA, WalletTypeUnknown}"
  by (simp add: DeriveWalletTypeV1_def)

lemma Normalize_type:
  "NormalizeWalletAccountKind t e a = (t', e', a', w) \<Longrightarrow> w = DeriveWalletTypeV1 t e a"
  using DeriveWalletTypeV1_cases [of t e a]
  by (auto simp: NormalizeWalletAccountKind_def Let_def split: if_splits)

lemma Normalize_derive:
  "NormalizeWalletAccountKind t e a = (t', e', a', w) \<Longrightarrow> DeriveWalletTypeV1 t' e' a' = w"
  by (auto simp: NormalizeWalletAccountKind_def Let_def DeriveWalletTypeV1_def go_consts
      split: if_splits)

lemma Normalize_cong:
  "DeriveWalletTypeV1 t e a = DeriveWalletTypeV1 t' e' a' \<Longrightarrow>
     NormalizeWalletAccountKind t e a = NormalizeWalletAccountKind t' e' a'"
  by (simp add: NormalizeWalletAccountKind_def)

text \<open>
  The normalised kind is canonical. The wallet type it carries is the one
  derived from the raw fields, deriving again from the normalised fields gives
  the same type, normalising twice changes nothing, and the two flags are
  determined by the account type.
\<close>

lemma wallet_kind_canonical:
  assumes "NormalizeWalletAccountKind t e a = (t', e', a', w)"
  shows "w = DeriveWalletTypeV1 t e a
    \<and> NormalizeWalletAccountKind t' e' a' = (t', e', a', w)
    \<and> e' = (t' = AccountTypeEOA) \<and> a' = (t' = AccountTypeAA)"
proof -
  have "NormalizeWalletAccountKind t' e' a' = (t', e', a', w)"
    using Normalize_cong [of t' e' a' t e a] Normalize_derive [OF assms] Normalize_type [OF assms] assms
    by simp
  moreover have "e' = (t' = AccountTypeEOA) \<and> a' = (t' = AccountTypeAA)"
    using assms by (auto simp: NormalizeWalletAccountKind_def Let_def go_consts split: if_splits)
  ultimately show ?thesis using Normalize_type [OF assms] by simp
qed

lemma wallet_kind_canonical_witness:
  "NormalizeWalletAccountKind AccountTypeEOA True True
     = (AccountTypeAA, False, True, WalletTypeSmartAccount)
   \<and> NormalizeWalletAccountKind AccountTypeAA False True
     = (AccountTypeAA, False, True, WalletTypeSmartAccount)"
proof -
  have n: "NormalizeWalletAccountKind AccountTypeEOA True True
      = (AccountTypeAA, False, True, WalletTypeSmartAccount)"
    by (simp add: NormalizeWalletAccountKind_def DeriveWalletTypeV1_def)
  show ?thesis using n wallet_kind_canonical [OF n] by blast
qed

lemma parseDelegations_not_nil: "parseDelegations J s \<noteq> None"
  by (auto simp: parseDelegations_def Let_def split: sum.splits option.splits)

end
