(* ===== verification/Relational_Store.thy ===== *)
theory Relational_Store
  imports Domain_Model "HOL-Library.Product_Lexorder"
begin

text \<open>
  The relational store as the repositories see it through GORM: the tables as
  lists of rows in insertion order, the advisory locks of the open transaction,
  and the outcome of the statements still to come.  A statement may fail with
  any error the database reports: \<open>db_faults\<close> lists, for the next statements,
  the error each one fails with (\<open>None\<close> is success; past its end every statement
  succeeds), so that every error branch of the code is a behaviour of the model.
  A transaction that fails, at any statement or at the commit, leaves the tables
  as they were.
\<close>

section \<open>Tables and statements\<close>

record db =
  db_dialect :: string
  usage_events :: "ScanUsageEventEntity list"
  scan_results :: "ScanResultEntity list"
  tls_scan_results :: "TLSScanResultEntity list"
  db_plans :: "Plan list"
  db_users :: "User list"
  db_wallets :: "CafeWallet list"
  db_locks :: "(32 word \<times> 32 word) list"
  db_faults :: "goerr option list"

type_synonym 'a stm = "db \<Rightarrow> 'a result \<times> db"

definition next_fault :: "db \<Rightarrow> goerr option \<times> db" where
  "next_fault d = (case db_faults d of [] \<Rightarrow> (None, d) | f # fs \<Rightarrow> (f, d\<lparr>db_faults := fs\<rparr>))"

definition sql_query :: "(db \<Rightarrow> 'a) \<Rightarrow> 'a stm" where
  "sql_query f d = (case next_fault d of (Some e, d') \<Rightarrow> (Inl e, d') | (None, d') \<Rightarrow> (Inr (f d), d'))"

definition sql_exec :: "(db \<Rightarrow> 'a \<times> db) \<Rightarrow> 'a stm" where
  "sql_exec g d = (case next_fault d of
     (Some e, d') \<Rightarrow> (Inl e, d')
   | (None, d') \<Rightarrow> (case g d' of (x, d'') \<Rightarrow> (Inr x, d'')))"

text \<open>A write that a constraint of the table may refuse.\<close>

definition sql_change :: "(db \<Rightarrow> goerr + db) \<Rightarrow> unit stm" where
  "sql_change g d = (case next_fault d of
     (Some e, d') \<Rightarrow> (Inl e, d')
   | (None, d') \<Rightarrow> (case g d' of Inl e \<Rightarrow> (Inl e, d') | Inr d'' \<Rightarrow> (Inr (), d'')))"

definition dreturn :: "'a \<Rightarrow> 'a stm" where
  "dreturn x d = (Inr x, d)"

definition dfail :: "goerr \<Rightarrow> 'a stm" where
  "dfail e d = (Inl e, d)"

definition dbind :: "'a stm \<Rightarrow> ('a \<Rightarrow> 'b stm) \<Rightarrow> 'b stm" where
  "dbind m f d = (case m d of (Inl e, d') \<Rightarrow> (Inl e, d') | (Inr x, d') \<Rightarrow> f x d')"

definition dlift :: "'a result \<Rightarrow> 'a stm" where
  "dlift r d = (r, d)"

definition rollback_to :: "db \<Rightarrow> db \<Rightarrow> db" where
  "rollback_to d0 d1 = d0\<lparr>db_faults := db_faults d1\<rparr>"

text \<open>\<open>db.Transaction(fn)\<close>: begin, run, commit; advisory transaction locks end with it.\<close>

definition db_Transaction :: "'a stm \<Rightarrow> 'a stm" where
  "db_Transaction m d =
     (case next_fault d of
        (Some e, d0) \<Rightarrow> (Inl e, d0)
      | (None, d0) \<Rightarrow>
          (case m d0 of
             (Inl e, d1) \<Rightarrow> (Inl e, rollback_to d0 d1)
           | (Inr x, d1) \<Rightarrow>
               (case next_fault d1 of
                  (Some e, d2) \<Rightarrow> (Inl e, rollback_to d0 d2)
                | (None, d2) \<Rightarrow> (Inr x, d2\<lparr>db_locks := db_locks d0\<rparr>))))"

section \<open>What a statement can change\<close>

text \<open>The tables without the bookkeeping of the session.\<close>

definition tables :: "db \<Rightarrow> db" where
  "tables d = d\<lparr>db_locks := [], db_faults := []\<rparr>"

lemma tables_eq_iff:
  "tables d = tables d' \<longleftrightarrow>
     db_dialect d = db_dialect d' \<and> usage_events d = usage_events d'
     \<and> scan_results d = scan_results d' \<and> tls_scan_results d = tls_scan_results d'
     \<and> db_plans d = db_plans d' \<and> db_users d = db_users d' \<and> db_wallets d = db_wallets d'"
  by (cases d; cases d') (auto simp: tables_def)

lemma tables_session [simp]:
  "tables (d\<lparr>db_faults := fs\<rparr>) = tables d"
  "tables (d\<lparr>db_locks := ls\<rparr>) = tables d"
  by (simp_all add: tables_eq_iff)

lemma tables_rollback_to [simp]: "tables (rollback_to d0 d1) = tables d0"
  by (simp add: rollback_to_def)

lemma next_fault_tables: "next_fault d = (f, d') \<Longrightarrow> tables d' = tables d"
  by (auto simp: next_fault_def split: list.splits)

lemma next_fault_none [simp]: "db_faults d = [] \<Longrightarrow> next_fault d = (None, d)"
  by (simp add: next_fault_def)

lemma next_fault_tl: "next_fault d = (f, d') \<Longrightarrow> db_faults d' = tl (db_faults d)"
  by (auto simp: next_fault_def split: list.splits)

lemma sql_query_Inr:
  "sql_query f d = (Inr x, d') \<Longrightarrow> x = f d \<and> tables d' = tables d"
  by (auto simp: sql_query_def split: prod.splits option.splits dest: next_fault_tables)

lemma sql_query_Inl: "sql_query f d = (Inl e, d') \<Longrightarrow> tables d' = tables d"
  by (auto simp: sql_query_def split: prod.splits option.splits dest: next_fault_tables)

lemma sql_query_calm [simp]: "db_faults d = [] \<Longrightarrow> sql_query f d = (Inr (f d), d)"
  by (simp add: sql_query_def)

lemma sql_exec_calm [simp]:
  "db_faults d = [] \<Longrightarrow> sql_exec g d = (Inr (fst (g d)), snd (g d))"
  by (simp add: sql_exec_def split: prod.split)

lemma sql_exec_Inl: "sql_exec g d = (Inl e, d') \<Longrightarrow> tables d' = tables d"
  by (auto simp: sql_exec_def split: prod.splits option.splits dest: next_fault_tables)

lemma sql_change_Inl: "sql_change g d = (Inl e, d') \<Longrightarrow> tables d' = tables d"
  by (auto simp: sql_change_def split: prod.splits option.splits sum.splits dest: next_fault_tables)

lemma sql_change_Inr:
  "sql_change g d = (Inr x, d') \<Longrightarrow> \<exists>d0. tables d0 = tables d \<and> g d0 = Inr d'"
  by (auto simp: sql_change_def split: prod.splits option.splits sum.splits dest: next_fault_tables)

lemma sql_exec_Inr:
  "sql_exec g d = (Inr x, d') \<Longrightarrow> \<exists>d0. tables d0 = tables d \<and> g d0 = (x, d')"
  by (auto simp: sql_exec_def split: prod.splits option.splits dest: next_fault_tables)

lemma dbind_Inr:
  "dbind m f d = (Inr y, d') \<Longrightarrow> \<exists>x d0. m d = (Inr x, d0) \<and> f x d0 = (Inr y, d')"
  by (auto simp: dbind_def split: prod.splits sum.splits)

lemma dbind_Inl:
  "dbind m f d = (Inl e, d') \<Longrightarrow>
     m d = (Inl e, d') \<or> (\<exists>x d0. m d = (Inr x, d0) \<and> f x d0 = (Inl e, d'))"
  by (auto simp: dbind_def split: prod.splits sum.splits)

lemma dbind_step [simp]: "m d = (Inr x, d0) \<Longrightarrow> dbind m f d = f x d0"
  by (simp add: dbind_def)

lemma dreturn_iff [simp]: "dreturn x d = (r, d') \<longleftrightarrow> r = Inr x \<and> d' = d"
  by (auto simp: dreturn_def)

lemma dfail_iff [simp]: "dfail e d = (r, d') \<longleftrightarrow> r = Inl e \<and> d' = d"
  by (auto simp: dfail_def)

text \<open>A failed transaction has no effect on the tables.\<close>

lemma db_Transaction_Inl: "db_Transaction m d = (Inl e, d') \<Longrightarrow> tables d' = tables d"
  by (auto simp: db_Transaction_def split: prod.splits option.splits sum.splits
      dest: next_fault_tables)

lemma db_Transaction_Inr:
  assumes "db_Transaction m d = (Inr x, d')"
  shows "\<exists>d0 d1. tables d0 = tables d \<and> m d0 = (Inr x, d1) \<and> tables d' = tables d1"
  using assms
  by (auto simp: db_Transaction_def split: prod.splits option.splits sum.splits
      dest: next_fault_tables) (metis next_fault_tables)

lemma db_Transaction_calm:
  assumes "db_faults d = []" "m d = (Inr x, d1)" "db_faults d1 = []"
  shows "db_Transaction m d = (Inr x, d1\<lparr>db_locks := db_locks d\<rparr>)"
  using assms by (simp add: db_Transaction_def)

section \<open>Statements that only read\<close>

text \<open>
  \<open>reads m f\<close>: the statement \<open>m\<close> leaves the tables alone and either fails or
  returns \<open>f\<close> of them; without a fault ahead it returns.
\<close>

definition reads :: "'a stm \<Rightarrow> (db \<Rightarrow> 'a) \<Rightarrow> bool" where
  "reads m f \<longleftrightarrow> (\<forall>d r d'. m d = (r, d') \<longrightarrow>
     tables d' = tables d \<and> (\<forall>x. r = Inr x \<longrightarrow> x = f (tables d))
     \<and> (db_faults d = [] \<longrightarrow> db_faults d' = [] \<and> r = Inr (f (tables d))))"

lemma tables_sel [simp]:
  "usage_events (tables d) = usage_events d"
  "scan_results (tables d) = scan_results d"
  "tls_scan_results (tables d) = tls_scan_results d"
  "db_plans (tables d) = db_plans d"
  "db_users (tables d) = db_users d"
  "db_wallets (tables d) = db_wallets d"
  "db_dialect (tables d) = db_dialect d"
  "tables (tables d) = tables d"
  by (simp_all add: tables_def)

lemma readsI:
  assumes "\<And>d r d'. m d = (r, d') \<Longrightarrow> tables d' = tables d"
    and "\<And>d x d'. m d = (Inr x, d') \<Longrightarrow> x = f (tables d)"
    and "\<And>d r d'. m d = (r, d') \<Longrightarrow> db_faults d = [] \<Longrightarrow> db_faults d' = [] \<and> r = Inr (f (tables d))"
  shows "reads m f"
  unfolding reads_def using assms by blast

lemma reads_tables: "reads m f \<Longrightarrow> m d = (r, d') \<Longrightarrow> tables d' = tables d"
  unfolding reads_def by blast

lemma reads_Inr: "reads m f \<Longrightarrow> m d = (Inr x, d') \<Longrightarrow> x = f (tables d)"
  unfolding reads_def by blast

lemma reads_calm:
  assumes "reads m f" and "db_faults d = []"
  obtains d' where "m d = (Inr (f (tables d)), d')" "db_faults d' = []" "tables d' = tables d"
  using assms unfolding reads_def by (metis prod.exhaust)

lemma reads_query: "(\<And>d. f (tables d) = f d) \<Longrightarrow> reads (sql_query f) f"
  by (rule readsI) (auto dest: sql_query_Inr sql_query_Inl split: sum.splits,
    metis sql_query_Inr sql_query_Inl sum.exhaust)

lemma reads_dreturn: "reads (dreturn x) (\<lambda>_. x)"
  by (rule readsI) auto

lemma reads_dlift: "reads (dlift (Inr x)) (\<lambda>_. x)"
  by (rule readsI) (auto simp: dlift_def)

lemma reads_dbind:
  assumes m: "reads m f" and g: "\<And>x. reads (g x) (h x)"
  shows "reads (dbind m g) (\<lambda>d. h (f d) d)"
  unfolding reads_def
proof (intro allI impI)
  fix d r d' assume *: "dbind m g d = (r, d')"
  obtain r0 d0 where md: "m d = (r0, d0)" by fastforce
  have t0: "tables d0 = tables d" by (rule reads_tables [OF m md])
  show "tables d' = tables d \<and> (\<forall>x. r = Inr x \<longrightarrow> x = h (f (tables d)) (tables d))
     \<and> (db_faults d = [] \<longrightarrow> db_faults d' = [] \<and> r = Inr (h (f (tables d)) (tables d)))"
  proof (cases r0)
    case (Inl e)
    then have "r = Inl e \<and> d' = d0" using * md by (simp add: dbind_def)
    moreover have "db_faults d \<noteq> []" using m md Inl unfolding reads_def by blast
    ultimately show ?thesis using t0 by auto
  next
    case (Inr x)
    then have gx: "g x d0 = (r, d')" using * md by simp
    have x: "x = f (tables d)" using reads_Inr [OF m] md Inr by blast
    have "db_faults d = [] \<longrightarrow> db_faults d0 = []" using m md unfolding reads_def by blast
    then show ?thesis using g [of x] gx x t0 unfolding reads_def by metis
  qed
qed

text \<open>A transaction of read-only statements reads.\<close>

lemma reads_db_Transaction:
  assumes "reads m f"
  shows "reads (db_Transaction m) f"
proof (rule readsI)
  fix d r d' assume *: "db_Transaction m d = (r, d')"
  show "tables d' = tables d"
  proof (cases r)
    case (Inl e) then show ?thesis using * db_Transaction_Inl [of m d e d'] by simp
  next
    case (Inr x)
    then obtain d0 d1 where "tables d0 = tables d" "m d0 = (Inr x, d1)" "tables d' = tables d1"
      using db_Transaction_Inr [of m d x d'] * by auto
    then show ?thesis using reads_tables [OF assms, of d0 "Inr x" d1] by simp
  qed
next
  fix d x d' assume *: "db_Transaction m d = (Inr x, d')"
  obtain d0 d1 where "tables d0 = tables d" "m d0 = (Inr x, d1)"
    using db_Transaction_Inr [OF *] by auto
  then show "x = f (tables d)" using reads_Inr [OF assms, of d0 x d1] by simp
next
  fix d r d' assume *: "db_Transaction m d = (r, d')" and c: "db_faults d = []"
  obtain d1 where "m d = (Inr (f (tables d)), d1)" "db_faults d1 = []"
    using reads_calm [OF assms c] by blast
  then show "db_faults d' = [] \<and> r = Inr (f (tables d))"
    using db_Transaction_calm [OF c, of m "f (tables d)" d1] * by auto
qed

section \<open>Quiet and clean statements\<close>

text \<open>
  A quiet statement changes no table.  A clean one changes none when it fails:
  the caller may treat its error as if nothing had happened.
\<close>

definition quiet :: "'a stm \<Rightarrow> bool" where
  "quiet m \<longleftrightarrow> (\<forall>d r d'. m d = (r, d') \<longrightarrow> tables d' = tables d)"

definition clean :: "'a stm \<Rightarrow> bool" where
  "clean m \<longleftrightarrow> (\<forall>d e d'. m d = (Inl e, d') \<longrightarrow> tables d' = tables d)"

definition never_fails :: "'a stm \<Rightarrow> bool" where
  "never_fails m \<longleftrightarrow> (\<forall>d. \<exists>x d'. m d = (Inr x, d'))"

lemma quietD: "quiet m \<Longrightarrow> m d = (r, d') \<Longrightarrow> tables d' = tables d"
  unfolding quiet_def by blast

lemma cleanD: "clean m \<Longrightarrow> m d = (Inl e, d') \<Longrightarrow> tables d' = tables d"
  unfolding clean_def by blast

named_theorems quiet_intros \<open>statements that change no table\<close>
named_theorems clean_intros \<open>statements that change no table when they fail\<close>

lemma quiet_reads: "reads m f \<Longrightarrow> quiet m"
  unfolding reads_def quiet_def by blast

lemma quiet_query [quiet_intros]: "quiet (sql_query f)"
proof -
  have "tables d' = tables d" if "sql_query f d = (r, d')" for d r d'
    using that sql_query_Inr [of f d _ d'] sql_query_Inl [of f d _ d'] by (cases r) auto
  then show ?thesis by (simp add: quiet_def)
qed

lemma quiet_return [quiet_intros]: "quiet (dreturn x)" "quiet (dfail e)" "quiet (dlift r)"
  by (simp_all add: quiet_def dreturn_def dfail_def dlift_def)

lemma quiet_dbind [quiet_intros]: "quiet m \<Longrightarrow> (\<And>x. quiet (f x)) \<Longrightarrow> quiet (dbind m f)"
  unfolding quiet_def dbind_def by (simp split: prod.splits sum.splits)

lemma quiet_cases [quiet_intros]:
  "quiet m \<Longrightarrow> quiet n \<Longrightarrow> quiet (if b then m else n)"
  "quiet m \<Longrightarrow> (\<And>x. quiet (f x)) \<Longrightarrow> quiet (case o1 of None \<Rightarrow> m | Some x \<Rightarrow> f x)"
  "(\<And>x y. quiet (g x y)) \<Longrightarrow> quiet (case p of (x, y) \<Rightarrow> g x y)"
  by (simp_all split: option.split prod.split)

lemma quiet_clean: "quiet m \<Longrightarrow> clean m"
  unfolding quiet_def clean_def by blast

lemma clean_transaction [clean_intros]: "clean (db_Transaction m)"
  unfolding clean_def by (blast intro: db_Transaction_Inl)

lemma clean_exec [clean_intros]: "clean (sql_exec g)" "clean (sql_change h)"
  unfolding clean_def by (blast intro: sql_exec_Inl, blast intro: sql_change_Inl)

lemma clean_dbind_quiet: "quiet m \<Longrightarrow> (\<And>x. clean (f x)) \<Longrightarrow> clean (dbind m f)"
  unfolding quiet_def clean_def dbind_def by (simp split: prod.splits sum.splits)

lemma clean_dbind_never_fails: "clean m \<Longrightarrow> (\<And>x. never_fails (f x)) \<Longrightarrow> clean (dbind m f)"
  unfolding never_fails_def clean_def dbind_def
  by (auto split: prod.splits sum.splits) (metis old.sum.distinct(1) prod.inject)

lemma never_fails_return [simp]: "never_fails (dreturn x)"
  by (simp add: never_fails_def dreturn_def)

section \<open>Calm runs\<close>

text \<open>A statement never brings new faults: without one ahead there is none afterwards.\<close>

definition stays_calm :: "'a stm \<Rightarrow> bool" where
  "stays_calm m \<longleftrightarrow> (\<forall>d r d'. db_faults d = [] \<longrightarrow> m d = (r, d') \<longrightarrow> db_faults d' = [])"

named_theorems calm_intros \<open>statements that bring no new faults\<close>

lemma stays_calmD: "stays_calm m \<Longrightarrow> m d = (r, d') \<Longrightarrow> db_faults d = [] \<Longrightarrow> db_faults d' = []"
  unfolding stays_calm_def by blast

lemma calm_reads: "reads m f \<Longrightarrow> stays_calm m"
  unfolding reads_def stays_calm_def by blast

lemma calm_query [calm_intros]: "stays_calm (sql_query f)"
  by (simp add: stays_calm_def)

lemma calm_exec [calm_intros]:
  assumes "\<And>d. db_faults (snd (g d)) = db_faults d"
  shows "stays_calm (sql_exec g)"
  using assms by (simp add: stays_calm_def)

lemma calm_return [calm_intros]: "stays_calm (dreturn x)" "stays_calm (dfail e)" "stays_calm (dlift r)"
  by (simp_all add: stays_calm_def dreturn_def dfail_def dlift_def)

lemma calm_dbind [calm_intros]:
  assumes "stays_calm m" and "\<And>x. stays_calm (f x)"
  shows "stays_calm (dbind m f)"
  unfolding stays_calm_def
proof (intro allI impI)
  fix d r d' assume c: "db_faults d = []" and b: "dbind m f d = (r, d')"
  obtain r0 d0 where m: "m d = (r0, d0)" by fastforce
  have "db_faults d0 = []" by (rule stays_calmD [OF assms(1) m c])
  then show "db_faults d' = []"
    using b m stays_calmD [OF assms(2)] by (cases r0) (auto simp: dbind_def)
qed

lemma calm_cases [calm_intros]:
  "stays_calm m \<Longrightarrow> stays_calm n \<Longrightarrow> stays_calm (if b then m else n)"
  "stays_calm m \<Longrightarrow> (\<And>x. stays_calm (f x)) \<Longrightarrow> stays_calm (case o1 of None \<Rightarrow> m | Some x \<Rightarrow> f x)"
  by (simp_all split: option.split)

lemma calm_transaction [calm_intros]:
  assumes "stays_calm m"
  shows "stays_calm (db_Transaction m)"
  unfolding stays_calm_def
proof (intro allI impI)
  fix d r d' assume c: "db_faults d = []" and t: "db_Transaction m d = (r, d')"
  obtain r1 d1 where m: "m d = (r1, d1)" by fastforce
  have d1: "db_faults d1 = []" by (rule stays_calmD [OF assms m c])
  show "db_faults d' = []"
    using t c m d1 by (cases r1) (auto simp: db_Transaction_def rollback_to_def)
qed

end
