(* ===== verification/Scan_Ledger.thy ===== *)
theory Scan_Ledger
  imports Relational_Store
begin

text \<open>
  The plan-quota ledger, \<open>src/internal/repository/scan_usage_ledger_repository.go\<close>,
  over the relational store.  Queries through a GORM model skip soft-deleted
  rows; \<open>Unscoped\<close> ones and raw SQL see what they name.  \<open>fresh\<close> and \<open>now\<close> are
  the values of \<open>uuid.New()\<close> and \<open>time.Now()\<close> at the insertion.
\<close>

unbundle bit_operations_syntax

section \<open>Rows a query counts\<close>

definition scanUsageInFlightStatuses :: "string list" where
  "scanUsageInFlightStatuses = [StatePENDING, StateRUNNING, '''']"

definition ledger_rows :: "uuid \<Rightarrow> string \<Rightarrow> db \<Rightarrow> ScanUsageEventEntity list" where
  "ledger_rows u k d = filter (\<lambda>e. ev_UserID e = u \<and> ev_ScanKind e = k) (usage_events d)"

definition wallet_in_flight :: "uuid \<Rightarrow> ScanResultEntity \<Rightarrow> bool" where
  "wallet_in_flight u s \<longleftrightarrow> sr_DeletedAt s = None \<and> sr_UserID s = u
     \<and> sr_Status s \<in> set scanUsageInFlightStatuses"

definition tls_in_flight :: "uuid \<Rightarrow> TLSScanResultEntity \<Rightarrow> bool" where
  "tls_in_flight u t \<longleftrightarrow> ts_DeletedAt t = None \<and> ts_UserID t = Some u \<and> ts_Default t = False
     \<and> ts_Status t \<in> set scanUsageInFlightStatuses"

section \<open>The repository\<close>

record OpenScanReservation =
  open_ScanID :: uuid
  open_UserID :: uuid
  open_ScanKind :: string
  open_ConsumedAt :: go_time

definition ScanUsageAllowed :: string where "ScanUsageAllowed = ''''"
definition ScanUsageDenyQuota :: string where "ScanUsageDenyQuota = ''quota''"
definition ScanUsageDenyParallel :: string where "ScanUsageDenyParallel = ''parallel''"

lemmas deny_consts [go_consts] =
  ScanUsageAllowed_def ScanUsageDenyQuota_def ScanUsageDenyParallel_def

record ScanUsageReservation =
  rv_Reserved :: bool
  rv_Deny :: string
  rv_LedgerCount :: int
  rv_ExtraInFlight :: int
  rv_ParallelInFlight :: int

record scanQuotaSnapshot =
  snap_ledger :: int
  snap_extraInFlight :: int
  snap_parallel :: int

definition errInvalidScanUsageKind :: goerr where
  "errInvalidScanUsageKind = ErrNew ''invalid scan usage kind''"

definition validateScanUsageKind :: "string \<Rightarrow> unit result" where
  "validateScanUsageKind kind =
     (if kind = ScanUsageKindWallet \<or> kind = ScanUsageKindEndpoint then Inr ()
      else Inl errInvalidScanUsageKind)"

text \<open>\<open>uuidBytesToLockKeyInt32\<close> and \<open>userKindAdvisoryLockKey\<close> on 32-bit words.\<close>

definition uuid_byte :: "uuid \<Rightarrow> nat \<Rightarrow> 8 word" where
  "uuid_byte u i = ucast (drop_bit (8 * (15 - i)) u)"

definition uuidBytesToLockKeyInt32 :: "8 word list \<Rightarrow> 32 word" where
  "uuidBytesToLockKeyInt32 b =
     push_bit 24 (ucast (b ! 0)) OR push_bit 16 (ucast (b ! 1)) OR push_bit 8 (ucast (b ! 2))
       OR ucast (b ! 3)"

definition userKindAdvisoryLockKey :: "uuid \<Rightarrow> string \<Rightarrow> 32 word \<times> 32 word" where
  "userKindAdvisoryLockKey userID kind =
     (let k1 = uuidBytesToLockKeyInt32 (map (uuid_byte userID) [0, 1, 2, 3]);
          k2 = uuidBytesToLockKeyInt32 (map (uuid_byte userID) [4, 5, 6, 7]);
          mix = (if kind = ScanUsageKindWallet then 1
                 else if kind = ScanUsageKindEndpoint then 2 else 3)
      in (k1, k2 XOR mix))"

definition lockUserKindQuota :: "uuid \<Rightarrow> string \<Rightarrow> unit stm" where
  "lockUserKindQuota userID kind d =
     (if db_dialect d = ''postgres''
      then sql_exec (\<lambda>d. ((), d\<lparr>db_locks := userKindAdvisoryLockKey userID kind # db_locks d\<rparr>)) d
      else (Inr (), d))"

text \<open>The insertion with \<open>ON CONFLICT (scan_id) DO NOTHING\<close>.\<close>

definition insert_usage :: "ScanUsageEventEntity \<Rightarrow> db \<Rightarrow> db" where
  "insert_usage e d =
     (if ev_ScanID e \<in> ev_ScanID ` set (usage_events d) then d
      else d\<lparr>usage_events := usage_events d @ [e]\<rparr>)"

definition usage_event :: "uuid \<Rightarrow> go_time \<Rightarrow> uuid \<Rightarrow> uuid \<Rightarrow> string \<Rightarrow> ScanUsageEventEntity" where
  "usage_event fresh now userID scanID kind =
     ScanUsageEvent_BeforeCreate fresh
       \<lparr> ev_ID = uuid_Nil, ev_UserID = userID, ev_ScanID = scanID, ev_ScanKind = kind,
         ev_ConsumedAt = now \<rparr>"

definition RecordSuccessUsageInTx :: "uuid \<Rightarrow> go_time \<Rightarrow> uuid \<Rightarrow> uuid \<Rightarrow> string \<Rightarrow> unit stm" where
  "RecordSuccessUsageInTx fresh now userID scanID kind =
     dbind (dlift (validateScanUsageKind kind)) (\<lambda>_.
       sql_exec (\<lambda>d. ((), insert_usage (usage_event fresh now userID scanID kind) d)))"

definition RecordSuccessUsage :: "uuid \<Rightarrow> go_time \<Rightarrow> uuid \<Rightarrow> uuid \<Rightarrow> string \<Rightarrow> unit stm" where
  "RecordSuccessUsage = RecordSuccessUsageInTx"

definition CountSuccessUsage :: "uuid \<Rightarrow> string \<Rightarrow> int stm" where
  "CountSuccessUsage userID kind =
     dbind (dlift (validateScanUsageKind kind)) (\<lambda>_.
       sql_query (\<lambda>d. int (length (ledger_rows userID kind d))))"

definition countInFlight :: "uuid \<Rightarrow> string \<Rightarrow> int stm" where
  "countInFlight userID kind =
     (if kind = ScanUsageKindWallet
      then sql_query (\<lambda>d. int (length (filter (wallet_in_flight userID) (scan_results d))))
      else if kind = ScanUsageKindEndpoint
      then sql_query (\<lambda>d. int (length (filter (tls_in_flight userID) (tls_scan_results d))))
      else dfail errInvalidScanUsageKind)"

definition CountInFlightScans :: "uuid \<Rightarrow> string \<Rightarrow> int stm" where
  "CountInFlightScans userID kind =
     dbind (dlift (validateScanUsageKind kind)) (\<lambda>_. countInFlight userID kind)"

definition CountVisibleSuccessScans :: "uuid \<Rightarrow> string \<Rightarrow> int stm" where
  "CountVisibleSuccessScans userID kind =
     dbind (dlift (validateScanUsageKind kind)) (\<lambda>_.
       if kind = ScanUsageKindWallet
       then sql_query (\<lambda>d. int (length (filter
              (\<lambda>s. sr_DeletedAt s = None \<and> sr_UserID s = userID \<and> sr_Status s = StateSUCCESS)
              (scan_results d))))
       else if kind = ScanUsageKindEndpoint
       then sql_query (\<lambda>d. int (length (filter
              (\<lambda>t. ts_DeletedAt t = None \<and> ts_UserID t = Some userID \<and> ts_Default t = False
                   \<and> ts_Status t = StateSUCCESS)
              (tls_scan_results d))))
       else dfail errInvalidScanUsageKind)"

definition TryAcquireSuccessSlotInTx :: "uuid \<Rightarrow> string \<Rightarrow> int \<Rightarrow> bool stm" where
  "TryAcquireSuccessSlotInTx userID kind limit =
     (if limit \<le> 0 then dreturn True
      else dbind (dlift (validateScanUsageKind kind)) (\<lambda>_.
           dbind (lockUserKindQuota userID kind) (\<lambda>_.
           dbind (sql_query (\<lambda>d. int (length (ledger_rows userID kind d)))) (\<lambda>count.
           dreturn (count < limit)))))"

definition TryAcquireSuccessSlot :: "uuid \<Rightarrow> string \<Rightarrow> int \<Rightarrow> bool stm" where
  "TryAcquireSuccessSlot userID kind limit =
     (if limit \<le> 0 then dreturn True
      else db_Transaction (TryAcquireSuccessSlotInTx userID kind limit))"

definition RecordSuccessUsageIfUnderLimitInTx ::
  "uuid \<Rightarrow> go_time \<Rightarrow> uuid \<Rightarrow> uuid \<Rightarrow> string \<Rightarrow> int \<Rightarrow> bool stm" where
  "RecordSuccessUsageIfUnderLimitInTx fresh now userID scanID kind limit =
     (if limit \<le> 0
      then dbind (RecordSuccessUsageInTx fresh now userID scanID kind) (\<lambda>_. dreturn True)
      else dbind (dlift (validateScanUsageKind kind)) (\<lambda>_.
        sql_exec (\<lambda>d.
          let e = \<lparr> ev_ID = fresh, ev_UserID = userID, ev_ScanID = scanID, ev_ScanKind = kind,
                    ev_ConsumedAt = now \<rparr>;
              d' = (if int (length (ledger_rows userID kind d)) < limit then insert_usage e d else d)
          in (length (usage_events d') > length (usage_events d), d'))))"

definition countInFlightWithoutLedger :: "uuid \<Rightarrow> string \<Rightarrow> int stm" where
  "countInFlightWithoutLedger userID kind =
     (if kind = ScanUsageKindWallet
      then sql_query (\<lambda>d. int (length (filter
             (\<lambda>s. wallet_in_flight userID s
                  \<and> sr_ID s \<notin> ev_ScanID ` set (ledger_rows userID kind d)) (scan_results d))))
      else if kind = ScanUsageKindEndpoint
      then sql_query (\<lambda>d. int (length (filter
             (\<lambda>t. tls_in_flight userID t
                  \<and> ts_ID t \<notin> ev_ScanID ` set (ledger_rows userID kind d)) (tls_scan_results d))))
      else dfail errInvalidScanUsageKind)"

definition countOpenReservations :: "uuid \<Rightarrow> string \<Rightarrow> int stm" where
  "countOpenReservations userID kind =
     (if kind = ScanUsageKindWallet
      then sql_query (\<lambda>d. int (length (filter
             (\<lambda>e. ev_ScanID e \<notin> sr_ID ` set (scan_results d)) (ledger_rows userID kind d))))
      else if kind = ScanUsageKindEndpoint
      then sql_query (\<lambda>d. int (length (filter
             (\<lambda>e. ev_ScanID e \<notin> ts_ID ` set (tls_scan_results d)) (ledger_rows userID kind d))))
      else dfail errInvalidScanUsageKind)"

definition loadScanQuotaSnapshot :: "uuid \<Rightarrow> string \<Rightarrow> scanQuotaSnapshot stm" where
  "loadScanQuotaSnapshot userID kind =
     dbind (sql_query (\<lambda>d. int (length (ledger_rows userID kind d)))) (\<lambda>ledger.
     dbind (countInFlight userID kind) (\<lambda>inFlight.
     dbind (countInFlightWithoutLedger userID kind) (\<lambda>extra.
     dbind (countOpenReservations userID kind) (\<lambda>open.
     dreturn \<lparr> snap_ledger = ledger, snap_extraInFlight = extra,
               snap_parallel = inFlight + open \<rparr>))))"

text \<open>The decision of \<open>ReserveScanUsage\<close> on a snapshot, before the insertion.\<close>

definition reserve_decision :: "int \<Rightarrow> int \<Rightarrow> scanQuotaSnapshot \<Rightarrow> ScanUsageReservation" where
  "reserve_decision quotaLimit parallelCap snap =
     (let out = \<lparr> rv_Reserved = False, rv_Deny = ScanUsageAllowed,
                  rv_LedgerCount = snap_ledger snap,
                  rv_ExtraInFlight = snap_extraInFlight snap,
                  rv_ParallelInFlight = snap_parallel snap \<rparr> in
      if quotaLimit > 0 \<and> snap_ledger snap + snap_extraInFlight snap \<ge> quotaLimit
      then out\<lparr>rv_Deny := ScanUsageDenyQuota\<rparr>
      else if parallelCap > 0 \<and> snap_parallel snap \<ge> parallelCap
      then out\<lparr>rv_Deny := ScanUsageDenyParallel\<rparr>
      else out\<lparr>rv_Reserved := True\<rparr>)"

definition ReserveScanUsage ::
  "uuid \<Rightarrow> go_time \<Rightarrow> uuid \<Rightarrow> uuid \<Rightarrow> string \<Rightarrow> int \<Rightarrow> int \<Rightarrow> ScanUsageReservation stm" where
  "ReserveScanUsage fresh now userID scanID kind quotaLimit parallelCap =
     (if scanID = uuid_Nil then dfail (ErrNew ''scan id required'')
      else dbind (dlift (validateScanUsageKind kind)) (\<lambda>_.
        db_Transaction (
          dbind (lockUserKindQuota userID kind) (\<lambda>_.
          dbind (loadScanQuotaSnapshot userID kind) (\<lambda>snap.
          let out = reserve_decision quotaLimit parallelCap snap in
          if \<not> rv_Reserved out then dreturn out
          else dbind (RecordSuccessUsageInTx fresh now userID scanID kind) (\<lambda>_.
               dreturn out))))))"

definition ReleaseSuccessUsageByScanID :: "uuid \<Rightarrow> unit stm" where
  "ReleaseSuccessUsageByScanID scanID =
     sql_exec (\<lambda>d. ((), d\<lparr>usage_events := filter (\<lambda>e. ev_ScanID e \<noteq> scanID) (usage_events d)\<rparr>))"

definition ListOpenScanReservations :: "OpenScanReservation list stm" where
  "ListOpenScanReservations =
     sql_query (\<lambda>d. map
       (\<lambda>e. \<lparr> open_ScanID = ev_ScanID e, open_UserID = ev_UserID e,
              open_ScanKind = ev_ScanKind e, open_ConsumedAt = ev_ConsumedAt e \<rparr>)
       (filter (\<lambda>e.
          \<not> (\<exists>s \<in> set (scan_results d). sr_ID s = ev_ScanID e \<and> sr_DeletedAt s = None
               \<and> sr_Status s \<in> {StateSUCCESS, StateFAILED, StateTIMEOUT, StateUNREACHABLE})
          \<and> \<not> (\<exists>t \<in> set (tls_scan_results d). ts_ID t = ev_ScanID e \<and> ts_DeletedAt t = None
               \<and> ts_Status t \<in> {StateSUCCESS, StateFAILED, StateTIMEOUT, StateUNREACHABLE}))
        (usage_events d)))"

section \<open>What the statements read\<close>

definition valid_kind :: "string \<Rightarrow> bool" where
  "valid_kind k \<longleftrightarrow> k = ScanUsageKindWallet \<or> k = ScanUsageKindEndpoint"

text \<open>The state of a user's quota for a kind, as a function of the tables.\<close>

definition ledger_used :: "uuid \<Rightarrow> string \<Rightarrow> db \<Rightarrow> int" where
  "ledger_used u k d = int (length (ledger_rows u k d))"

definition scan_rows_of_kind :: "string \<Rightarrow> db \<Rightarrow> uuid set" where
  "scan_rows_of_kind k d =
     (if k = ScanUsageKindWallet then sr_ID ` set (scan_results d) else ts_ID ` set (tls_scan_results d))"

definition in_flight_ids :: "uuid \<Rightarrow> string \<Rightarrow> db \<Rightarrow> uuid list" where
  "in_flight_ids u k d =
     (if k = ScanUsageKindWallet
      then map sr_ID (filter (wallet_in_flight u) (scan_results d))
      else map ts_ID (filter (tls_in_flight u) (tls_scan_results d)))"

definition extra_in_flight :: "uuid \<Rightarrow> string \<Rightarrow> db \<Rightarrow> int" where
  "extra_in_flight u k d =
     int (length (filter (\<lambda>i. i \<notin> ev_ScanID ` set (ledger_rows u k d)) (in_flight_ids u k d)))"

definition open_reservations :: "uuid \<Rightarrow> string \<Rightarrow> db \<Rightarrow> int" where
  "open_reservations u k d =
     int (length (filter (\<lambda>e. ev_ScanID e \<notin> scan_rows_of_kind k d) (ledger_rows u k d)))"

definition running_scans :: "uuid \<Rightarrow> string \<Rightarrow> db \<Rightarrow> int" where
  "running_scans u k d = int (length (in_flight_ids u k d)) + open_reservations u k d"

definition quota_snapshot :: "uuid \<Rightarrow> string \<Rightarrow> db \<Rightarrow> scanQuotaSnapshot" where
  "quota_snapshot u k d = \<lparr> snap_ledger = ledger_used u k d,
     snap_extraInFlight = extra_in_flight u k d, snap_parallel = running_scans u k d \<rparr>"

lemma kinds_distinct [simp]:
  "ScanUsageKindWallet \<noteq> ScanUsageKindEndpoint" "ScanUsageKindEndpoint \<noteq> ScanUsageKindWallet"
  by (simp_all add: go_consts)

lemma validate_kind [simp]:
  "valid_kind k \<Longrightarrow> validateScanUsageKind k = Inr ()"
  "\<not> valid_kind k \<Longrightarrow> validateScanUsageKind k = Inl errInvalidScanUsageKind"
  by (auto simp: valid_kind_def validateScanUsageKind_def)

lemma ledger_tables [simp]:
  "ledger_rows u k (tables d) = ledger_rows u k d"
  "ledger_used u k (tables d) = ledger_used u k d"
  "in_flight_ids u k (tables d) = in_flight_ids u k d"
  "extra_in_flight u k (tables d) = extra_in_flight u k d"
  "open_reservations u k (tables d) = open_reservations u k d"
  "running_scans u k (tables d) = running_scans u k d"
  "quota_snapshot u k (tables d) = quota_snapshot u k d"
  by (simp_all add: ledger_rows_def ledger_used_def in_flight_ids_def extra_in_flight_def
      open_reservations_def running_scans_def quota_snapshot_def scan_rows_of_kind_def)

lemma length_filter_map_P: "length (filter P (map f xs)) = length (filter (\<lambda>x. P (f x)) xs)"
  by (simp add: filter_map o_def)

lemma length_filter_filter:
  "length (filter P (filter Q xs)) = length (filter (\<lambda>x. Q x \<and> P x) xs)"
  by simp

lemma count_queries:
  assumes "valid_kind k"
  shows "countInFlight u k = sql_query (\<lambda>d. int (length (in_flight_ids u k d)))"
    and "countInFlightWithoutLedger u k = sql_query (extra_in_flight u k)"
    and "countOpenReservations u k = sql_query (open_reservations u k)"
  using assms
  by (auto simp: valid_kind_def countInFlight_def countInFlightWithoutLedger_def
      countOpenReservations_def in_flight_ids_def extra_in_flight_def [abs_def]
      open_reservations_def [abs_def] scan_rows_of_kind_def length_filter_map_P conj_commute)

lemma ledger_query: "sql_query (\<lambda>d. int (length (ledger_rows u k d))) = sql_query (ledger_used u k)"
  by (simp add: ledger_used_def [abs_def])

lemma reads_cong: "reads m f \<Longrightarrow> (\<And>d. f d = g d) \<Longrightarrow> reads m g"
  by (simp add: reads_def)

lemma reads_load:
  assumes "valid_kind k"
  shows "reads (loadScanQuotaSnapshot u k) (quota_snapshot u k)"
  unfolding loadScanQuotaSnapshot_def count_queries [OF assms] ledger_query
  by (rule reads_cong, (rule reads_dbind, rule reads_query, simp)+, rule reads_dreturn)
    (simp add: quota_snapshot_def running_scans_def)

lemma reads_CountSuccessUsage:
  "valid_kind k \<Longrightarrow> reads (CountSuccessUsage u k) (ledger_used u k)"
  unfolding CountSuccessUsage_def ledger_query
  by (rule reads_cong, rule reads_dbind, simp, rule reads_dlift, rule reads_query, simp_all)

lemma reads_lock: "reads (lockUserKindQuota u k) (\<lambda>_. ())"
  by (rule readsI)
    (auto simp: lockUserKindQuota_def sql_exec_def next_fault_def
      split: if_splits prod.splits option.splits list.splits)

section \<open>Reservation\<close>

lemma insert_usage_tables: "tables (insert_usage e d) = tables (insert_usage e (tables d))"
  by (simp add: insert_usage_def tables_eq_iff)

lemma insert_usage_cong:
  "tables d = tables d' \<Longrightarrow> tables (insert_usage e d) = tables (insert_usage e d')"
  using insert_usage_tables by metis

lemma Record_Inr:
  assumes "RecordSuccessUsageInTx fresh now u s k d = (Inr x, d')"
  shows "valid_kind k \<and> tables d' = tables (insert_usage (usage_event fresh now u s k) d)"
proof (cases "valid_kind k")
  case True
  then obtain d0 where d0: "next_fault d = (None, d0)"
      "d' = insert_usage (usage_event fresh now u s k) d0"
    using assms
    by (auto simp: RecordSuccessUsageInTx_def dbind_def dlift_def sql_exec_def
        split: prod.splits option.splits)
  show ?thesis using insert_usage_cong [OF next_fault_tables [OF d0(1)]] d0(2) True by simp
next
  case False
  then show ?thesis using assms by (simp add: RecordSuccessUsageInTx_def dbind_def dlift_def)
qed

definition reserve_body ::
  "uuid \<Rightarrow> go_time \<Rightarrow> uuid \<Rightarrow> uuid \<Rightarrow> string \<Rightarrow> int \<Rightarrow> int \<Rightarrow> ScanUsageReservation stm" where
  "reserve_body fresh now u s k q c =
     dbind (lockUserKindQuota u k) (\<lambda>_.
     dbind (loadScanQuotaSnapshot u k) (\<lambda>snap.
       let out = reserve_decision q c snap in
       if \<not> rv_Reserved out then dreturn out
       else dbind (RecordSuccessUsageInTx fresh now u s k) (\<lambda>_. dreturn out)))"

lemma Reserve_body:
  "s \<noteq> uuid_Nil \<Longrightarrow> valid_kind k \<Longrightarrow>
     ReserveScanUsage fresh now u s k q c = db_Transaction (reserve_body fresh now u s k q c)"
  by (simp add: ReserveScanUsage_def reserve_body_def dbind_def dlift_def fun_eq_iff)

lemma reserve_body_Inr:
  assumes k: "valid_kind k" and b: "reserve_body fresh now u s k q c d = (Inr out, d')"
  shows "out = reserve_decision q c (quota_snapshot u k d)
    \<and> tables d' = tables (if rv_Reserved out then insert_usage (usage_event fresh now u s k) d else d)"
proof -
  obtain d0 snap d1 where l: "lockUserKindQuota u k d = (Inr (), d0)"
      and sn: "loadScanQuotaSnapshot u k d0 = (Inr snap, d1)"
      and rest: "(let out = reserve_decision q c snap in
       if \<not> rv_Reserved out then dreturn out
       else dbind (RecordSuccessUsageInTx fresh now u s k) (\<lambda>_. dreturn out)) d1 = (Inr out, d')"
    using b unfolding reserve_body_def by (auto dest!: dbind_Inr)
  have t: "tables d0 = tables d" "tables d1 = tables d0"
    using reads_tables [OF reads_lock l] reads_tables [OF reads_load [OF k] sn] by simp_all
  have snap: "snap = quota_snapshot u k d"
    using reads_Inr [OF reads_load [OF k] sn] t by simp
  show ?thesis
  proof (cases "rv_Reserved (reserve_decision q c snap)")
    case True
    then obtain x where "RecordSuccessUsageInTx fresh now u s k d1 = (Inr x, d')"
        "out = reserve_decision q c snap"
      using rest by (auto simp: Let_def dest!: dbind_Inr)
    then show ?thesis
      using Record_Inr insert_usage_cong [of d1 d] t snap True by fastforce
  next
    case False
    then show ?thesis using rest t snap by (auto simp: Let_def)
  qed
qed

lemma reserve_Inr:
  assumes "ReserveScanUsage fresh now u s k q c d = (Inr out, d')"
  shows "s \<noteq> uuid_Nil" and "valid_kind k" and "out = reserve_decision q c (quota_snapshot u k d)"
    and "tables d' = tables (if rv_Reserved out then insert_usage (usage_event fresh now u s k) d else d)"
proof -
  show s: "s \<noteq> uuid_Nil" using assms by (auto simp: ReserveScanUsage_def)
  show k: "valid_kind k" using assms s
    by (cases "valid_kind k") (simp_all add: ReserveScanUsage_def dbind_def dlift_def)
  obtain d0 d1 where d: "tables d0 = tables d" "tables d' = tables d1"
      and b: "reserve_body fresh now u s k q c d0 = (Inr out, d1)"
    using db_Transaction_Inr assms unfolding Reserve_body [OF s k] by metis
  have q: "quota_snapshot u k d0 = quota_snapshot u k d"
    using d(1) by (metis ledger_tables(7))
  show "out = reserve_decision q c (quota_snapshot u k d)"
    using reserve_body_Inr [OF k b] q by simp
  show "tables d' = tables (if rv_Reserved out then insert_usage (usage_event fresh now u s k) d else d)"
    using reserve_body_Inr [OF k b] insert_usage_cong [OF d(1)] d by simp
qed

lemma reserve_Inl:
  assumes "ReserveScanUsage fresh now u s k q c d = (Inl e, d')"
  shows "tables d' = tables d"
  using assms
  by (auto simp: ReserveScanUsage_def dbind_def dlift_def split: if_splits sum.splits
      dest: db_Transaction_Inl)

lemma reserve_total:
  assumes "s \<noteq> uuid_Nil" "valid_kind k" "db_faults d = []"
  shows "\<exists>d'. ReserveScanUsage fresh now u s k q c d
    = (Inr (reserve_decision q c (quota_snapshot u k d)), d') \<and> db_faults d' = []"
proof -
  let ?out = "reserve_decision q c (quota_snapshot u k d)"
  obtain d0 where l: "lockUserKindQuota u k d = (Inr (), d0)" "db_faults d0 = []" "tables d0 = tables d"
    using reads_calm [OF reads_lock assms(3)] .
  obtain d1 where sn: "loadScanQuotaSnapshot u k d0 = (Inr (quota_snapshot u k d), d1)"
      "db_faults d1 = []"
    using reads_calm [OF reads_load [OF assms(2)] l(2)] l(3) by (metis ledger_tables(7))
  have "\<exists>d2. reserve_body fresh now u s k q c d = (Inr ?out, d2) \<and> db_faults d2 = []"
    using l(1) sn assms(2)
    by (auto simp: reserve_body_def Let_def dbind_def dlift_def dreturn_def
        RecordSuccessUsageInTx_def insert_usage_def)
  then show ?thesis
    unfolding Reserve_body [OF assms(1,2)] using db_Transaction_calm [OF assms(3)] by fastforce
qed

section \<open>Limits\<close>

lemma usage_event_sel [simp]:
  "ev_UserID (usage_event f t u s k) = u" "ev_ScanID (usage_event f t u s k) = s"
  "ev_ScanKind (usage_event f t u s k) = k" "ev_ConsumedAt (usage_event f t u s k) = t"
  by (simp_all add: usage_event_def ScanUsageEvent_BeforeCreate_def)

lemma ledger_rows_insert:
  "ledger_rows u k (insert_usage e d) =
     (if ev_UserID e = u \<and> ev_ScanKind e = k \<and> ev_ScanID e \<notin> ev_ScanID ` set (usage_events d)
      then ledger_rows u k d @ [e] else ledger_rows u k d)"
  by (simp add: ledger_rows_def insert_usage_def)

lemma insert_usage_sel [simp]:
  "scan_results (insert_usage e d) = scan_results d"
  "tls_scan_results (insert_usage e d) = tls_scan_results d"
  "db_plans (insert_usage e d) = db_plans d" "db_users (insert_usage e d) = db_users d"
  "db_wallets (insert_usage e d) = db_wallets d" "db_dialect (insert_usage e d) = db_dialect d"
  "db_faults (insert_usage e d) = db_faults d" "db_locks (insert_usage e d) = db_locks d"
  by (simp_all add: insert_usage_def)

lemma insert_usage_bounds:
  "ledger_used u k (insert_usage e d) \<le> ledger_used u k d + 1"
  "extra_in_flight u k (insert_usage e d) \<le> extra_in_flight u k d"
  "running_scans u k (insert_usage e d) \<le> running_scans u k d + 1"
proof -
  show "ledger_used u k (insert_usage e d) \<le> ledger_used u k d + 1"
    by (simp add: ledger_used_def ledger_rows_insert)
  have i: "in_flight_ids u k (insert_usage e d) = in_flight_ids u k d"
    by (simp add: in_flight_ids_def)
  show "extra_in_flight u k (insert_usage e d) \<le> extra_in_flight u k d"
    unfolding extra_in_flight_def i of_nat_le_iff
    by (rule length_filter_mono) (auto simp: ledger_rows_insert)
  have "open_reservations u k (insert_usage e d) \<le> open_reservations u k d + 1"
    by (simp add: open_reservations_def ledger_rows_insert scan_rows_of_kind_def)
  then show "running_scans u k (insert_usage e d) \<le> running_scans u k d + 1"
    by (simp add: running_scans_def i)
qed

lemma decision_cases:
  "reserve_decision q c sn =
     (if q > 0 \<and> snap_ledger sn + snap_extraInFlight sn \<ge> q
      then \<lparr> rv_Reserved = False, rv_Deny = ScanUsageDenyQuota, rv_LedgerCount = snap_ledger sn,
             rv_ExtraInFlight = snap_extraInFlight sn, rv_ParallelInFlight = snap_parallel sn \<rparr>
      else if c > 0 \<and> snap_parallel sn \<ge> c
      then \<lparr> rv_Reserved = False, rv_Deny = ScanUsageDenyParallel, rv_LedgerCount = snap_ledger sn,
             rv_ExtraInFlight = snap_extraInFlight sn, rv_ParallelInFlight = snap_parallel sn \<rparr>
      else \<lparr> rv_Reserved = True, rv_Deny = ScanUsageAllowed, rv_LedgerCount = snap_ledger sn,
             rv_ExtraInFlight = snap_extraInFlight sn, rv_ParallelInFlight = snap_parallel sn \<rparr>)"
  by (auto simp: reserve_decision_def Let_def)

lemma decision_reserved:
  "rv_Reserved (reserve_decision q c sn) \<longleftrightarrow>
     \<not> (q > 0 \<and> snap_ledger sn + snap_extraInFlight sn \<ge> q) \<and> \<not> (c > 0 \<and> snap_parallel sn \<ge> c)"
  by (simp add: decision_cases)

lemma snapshot_sel [simp]:
  "snap_ledger (quota_snapshot u k d) = ledger_used u k d"
  "snap_extraInFlight (quota_snapshot u k d) = extra_in_flight u k d"
  "snap_parallel (quota_snapshot u k d) = running_scans u k d"
  by (simp_all add: quota_snapshot_def)

text \<open>The insertion that follows an allowing decision stays within both limits.\<close>

lemma reserved_within:
  assumes "rv_Reserved (reserve_decision q c (quota_snapshot u k d))"
  shows "q > 0 \<longrightarrow> ledger_used u k (insert_usage e d) + extra_in_flight u k (insert_usage e d) \<le> q"
    and "c > 0 \<longrightarrow> running_scans u k (insert_usage e d) \<le> c"
  using assms insert_usage_bounds [of u k e d] by (auto simp: decision_reserved)

section \<open>Release\<close>

definition release_usage :: "uuid \<Rightarrow> db \<Rightarrow> db" where
  "release_usage s d = d\<lparr>usage_events := filter (\<lambda>e. ev_ScanID e \<noteq> s) (usage_events d)\<rparr>"

lemma release_Inr:
  "ReleaseSuccessUsageByScanID s d = (Inr x, d') \<Longrightarrow> tables d' = tables (release_usage s d)"
  by (auto simp: ReleaseSuccessUsageByScanID_def sql_exec_def release_usage_def next_fault_def
      tables_eq_iff split: prod.splits option.splits list.splits)

lemma release_Inl: "ReleaseSuccessUsageByScanID s d = (Inl e, d') \<Longrightarrow> tables d' = tables d"
  by (auto simp: ReleaseSuccessUsageByScanID_def dest: sql_exec_Inl)

lemma release_cong: "tables d = tables d' \<Longrightarrow> tables (release_usage s d) = tables (release_usage s d')"
  by (auto simp: release_usage_def tables_eq_iff)

lemma release_insert:
  assumes "ev_ScanID e \<notin> ev_ScanID ` set (usage_events d)"
  shows "release_usage (ev_ScanID e) (insert_usage e d) = d"
proof -
  have "filter (\<lambda>x. ev_ScanID x \<noteq> ev_ScanID e) (usage_events d) = usage_events d"
    using assms by (auto simp: filter_id_conv image_iff)
  then show ?thesis using assms by (simp add: release_usage_def insert_usage_def)
qed

lemma ledger_used_release: "ledger_used u k (release_usage s d) \<le> ledger_used u k d"
  by (simp add: ledger_used_def ledger_rows_def release_usage_def)
    (metis (mono_tags, lifting) length_filter_mono)

section \<open>No new faults\<close>

lemma calm_Record [calm_intros]: "stays_calm (RecordSuccessUsageInTx fresh now u s k)"
  unfolding RecordSuccessUsageInTx_def by (intro calm_intros) simp

lemma calm_Release [calm_intros]: "stays_calm (ReleaseSuccessUsageByScanID s)"
  unfolding ReleaseSuccessUsageByScanID_def by (intro calm_intros) simp

lemma calm_Reserve [calm_intros]: "stays_calm (ReserveScanUsage fresh now u s k q c)"
proof (cases "s \<noteq> uuid_Nil \<and> valid_kind k")
  case True
  have "stays_calm (reserve_body fresh now u s k q c)"
    unfolding reserve_body_def Let_def using True
    by (intro calm_dbind calm_reads [OF reads_lock] calm_reads [OF reads_load] calm_cases calm_intros)
      simp_all
  then show ?thesis using True by (simp add: Reserve_body calm_transaction)
next
  case False
  then show ?thesis
    by (auto simp: ReserveScanUsage_def dbind_def dlift_def stays_calm_def)
qed

section \<open>The interface of the ledger\<close>

text \<open>
  \<open>ScanUsageLedgerRepository\<close> is a Go interface: the services and handlers take
  any value of it.  The record has its operations, \<open>NewScanUsageLedgerRepository\<close>
  is the implementation above, and the locale is the contract the callers rest on.
\<close>

record ScanUsageLedgerRepository =
  lr_RecordSuccessUsage :: "uuid \<Rightarrow> uuid \<Rightarrow> string \<Rightarrow> unit stm"
  lr_CountSuccessUsage :: "uuid \<Rightarrow> string \<Rightarrow> int stm"
  lr_CountInFlightScans :: "uuid \<Rightarrow> string \<Rightarrow> int stm"
  lr_CountVisibleSuccessScans :: "uuid \<Rightarrow> string \<Rightarrow> int stm"
  lr_TryAcquireSuccessSlot :: "uuid \<Rightarrow> string \<Rightarrow> int \<Rightarrow> bool stm"
  lr_ReserveScanUsage :: "uuid \<Rightarrow> uuid \<Rightarrow> string \<Rightarrow> int \<Rightarrow> int \<Rightarrow> ScanUsageReservation stm"
  lr_ReleaseSuccessUsageByScanID :: "uuid \<Rightarrow> unit stm"
  lr_ListOpenScanReservations :: "OpenScanReservation list stm"

definition NewScanUsageLedgerRepository :: "uuid \<Rightarrow> go_time \<Rightarrow> ScanUsageLedgerRepository" where
  "NewScanUsageLedgerRepository fresh now =
     \<lparr> lr_RecordSuccessUsage = RecordSuccessUsage fresh now,
       lr_CountSuccessUsage = CountSuccessUsage,
       lr_CountInFlightScans = CountInFlightScans,
       lr_CountVisibleSuccessScans = CountVisibleSuccessScans,
       lr_TryAcquireSuccessSlot = TryAcquireSuccessSlot,
       lr_ReserveScanUsage = ReserveScanUsage fresh now,
       lr_ReleaseSuccessUsageByScanID = ReleaseSuccessUsageByScanID,
       lr_ListOpenScanReservations = ListOpenScanReservations \<rparr>"

locale usage_ledger =
  fixes L :: ScanUsageLedgerRepository
  assumes reserve_fails: "lr_ReserveScanUsage L u s k q c d = (Inl e, d') \<Longrightarrow> tables d' = tables d"
    and reserve_decides: "lr_ReserveScanUsage L u s k q c d = (Inr out, d') \<Longrightarrow>
      out = reserve_decision q c (quota_snapshot u k d)"
    and reserve_denied: "lr_ReserveScanUsage L u s k q c d = (Inr out, d') \<Longrightarrow> \<not> rv_Reserved out \<Longrightarrow>
      tables d' = tables d"
    and reserve_inserts: "lr_ReserveScanUsage L u s k q c d = (Inr out, d') \<Longrightarrow> rv_Reserved out \<Longrightarrow>
      \<exists>e. ev_UserID e = u \<and> ev_ScanID e = s \<and> ev_ScanKind e = k
        \<and> tables d' = tables (insert_usage e d)"
    and release_deletes: "lr_ReleaseSuccessUsageByScanID L s d = (Inr x, d') \<Longrightarrow>
      tables d' = tables (release_usage s d)"
    and release_fails: "lr_ReleaseSuccessUsageByScanID L s d = (Inl e, d') \<Longrightarrow> tables d' = tables d"
    and count_reads: "valid_kind k \<Longrightarrow> reads (lr_CountSuccessUsage L u k) (ledger_used u k)"
begin

lemma within_limits:
  assumes "lr_ReserveScanUsage L u s k q c d = (Inr out, d')" and "rv_Reserved out"
  shows "(q > 0 \<longrightarrow> ledger_used u k d' + extra_in_flight u k d' \<le> q)
    \<and> (c > 0 \<longrightarrow> running_scans u k d' \<le> c)"
proof -
  obtain e where t: "tables d' = tables (insert_usage e d)"
    using reserve_inserts [OF assms] by blast
  have "ledger_used u k d' = ledger_used u k (insert_usage e d)"
      "extra_in_flight u k d' = extra_in_flight u k (insert_usage e d)"
      "running_scans u k d' = running_scans u k (insert_usage e d)"
    using t by (metis ledger_tables)+
  then show ?thesis
    using reserved_within [of q c u k d e] reserve_decides [OF assms(1)] assms(2) by simp
qed

lemma compensation:
  assumes "lr_ReserveScanUsage L u s k q c d = (Inr out, d')" and "rv_Reserved out"
    and "s \<notin> ev_ScanID ` set (usage_events d)"
    and "lr_ReleaseSuccessUsageByScanID L s d' = (Inr x, d'')"
  shows "tables d'' = tables d"
proof -
  obtain e where e: "ev_ScanID e = s" "tables d' = tables (insert_usage e d)"
    using reserve_inserts [OF assms(1,2)] by blast
  have "tables d'' = tables (release_usage s (insert_usage e d))"
    using release_deletes [OF assms(4)] release_cong [OF e(2)] by simp
  then show ?thesis using release_insert [of e d] e(1) assms(3) by simp
qed

end

interpretation ledger: usage_ledger "NewScanUsageLedgerRepository fresh now" for fresh now
proof
  fix u s k q c d e d'
  assume "lr_ReserveScanUsage (NewScanUsageLedgerRepository fresh now) u s k q c d = (Inl e, d')"
  then show "tables d' = tables d" by (auto simp: NewScanUsageLedgerRepository_def dest: reserve_Inl)
next
  fix u s k q c d out d'
  assume "lr_ReserveScanUsage (NewScanUsageLedgerRepository fresh now) u s k q c d = (Inr out, d')"
  then have r: "ReserveScanUsage fresh now u s k q c d = (Inr out, d')"
    by (simp add: NewScanUsageLedgerRepository_def)
  show "out = reserve_decision q c (quota_snapshot u k d)" using reserve_Inr(3) [OF r] .
  show "\<not> rv_Reserved out \<Longrightarrow> tables d' = tables d" using reserve_Inr(4) [OF r] by simp
  show "rv_Reserved out \<Longrightarrow> \<exists>e. ev_UserID e = u \<and> ev_ScanID e = s \<and> ev_ScanKind e = k
      \<and> tables d' = tables (insert_usage e d)"
    using reserve_Inr(4) [OF r] by (intro exI [of _ "usage_event fresh now u s k"]) simp
next
  fix s d x d'
  assume "lr_ReleaseSuccessUsageByScanID (NewScanUsageLedgerRepository fresh now) s d = (Inr x, d')"
  then show "tables d' = tables (release_usage s d)"
    by (auto simp: NewScanUsageLedgerRepository_def dest: release_Inr)
next
  fix s d e d'
  assume "lr_ReleaseSuccessUsageByScanID (NewScanUsageLedgerRepository fresh now) s d = (Inl e, d')"
  then show "tables d' = tables d" by (auto simp: NewScanUsageLedgerRepository_def dest: release_Inl)
next
  fix k u assume "valid_kind k"
  then show "reads (lr_CountSuccessUsage (NewScanUsageLedgerRepository fresh now) u k) (ledger_used u k)"
    by (simp add: NewScanUsageLedgerRepository_def reads_CountSuccessUsage)
qed

section \<open>Runs of the ledger\<close>

text \<open>
  Any number of calls, by any users, in any order, while the scan tables change
  in any way: \<open>lim\<close> and \<open>cap\<close> give the quota and the parallel cap each user's
  plan has for a kind.  Every call may fail at any statement.
\<close>

inductive ledger_step :: "(uuid \<Rightarrow> string \<Rightarrow> int) \<Rightarrow> (uuid \<Rightarrow> string \<Rightarrow> int) \<Rightarrow> db \<Rightarrow> db \<Rightarrow> bool"
  for lim :: "uuid \<Rightarrow> string \<Rightarrow> int" and cap :: "uuid \<Rightarrow> string \<Rightarrow> int" where
  reserve: "ReserveScanUsage fresh now u s k (lim u k) (cap u k) d = (r, d') \<Longrightarrow>
    ledger_step lim cap d d'"
| record_under_limit: "RecordSuccessUsageIfUnderLimitInTx fresh now u s k (lim u k) d = (r, d') \<Longrightarrow>
    ledger_step lim cap d d'"
| release: "ReleaseSuccessUsageByScanID s d = (r, d') \<Longrightarrow> ledger_step lim cap d d'"
| acquire: "TryAcquireSuccessSlot u k (lim u k) d = (r, d') \<Longrightarrow> ledger_step lim cap d d'"
| scans: "ledger_step lim cap d
    (d\<lparr>scan_results := srs, tls_scan_results := tss, db_faults := fs, db_locks := ls\<rparr>)"

definition ledger_empty :: "db \<Rightarrow> bool" where
  "ledger_empty d \<longleftrightarrow> usage_events d = []"

definition ledger_inv :: "(uuid \<Rightarrow> string \<Rightarrow> int) \<Rightarrow> db \<Rightarrow> bool" where
  "ledger_inv lim d \<longleftrightarrow> distinct (map ev_ScanID (usage_events d))
     \<and> (\<forall>e \<in> set (usage_events d). valid_kind (ev_ScanKind e))
     \<and> (\<forall>u k. lim u k > 0 \<longrightarrow> ledger_used u k d \<le> lim u k)"

lemma ledger_inv_cong: "tables d = tables d' \<Longrightarrow> ledger_inv lim d = ledger_inv lim d'"
  by (simp add: ledger_inv_def tables_eq_iff ledger_used_def ledger_rows_def)

lemma ledger_inv_insert:
  assumes "ledger_inv lim d" and "valid_kind (ev_ScanKind e)"
    and "lim (ev_UserID e) (ev_ScanKind e) > 0 \<longrightarrow>
      ledger_used (ev_UserID e) (ev_ScanKind e) d < lim (ev_UserID e) (ev_ScanKind e)"
  shows "ledger_inv lim (insert_usage e d)"
  unfolding ledger_inv_def
proof (intro conjI allI impI)
  show "distinct (map ev_ScanID (usage_events (insert_usage e d)))"
    "\<forall>e \<in> set (usage_events (insert_usage e d)). valid_kind (ev_ScanKind e)"
    using assms(1,2) by (auto simp: ledger_inv_def insert_usage_def)
  fix u k assume "lim u k > 0"
  then show "ledger_used u k (insert_usage e d) \<le> lim u k"
    using assms(1,3) by (auto simp: ledger_inv_def ledger_used_def ledger_rows_insert)
qed

lemma ledger_inv_release:
  assumes "ledger_inv lim d"
  shows "ledger_inv lim (release_usage s d)"
  unfolding ledger_inv_def
proof (intro conjI allI impI)
  show "distinct (map ev_ScanID (usage_events (release_usage s d)))"
    "\<forall>e \<in> set (usage_events (release_usage s d)). valid_kind (ev_ScanKind e)"
    using assms by (auto simp: ledger_inv_def release_usage_def distinct_map_filter)
  fix u k assume "lim u k > 0"
  then show "ledger_used u k (release_usage s d) \<le> lim u k"
    using assms ledger_used_release [of u k s d] by (force simp: ledger_inv_def)
qed

lemma extra_in_flight_nonneg: "0 \<le> extra_in_flight u k d"
  by (simp add: extra_in_flight_def)

lemma ledger_inv_reserve:
  assumes "ledger_inv lim d" and "ReserveScanUsage fresh now u s k (lim u k) c d = (r, d')"
  shows "ledger_inv lim d'"
proof (cases r)
  case (Inl e)
  then show ?thesis using reserve_Inl assms ledger_inv_cong [of d' d lim] by blast
next
  case (Inr out)
  note R = reserve_Inr [OF assms(2) [unfolded Inr]]
  show ?thesis
  proof (cases "rv_Reserved out")
    case True
    have "lim u k > 0 \<longrightarrow> ledger_used u k d < lim u k"
      using R(3) True extra_in_flight_nonneg [of u k d] by (auto simp: decision_reserved)
    then have "ledger_inv lim (insert_usage (usage_event fresh now u s k) d)"
      using assms(1) R(2) by (intro ledger_inv_insert) auto
    then show ?thesis using R(4) True
        ledger_inv_cong [of d' "insert_usage (usage_event fresh now u s k) d" lim] by simp
  next
    case False
    then show ?thesis using R(4) assms(1) ledger_inv_cong [of d' d lim] by simp
  qed
qed

lemma record_under_limit_Inr:
  assumes "RecordSuccessUsageIfUnderLimitInTx fresh now u s k q d = (Inr b, d')"
  shows "\<exists>e. ev_UserID e = u \<and> ev_ScanID e = s \<and> ev_ScanKind e = k \<and> valid_kind k
    \<and> tables d' = tables (if q \<le> 0 \<or> ledger_used u k d < q then insert_usage e d else d)"
proof (cases "q \<le> 0")
  case True
  then obtain x where x: "RecordSuccessUsageInTx fresh now u s k d = (Inr x, d')"
    using assms by (auto simp: RecordSuccessUsageIfUnderLimitInTx_def dest!: dbind_Inr)
  show ?thesis using Record_Inr [OF x] True
    by (intro exI [of _ "usage_event fresh now u s k"]) simp
next
  case False
  have k: "valid_kind k"
    using assms False
    by (cases "valid_kind k")
      (simp_all add: RecordSuccessUsageIfUnderLimitInTx_def dbind_def dlift_def)
  let ?e = "\<lparr> ev_ID = fresh, ev_UserID = u, ev_ScanID = s, ev_ScanKind = k, ev_ConsumedAt = now \<rparr>"
  obtain d0 where d0: "next_fault d = (None, d0)"
      "d' = (if ledger_used u k d0 < q then insert_usage ?e d0 else d0)"
    using assms False k
    by (auto simp: RecordSuccessUsageIfUnderLimitInTx_def dbind_def dlift_def sql_exec_def Let_def
        ledger_used_def split: prod.splits option.splits)
  have t: "tables d0 = tables d" by (rule next_fault_tables [OF d0(1)])
  then have "ledger_used u k d0 = ledger_used u k d" by (metis ledger_tables(2))
  then show ?thesis
    using d0(2) t insert_usage_cong [OF t] False k by (intro exI [of _ ?e]) simp
qed

lemma record_under_limit_Inl:
  "RecordSuccessUsageIfUnderLimitInTx fresh now u s k q d = (Inl e, d') \<Longrightarrow> tables d' = tables d"
  by (auto simp: RecordSuccessUsageIfUnderLimitInTx_def RecordSuccessUsageInTx_def dbind_def dlift_def
      split: if_splits sum.splits prod.splits dest: sql_exec_Inl)

lemma reads_TryAcquireInTx:
  assumes "q > 0" and "valid_kind k"
  shows "reads (TryAcquireSuccessSlotInTx u k q) (\<lambda>d. ledger_used u k d < q)"
  using assms unfolding TryAcquireSuccessSlotInTx_def ledger_query
  by simp (rule reads_cong, rule reads_dbind, rule reads_dlift, rule reads_dbind, rule reads_lock,
      rule reads_dbind, rule reads_query, simp, rule reads_dreturn, simp)

lemma TryAcquire_tables: "TryAcquireSuccessSlot u k q d = (r, d') \<Longrightarrow> tables d' = tables d"
proof (cases "q > 0 \<and> valid_kind k")
  case True
  then have "reads (TryAcquireSuccessSlot u k q) (\<lambda>d. ledger_used u k d < q)"
    by (simp add: TryAcquireSuccessSlot_def reads_TryAcquireInTx reads_db_Transaction)
  then show "TryAcquireSuccessSlot u k q d = (r, d') \<Longrightarrow> tables d' = tables d"
    by (rule reads_tables)
next
  case False
  then show "TryAcquireSuccessSlot u k q d = (r, d') \<Longrightarrow> tables d' = tables d"
    by (auto simp: TryAcquireSuccessSlot_def TryAcquireSuccessSlotInTx_def db_Transaction_def dbind_def
        dlift_def split: if_splits prod.splits option.splits dest: next_fault_tables)
      (erule next_fault_tables)
qed

lemma ledger_inv_step:
  assumes "ledger_inv lim d" and "ledger_step lim cap d d'"
  shows "ledger_inv lim d'"
  using assms(2,1)
proof (induction rule: ledger_step.induct)
  case (reserve fresh now u s k d r d')
  then show ?case using ledger_inv_reserve by blast
next
  case (record_under_limit fresh now u s k d r d')
  show ?case
  proof (cases r)
    case (Inl e)
    then show ?thesis
      using record_under_limit record_under_limit_Inl ledger_inv_cong [of d' d lim] by blast
  next
    case (Inr b)
    obtain e where e: "ev_UserID e = u" "ev_ScanID e = s" "ev_ScanKind e = k" "valid_kind k"
        "tables d' = tables (if lim u k \<le> 0 \<or> ledger_used u k d < lim u k then insert_usage e d else d)"
      using record_under_limit_Inr record_under_limit(1) Inr by blast
    have "ledger_inv lim (if lim u k \<le> 0 \<or> ledger_used u k d < lim u k then insert_usage e d else d)"
      using record_under_limit(2) e(1,3,4) by (auto intro!: ledger_inv_insert)
    then show ?thesis using ledger_inv_cong [OF e(5), of lim] by simp
  qed
next
  case (release s d r d')
  show ?case
  proof (cases r)
    case (Inl e) then show ?thesis using release release_Inl ledger_inv_cong [of d' d lim] by blast
  next
    case (Inr b)
    then have "tables d' = tables (release_usage s d)" using release release_Inr by blast
    then show ?thesis using ledger_inv_cong [of d' _ lim] ledger_inv_release [OF release(2)] by blast
  qed
next
  case (acquire u k d r d')
  then show ?case using TryAcquire_tables [OF acquire(1)] ledger_inv_cong [of d' d lim] by simp
next
  case (scans d srs tss fs ls)
  then show ?case by (simp add: ledger_inv_def ledger_used_def ledger_rows_def)
qed

interpretation ledger_runs: invariant_of ledger_empty "ledger_step lim cap" "ledger_inv lim" for lim cap
proof
  show "ledger_empty d \<Longrightarrow> ledger_inv lim d" for d
    by (auto simp: ledger_empty_def ledger_inv_def ledger_used_def ledger_rows_def)
  show "ledger_inv lim d \<Longrightarrow> ledger_step lim cap d d' \<Longrightarrow> ledger_inv lim d'" for d d'
    by (rule ledger_inv_step)
qed

section \<open>Properties\<close>

text \<open>A database with no fault ahead and no rows, and one full user, for the examples.\<close>

definition ex_db :: db where
  "ex_db = \<lparr> db_dialect = ''postgres'', usage_events = [], scan_results = [], tls_scan_results = [],
     db_plans = [], db_users = [], db_wallets = [], db_locks = [], db_faults = [] \<rparr>"

definition ex_event :: ScanUsageEventEntity where
  "ex_event = \<lparr> ev_ID = 9, ev_UserID = 1, ev_ScanID = 2, ev_ScanKind = ScanUsageKindWallet,
     ev_ConsumedAt = 5 \<rparr>"

lemmas reserve_eval =
  ReserveScanUsage_def dbind_def dlift_def dreturn_def db_Transaction_def next_fault_def
  lockUserKindQuota_def sql_exec_def sql_query_def loadScanQuotaSnapshot_def countInFlight_def
  countInFlightWithoutLedger_def countOpenReservations_def ledger_rows_def reserve_decision_def
  RecordSuccessUsageInTx_def insert_usage_def usage_event_def ScanUsageEvent_BeforeCreate_def
  valid_kind_def Let_def

lemma ex_reserve:
  "ReserveScanUsage 9 5 1 2 ScanUsageKindWallet 1 1 ex_db =
     (Inr \<lparr> rv_Reserved = True, rv_Deny = ScanUsageAllowed, rv_LedgerCount = 0,
            rv_ExtraInFlight = 0, rv_ParallelInFlight = 0 \<rparr>, ex_db\<lparr>usage_events := [ex_event]\<rparr>)"
  by (simp add: reserve_eval ex_db_def ex_event_def)

text \<open>
  C5: a reservation that the database carries out is granted exactly when the
  quota (if positive) is above the ledger rows plus the running scans without a
  row, and the parallel cap (if positive) is above the running scans.  A granted
  reservation has its ledger row, keeps the user within both limits afterwards,
  and touches no row of another user or kind; a denied one changes no table.
\<close>

theorem reserve_within_limits:
  assumes "ReserveScanUsage fresh now u s k q c d = (Inr out, d')"
  shows "(rv_Reserved out \<longleftrightarrow>
      (q \<le> 0 \<or> ledger_used u k d + extra_in_flight u k d < q) \<and> (c \<le> 0 \<or> running_scans u k d < c))
    \<and> (rv_Reserved out \<longrightarrow>
      (q > 0 \<longrightarrow> ledger_used u k d' + extra_in_flight u k d' \<le> q)
      \<and> (c > 0 \<longrightarrow> running_scans u k d' \<le> c)
      \<and> s \<in> ev_ScanID ` set (usage_events d')
      \<and> (\<forall>u' k'. (u', k') \<noteq> (u, k) \<longrightarrow> ledger_rows u' k' d' = ledger_rows u' k' d))
    \<and> (\<not> rv_Reserved out \<longrightarrow> tables d' = tables d)"
proof (intro conjI)
  note R = reserve_Inr [OF assms]
  show "rv_Reserved out \<longleftrightarrow>
      (q \<le> 0 \<or> ledger_used u k d + extra_in_flight u k d < q) \<and> (c \<le> 0 \<or> running_scans u k d < c)"
    unfolding R(3) decision_reserved by auto
  show "\<not> rv_Reserved out \<longrightarrow> tables d' = tables d" using R(4) by simp
  let ?e = "usage_event fresh now u s k"
  have L: "lr_ReserveScanUsage (NewScanUsageLedgerRepository fresh now) u s k q c d = (Inr out, d')"
    using assms by (simp add: NewScanUsageLedgerRepository_def)
  have "usage_events d' = usage_events (insert_usage ?e d)
      \<and> (\<forall>u k. ledger_rows u k d' = ledger_rows u k (insert_usage ?e d))" if "rv_Reserved out"
    using R(4) that by (metis tables_sel(1) ledger_tables(1))
  moreover have "s \<in> ev_ScanID ` set (usage_events (insert_usage ?e d))"
    by (auto simp: insert_usage_def)
  ultimately show "rv_Reserved out \<longrightarrow>
      (q > 0 \<longrightarrow> ledger_used u k d' + extra_in_flight u k d' \<le> q)
      \<and> (c > 0 \<longrightarrow> running_scans u k d' \<le> c)
      \<and> s \<in> ev_ScanID ` set (usage_events d')
      \<and> (\<forall>u' k'. (u', k') \<noteq> (u, k) \<longrightarrow> ledger_rows u' k' d' = ledger_rows u' k' d)"
    using ledger.within_limits [OF L] by (auto simp: ledger_rows_insert)
qed

theorem reserve_within_limits_witness:
  "ReserveScanUsage 9 5 1 2 ScanUsageKindWallet 1 1 ex_db =
     (Inr \<lparr> rv_Reserved = True, rv_Deny = ScanUsageAllowed, rv_LedgerCount = 0,
            rv_ExtraInFlight = 0, rv_ParallelInFlight = 0 \<rparr>, ex_db\<lparr>usage_events := [ex_event]\<rparr>)
   \<and> ledger_used 1 ScanUsageKindWallet (ex_db\<lparr>usage_events := [ex_event]\<rparr>)
     + extra_in_flight 1 ScanUsageKindWallet (ex_db\<lparr>usage_events := [ex_event]\<rparr>) \<le> 1"
  using ex_reserve reserve_within_limits [OF ex_reserve] by simp



text \<open>
  C25: a granted reservation of a scan that had no ledger row, followed by its
  release, leaves every table as it was before: the credit is returned in full
  and nothing else is touched.
\<close>

theorem reserve_release_roundtrip:
  assumes "ReserveScanUsage fresh now u s k q c d = (Inr out, d')" and "rv_Reserved out"
    and "s \<notin> ev_ScanID ` set (usage_events d)"
    and "ReleaseSuccessUsageByScanID s d' = (Inr x, d'')"
  shows "tables d'' = tables d"
  using assms ledger.compensation [where fresh = fresh and now = now, of u s k q c d out d' x d'']
  by (simp add: NewScanUsageLedgerRepository_def)

theorem reserve_release_roundtrip_witness:
  "ReleaseSuccessUsageByScanID 2 (ex_db\<lparr>usage_events := [ex_event]\<rparr>) = (Inr (), ex_db)
   \<and> tables ex_db = tables ex_db"
  using reserve_release_roundtrip [OF ex_reserve, of "()" ex_db]
  by (simp add: ReleaseSuccessUsageByScanID_def sql_exec_def next_fault_def ex_db_def ex_event_def)



lemma word_xor_cancel: "a XOR b = a XOR c \<longleftrightarrow> b = c" for a :: "'a::len word"
proof
  assume "a XOR b = a XOR c"
  then have "a XOR (a XOR b) = a XOR (a XOR c)" by simp
  then show "b = c" by (simp add: xor.assoc [symmetric])
qed simp

text \<open>
  The advisory lock separates the two kinds of one user, and its two
  32-bit keys are a function of the first eight bytes of the user's identifier:
  users who differ only beyond them wait for each other, users and kinds that
  are the same always do.
\<close>

lemma lock_key_separates_kinds:
  assumes "valid_kind k" and "valid_kind k'"
  shows "(userKindAdvisoryLockKey u k = userKindAdvisoryLockKey u k' \<longleftrightarrow> k = k')
    \<and> ((\<forall>i < 8. uuid_byte u i = uuid_byte u' i) \<longrightarrow>
      userKindAdvisoryLockKey u k = userKindAdvisoryLockKey u' k)"
proof
  show "userKindAdvisoryLockKey u k = userKindAdvisoryLockKey u k' \<longleftrightarrow> k = k'"
    using assms by (auto simp: valid_kind_def userKindAdvisoryLockKey_def Let_def word_xor_cancel)
  show "(\<forall>i < 8. uuid_byte u i = uuid_byte u' i) \<longrightarrow>
      userKindAdvisoryLockKey u k = userKindAdvisoryLockKey u' k"
    by (simp add: userKindAdvisoryLockKey_def Let_def)
qed

lemma lock_key_separates_kinds_witness:
  "userKindAdvisoryLockKey 7 ScanUsageKindWallet \<noteq> userKindAdvisoryLockKey 7 ScanUsageKindEndpoint"
  using lock_key_separates_kinds [of ScanUsageKindWallet ScanUsageKindEndpoint 7]
  by (simp add: valid_kind_def)

end
