(* ===== verification/Ledger_Concurrency.thy ===== *)
theory Ledger_Concurrency
  imports Scan_Ledger
begin

text \<open>
  Reservations of several requests at the same time.  On Postgres the statements
  of the transaction in \<open>ReserveScanUsage\<close> interleave with those of other
  transactions: each statement reads what is committed at that moment, the
  insertion becomes visible at the commit, and the advisory lock taken first is
  held until the transaction ends.  A transaction is a state machine over those
  statements; a step of the system is one statement of one transaction, a
  release, or any change of the scan tables.
\<close>

section \<open>Transactions as state machines\<close>

record reserve_call =
  rc_fresh :: uuid
  rc_now :: go_time
  rc_user :: uuid
  rc_scan :: uuid
  rc_kind :: string

datatype tx =
    Idle
  | Locked reserve_call
  | Counted reserve_call int
  | CountedInFlight reserve_call int int
  | CountedExtra reserve_call int int int
  | Decided reserve_call ScanUsageReservation
  | Inserted reserve_call

record system =
  sys_db :: db
  sys_lock :: "32 word \<times> 32 word \<Rightarrow> nat option"
  sys_tx :: "nat \<Rightarrow> tx"

definition call_key :: "reserve_call \<Rightarrow> 32 word \<times> 32 word" where
  "call_key c = userKindAdvisoryLockKey (rc_user c) (rc_kind c)"

definition call_event :: "reserve_call \<Rightarrow> ScanUsageEventEntity" where
  "call_event c = usage_event (rc_fresh c) (rc_now c) (rc_user c) (rc_scan c) (rc_kind c)"

fun tx_call :: "tx \<Rightarrow> reserve_call option" where
  "tx_call Idle = None"
| "tx_call (Locked c) = Some c"
| "tx_call (Counted c l) = Some c"
| "tx_call (CountedInFlight c l i) = Some c"
| "tx_call (CountedExtra c l i x) = Some c"
| "tx_call (Decided c out) = Some c"
| "tx_call (Inserted c) = Some c"

definition set_tx :: "nat \<Rightarrow> tx \<Rightarrow> system \<Rightarrow> system" where
  "set_tx t x s = s\<lparr>sys_tx := (sys_tx s)(t := x)\<rparr>"

text \<open>The end of a transaction: the transaction-level advisory lock is released.\<close>

definition end_tx :: "nat \<Rightarrow> reserve_call \<Rightarrow> system \<Rightarrow> system" where
  "end_tx t c s = s\<lparr>sys_tx := (sys_tx s)(t := Idle), sys_lock := (sys_lock s)(call_key c := None)\<rparr>"

inductive sys_step :: "(uuid \<Rightarrow> string \<Rightarrow> int) \<Rightarrow> (uuid \<Rightarrow> string \<Rightarrow> int) \<Rightarrow> system \<Rightarrow> system \<Rightarrow> bool"
  for lim :: "uuid \<Rightarrow> string \<Rightarrow> int" and cap :: "uuid \<Rightarrow> string \<Rightarrow> int" where
  lock: "sys_tx s t = Idle \<Longrightarrow> rc_scan c \<noteq> uuid_Nil \<Longrightarrow> valid_kind (rc_kind c) \<Longrightarrow>
    sys_lock s (call_key c) = None \<Longrightarrow>
    sys_step lim cap s (set_tx t (Locked c) (s\<lparr>sys_lock := (sys_lock s)(call_key c \<mapsto> t)\<rparr>))"
| count: "sys_tx s t = Locked c \<Longrightarrow>
    sys_step lim cap s (set_tx t (Counted c (ledger_used (rc_user c) (rc_kind c) (sys_db s))) s)"
| count_in_flight: "sys_tx s t = Counted c l \<Longrightarrow>
    sys_step lim cap s
      (set_tx t (CountedInFlight c l (int (length (in_flight_ids (rc_user c) (rc_kind c) (sys_db s))))) s)"
| count_extra: "sys_tx s t = CountedInFlight c l i \<Longrightarrow>
    sys_step lim cap s
      (set_tx t (CountedExtra c l i (extra_in_flight (rc_user c) (rc_kind c) (sys_db s))) s)"
| count_open: "sys_tx s t = CountedExtra c l i x \<Longrightarrow>
    sys_step lim cap s
      (set_tx t (Decided c (reserve_decision (lim (rc_user c) (rc_kind c)) (cap (rc_user c) (rc_kind c))
         \<lparr> snap_ledger = l, snap_extraInFlight = x,
           snap_parallel = i + open_reservations (rc_user c) (rc_kind c) (sys_db s) \<rparr>)) s)"
| insert_row: "sys_tx s t = Decided c out \<Longrightarrow> rv_Reserved out \<Longrightarrow>
    sys_step lim cap s (set_tx t (Inserted c) s)"
| commit: "sys_tx s t = Inserted c \<Longrightarrow>
    sys_step lim cap s (end_tx t c (s\<lparr>sys_db := insert_usage (call_event c) (sys_db s)\<rparr>))"
| commit_denied: "sys_tx s t = Decided c out \<Longrightarrow> \<not> rv_Reserved out \<Longrightarrow>
    sys_step lim cap s (end_tx t c s)"
| rollback: "tx_call (sys_tx s t) = Some c \<Longrightarrow> sys_step lim cap s (end_tx t c s)"
| release: "sys_step lim cap s (s\<lparr>sys_db := release_usage i (sys_db s)\<rparr>)"
| scans: "sys_step lim cap s
    (s\<lparr>sys_db := (sys_db s)\<lparr>scan_results := srs, tls_scan_results := tss\<rparr>\<rparr>)"

definition sys_init :: "system \<Rightarrow> bool" where
  "sys_init s \<longleftrightarrow> usage_events (sys_db s) = [] \<and> (\<forall>k. sys_lock s k = None) \<and> (\<forall>t. sys_tx s t = Idle)"

section \<open>Invariant\<close>

text \<open>What a transaction knows of its user's ledger, given that no other one can add to it.\<close>

fun tx_knows :: "(uuid \<Rightarrow> string \<Rightarrow> int) \<Rightarrow> db \<Rightarrow> tx \<Rightarrow> bool" where
  "tx_knows lim d Idle = True"
| "tx_knows lim d (Locked c) = True"
| "tx_knows lim d (Counted c l) = (ledger_used (rc_user c) (rc_kind c) d \<le> l)"
| "tx_knows lim d (CountedInFlight c l i) = (ledger_used (rc_user c) (rc_kind c) d \<le> l)"
| "tx_knows lim d (CountedExtra c l i x) = (ledger_used (rc_user c) (rc_kind c) d \<le> l \<and> 0 \<le> x)"
| "tx_knows lim d (Decided c out) =
     (rv_Reserved out \<longrightarrow> lim (rc_user c) (rc_kind c) > 0 \<longrightarrow>
        ledger_used (rc_user c) (rc_kind c) d < lim (rc_user c) (rc_kind c))"
| "tx_knows lim d (Inserted c) =
     (lim (rc_user c) (rc_kind c) > 0 \<longrightarrow>
        ledger_used (rc_user c) (rc_kind c) d < lim (rc_user c) (rc_kind c))"

definition sys_inv :: "(uuid \<Rightarrow> string \<Rightarrow> int) \<Rightarrow> system \<Rightarrow> bool" where
  "sys_inv lim s \<longleftrightarrow> ledger_inv lim (sys_db s)
     \<and> (\<forall>t c. tx_call (sys_tx s t) = Some c \<longrightarrow>
          sys_lock s (call_key c) = Some t \<and> valid_kind (rc_kind c))
     \<and> (\<forall>t. tx_knows lim (sys_db s) (sys_tx s t))"

lemma tx_knows_mono:
  assumes "tx_knows lim d x"
    and "\<And>c. tx_call x = Some c \<Longrightarrow>
      ledger_used (rc_user c) (rc_kind c) d' \<le> ledger_used (rc_user c) (rc_kind c) d"
  shows "tx_knows lim d' x"
  using assms by (cases x) force+

lemma set_tx_sel [simp]:
  "sys_db (set_tx t x s) = sys_db s" "sys_lock (set_tx t x s) = sys_lock s"
  "sys_tx (set_tx t x s) = (sys_tx s)(t := x)"
  by (simp_all add: set_tx_def)

lemma end_tx_sel [simp]:
  "sys_db (end_tx t c s) = sys_db s" "sys_lock (end_tx t c s) = (sys_lock s)(call_key c := None)"
  "sys_tx (end_tx t c s) = (sys_tx s)(t := Idle)"
  by (simp_all add: end_tx_def)

lemma sys_invD:
  assumes "sys_inv lim s"
  shows "ledger_inv lim (sys_db s)"
    and "tx_call (sys_tx s t) = Some c \<Longrightarrow> sys_lock s (call_key c) = Some t"
    and "tx_call (sys_tx s t) = Some c \<Longrightarrow> valid_kind (rc_kind c)"
    and "tx_knows lim (sys_db s) (sys_tx s t)"
  using assms by (auto simp: sys_inv_def)

text \<open>A statement of transaction \<open>t\<close> that only changes what it knows.\<close>

lemma sys_inv_set_tx:
  assumes "sys_inv lim s" and "tx_call (sys_tx s t) = Some c" and "tx_call x = Some c"
    and "tx_knows lim (sys_db s) x"
  shows "sys_inv lim (set_tx t x s)"
  using assms sys_invD [OF assms(1)] by (auto simp: sys_inv_def)

lemma sys_inv_end_tx:
  assumes "sys_inv lim s" and "tx_call (sys_tx s t) = Some c"
  shows "sys_inv lim (end_tx t c s)"
proof -
  have "call_key c' \<noteq> call_key c" if "tx_call (sys_tx s t') = Some c'" "t' \<noteq> t" for t' c'
    using sys_invD(2) [OF assms(1) that(1)] sys_invD(2) [OF assms] that(2) by auto
  then show ?thesis using sys_invD [OF assms(1)] by (auto simp: sys_inv_def)
qed

text \<open>A change of the database that no transaction other than \<open>t\<close> can notice as a new row.\<close>

lemma sys_inv_db:
  assumes "sys_inv lim s" and "ledger_inv lim d'"
    and "\<And>t c. tx_call (sys_tx s t) = Some c \<Longrightarrow>
      ledger_used (rc_user c) (rc_kind c) d' \<le> ledger_used (rc_user c) (rc_kind c) (sys_db s)"
  shows "sys_inv lim (s\<lparr>sys_db := d'\<rparr>)"
  using assms(2,3) sys_invD(2,3) [OF assms(1)] tx_knows_mono [OF sys_invD(4) [OF assms(1)]]
  by (simp add: sys_inv_def)

lemma ledger_used_other:
  "(u, k) \<noteq> (ev_UserID e, ev_ScanKind e) \<Longrightarrow> ledger_used u k (insert_usage e d) = ledger_used u k d"
  by (auto simp: ledger_used_def ledger_rows_insert)

lemma call_event_sel [simp]:
  "ev_UserID (call_event c) = rc_user c" "ev_ScanKind (call_event c) = rc_kind c"
  by (simp_all add: call_event_def)

lemma sys_inv_commit:
  assumes inv: "sys_inv lim s" and t: "sys_tx s t = Inserted c"
  shows "sys_inv lim (end_tx t c (s\<lparr>sys_db := insert_usage (call_event c) (sys_db s)\<rparr>))"
proof -
  let ?d = "insert_usage (call_event c) (sys_db s)" and ?s = "end_tx t c s"
  have c: "tx_call (sys_tx s t) = Some c" using t by simp
  have led: "ledger_inv lim ?d"
    using sys_invD(1) [OF inv] sys_invD(3) [OF inv c] sys_invD(4) [OF inv, of t] t
    by (intro ledger_inv_insert) simp_all
  have "ledger_used (rc_user c') (rc_kind c') ?d \<le> ledger_used (rc_user c') (rc_kind c') (sys_db ?s)"
    if "tx_call (sys_tx ?s t') = Some c'" for t' c'
  proof -
    have t': "t' \<noteq> t" "tx_call (sys_tx s t') = Some c'" using that by (auto split: if_splits)
    have "call_key c' \<noteq> call_key c"
      using sys_invD(2) [OF inv t'(2)] sys_invD(2) [OF inv c] t'(1) by auto
    then have "(rc_user c', rc_kind c') \<noteq> (ev_UserID (call_event c), ev_ScanKind (call_event c))"
      by (auto simp: call_key_def)
    then show ?thesis by (simp add: ledger_used_other)
  qed
  then have "sys_inv lim (?s\<lparr>sys_db := ?d\<rparr>)"
    by (rule sys_inv_db [OF sys_inv_end_tx [OF inv c] led])
  moreover have "?s\<lparr>sys_db := ?d\<rparr> = end_tx t c (s\<lparr>sys_db := ?d\<rparr>)"
    by (cases s) (simp add: end_tx_def)
  ultimately show ?thesis by simp
qed

lemma sys_inv_step:
  assumes "sys_step lim cap s s'" and "sys_inv lim s"
  shows "sys_inv lim s'"
  using assms
proof (induction rule: sys_step.induct)
  case (lock s t c)
  have "call_key c' \<noteq> call_key c" if "tx_call (sys_tx s t') = Some c'" for t' c'
    using sys_invD(2) [OF lock(5) that] lock(4) by auto
  then show ?case using lock sys_invD [OF lock(5)] by (auto simp: sys_inv_def)
next
  case (count s t c)
  then show ?case by (intro sys_inv_set_tx [where c = c]) simp_all
next
  case (count_in_flight s t c l)
  then show ?case using sys_invD(4) [OF count_in_flight(2), of t]
    by (intro sys_inv_set_tx [where c = c]) simp_all
next
  case (count_extra s t c l i)
  then show ?case using sys_invD(4) [OF count_extra(2), of t]
    by (intro sys_inv_set_tx [where c = c]) (simp_all add: extra_in_flight_nonneg)
next
  case (count_open s t c l i x)
  then show ?case using sys_invD(4) [OF count_open(2), of t]
    by (intro sys_inv_set_tx [where c = c]) (auto simp: decision_reserved)
next
  case (insert_row s t c out)
  then show ?case using sys_invD(4) [OF insert_row(3), of t]
    by (intro sys_inv_set_tx [where c = c]) simp_all
next
  case (commit s t c)
  then show ?case by (intro sys_inv_commit) simp_all
next
  case (commit_denied s t c out)
  then show ?case by (intro sys_inv_end_tx) simp_all
next
  case (rollback s t c)
  then show ?case by (intro sys_inv_end_tx) simp_all
next
  case (release s i)
  then show ?case
    by (intro sys_inv_db) (simp_all add: sys_invD ledger_inv_release ledger_used_release)
next
  case (scans s tss srs)
  have "ledger_inv lim (sys_db s)" using scans by (rule sys_invD)
  then have "ledger_inv lim ((sys_db s)\<lparr>scan_results := srs, tls_scan_results := tss\<rparr>)"
    by (simp add: ledger_inv_def ledger_used_def ledger_rows_def)
  then show ?case using scans
    by (intro sys_inv_db) (simp_all add: ledger_used_def ledger_rows_def)
qed

interpretation reservations: invariant_of sys_init "sys_step lim cap" "sys_inv lim" for lim cap
proof
  show "sys_init s \<Longrightarrow> sys_inv lim s" for s
    by (auto simp: sys_init_def sys_inv_def ledger_inv_def ledger_used_def ledger_rows_def)
  show "sys_inv lim s \<Longrightarrow> sys_step lim cap s s' \<Longrightarrow> sys_inv lim s'" for s s'
    by (rule sys_inv_step)
qed

section \<open>A transaction that runs alone is \<open>ReserveScanUsage\<close>\<close>

text \<open>
  The machine has the statements of the code: run without interruption, its
  steps lead from the start to the end of the transaction with the database
  that \<open>ReserveScanUsage\<close> leaves.
\<close>

definition after_reserve :: "(uuid \<Rightarrow> string \<Rightarrow> int) \<Rightarrow> (uuid \<Rightarrow> string \<Rightarrow> int) \<Rightarrow> reserve_call \<Rightarrow> db \<Rightarrow> db" where
  "after_reserve lim cap c d =
     (if rv_Reserved (reserve_decision (lim (rc_user c) (rc_kind c)) (cap (rc_user c) (rc_kind c))
           (quota_snapshot (rc_user c) (rc_kind c) d))
      then insert_usage (call_event c) d else d)"

lemma set_tx_twice [simp]: "set_tx t y (set_tx t x s) = set_tx t y s"
  by (simp add: set_tx_def)

lemma end_set_tx:
  "end_tx t c (set_tx t x s) = end_tx t c s"
  "end_tx t c ((set_tx t x s)\<lparr>sys_db := d\<rparr>) = end_tx t c (s\<lparr>sys_db := d\<rparr>)"
  by (cases s; simp add: set_tx_def end_tx_def)+

lemma end_tx_unlock:
  assumes "sys_tx s t = Idle" "sys_lock s (call_key c) = None"
  shows "end_tx t c (s\<lparr>sys_lock := (sys_lock s)(call_key c \<mapsto> i), sys_db := d\<rparr>) = s\<lparr>sys_db := d\<rparr>"
proof -
  have "(sys_tx s)(t := Idle) = sys_tx s" "(sys_lock s)(call_key c := None) = sys_lock s"
    using assms by (auto simp: fun_eq_iff)
  then show ?thesis by (cases s) (simp add: end_tx_def)
qed

lemma solo_decides:
  assumes "sys_tx s t = Idle" "rc_scan c \<noteq> uuid_Nil" "valid_kind (rc_kind c)"
    "sys_lock s (call_key c) = None"
  shows "(sys_step lim cap)\<^sup>*\<^sup>* s
    (set_tx t (Decided c (reserve_decision (lim (rc_user c) (rc_kind c)) (cap (rc_user c) (rc_kind c))
       (quota_snapshot (rc_user c) (rc_kind c) (sys_db s))))
     (s\<lparr>sys_lock := (sys_lock s)(call_key c \<mapsto> t)\<rparr>))" (is "?R s (set_tx t (Decided c ?out) ?s)")
proof -
  note st = rtranclp.rtrancl_into_rtrancl [where r = "sys_step lim cap"]
  have "?R s (set_tx t (Locked c) ?s)"
    by (rule r_into_rtranclp, rule sys_step.lock) (use assms in simp_all)
  then have "?R s (set_tx t (Counted c (ledger_used (rc_user c) (rc_kind c) (sys_db s))) ?s)"
    by (rule st) (use sys_step.count [of "set_tx t (Locked c) ?s" t c] in simp)
  then have "?R s (set_tx t (CountedInFlight c (ledger_used (rc_user c) (rc_kind c) (sys_db s))
      (int (length (in_flight_ids (rc_user c) (rc_kind c) (sys_db s))))) ?s)"
    by (rule st) (use sys_step.count_in_flight
      [of "set_tx t (Counted c (ledger_used (rc_user c) (rc_kind c) (sys_db s))) ?s" t c] in simp)
  then have "?R s (set_tx t (CountedExtra c (ledger_used (rc_user c) (rc_kind c) (sys_db s))
      (int (length (in_flight_ids (rc_user c) (rc_kind c) (sys_db s))))
      (extra_in_flight (rc_user c) (rc_kind c) (sys_db s))) ?s)"
    by (rule st) (use sys_step.count_extra
      [of "set_tx t (CountedInFlight c (ledger_used (rc_user c) (rc_kind c) (sys_db s))
      (int (length (in_flight_ids (rc_user c) (rc_kind c) (sys_db s))))) ?s" t c] in simp)
  then show ?thesis
    by (rule st) (use sys_step.count_open
      [of "set_tx t (CountedExtra c (ledger_used (rc_user c) (rc_kind c) (sys_db s))
      (int (length (in_flight_ids (rc_user c) (rc_kind c) (sys_db s))))
      (extra_in_flight (rc_user c) (rc_kind c) (sys_db s))) ?s" t c]
      in \<open>simp add: quota_snapshot_def running_scans_def\<close>)
qed

lemma solo_run:
  assumes "sys_tx s t = Idle" "rc_scan c \<noteq> uuid_Nil" "valid_kind (rc_kind c)"
    "sys_lock s (call_key c) = None"
  shows "(sys_step lim cap)\<^sup>*\<^sup>* s (s\<lparr>sys_db := after_reserve lim cap c (sys_db s)\<rparr>)"
proof -
  let ?out = "reserve_decision (lim (rc_user c) (rc_kind c)) (cap (rc_user c) (rc_kind c))
       (quota_snapshot (rc_user c) (rc_kind c) (sys_db s))"
    and ?s = "s\<lparr>sys_lock := (sys_lock s)(call_key c \<mapsto> t)\<rparr>"
  note st = rtranclp.rtrancl_into_rtrancl [where r = "sys_step lim cap"]
  note dec = solo_decides [OF assms, of lim cap]
  show ?thesis
  proof (cases "rv_Reserved ?out")
    case True
    have "(sys_step lim cap)\<^sup>*\<^sup>* s (set_tx t (Inserted c) ?s)"
      using st [OF dec sys_step.insert_row [of _ t c ?out]] True by simp
    then have "(sys_step lim cap)\<^sup>*\<^sup>* s
        (end_tx t c ((set_tx t (Inserted c) ?s)\<lparr>sys_db := insert_usage (call_event c) (sys_db s)\<rparr>))"
      by (rule st) (use sys_step.commit [of "set_tx t (Inserted c) ?s" t c] in simp)
    then show ?thesis
      using True end_tx_unlock [OF assms(1,4), where i = t and d = "insert_usage (call_event c) (sys_db s)"] by (simp add: end_set_tx after_reserve_def)
  next
    case False
    have "(sys_step lim cap)\<^sup>*\<^sup>* s (end_tx t c (set_tx t (Decided c ?out) ?s))"
      using st [OF dec sys_step.commit_denied [of _ t c ?out]] False by simp
    then show ?thesis
      using False end_tx_unlock [OF assms(1,4), where i = t and d = "sys_db s"]
      by (simp add: end_set_tx after_reserve_def)
  qed
qed

section \<open>Properties\<close>


definition ex_sys :: system where
  "ex_sys = \<lparr> sys_db = ex_db, sys_lock = (\<lambda>_. None), sys_tx = (\<lambda>_. Idle) \<rparr>"

definition ex_call :: reserve_call where
  "ex_call = \<lparr> rc_fresh = 9, rc_now = 5, rc_user = 1, rc_scan = 2, rc_kind = ScanUsageKindWallet \<rparr>"

lemma ex_sys_locked:
  "reachable sys_init (sys_step (\<lambda>_ _. 1) (\<lambda>_ _. 1))
     (set_tx 0 (Locked ex_call) (ex_sys\<lparr>sys_lock := (sys_lock ex_sys)(call_key ex_call \<mapsto> 0)\<rparr>))"
proof (rule reachable.move)
  show "reachable sys_init (sys_step (\<lambda>_ _. 1) (\<lambda>_ _. 1)) ex_sys"
    by (rule reachable.start) (simp add: sys_init_def ex_sys_def ex_db_def)
  show "sys_step (\<lambda>_ _. 1) (\<lambda>_ _. 1) ex_sys
     (set_tx 0 (Locked ex_call) (ex_sys\<lparr>sys_lock := (sys_lock ex_sys)(call_key ex_call \<mapsto> 0)\<rparr>))"
    by (rule sys_step.lock) (simp_all add: ex_sys_def ex_call_def valid_kind_def)
qed




end
