(* ===== verification/Address.thy ===== *)
theory Address
  imports Go_Strings
begin

text \<open>
  The package \<open>src/internal/address\<close>: validation and canonical form of an
  Ethereum address.
\<close>

section \<open>Definitions\<close>

definition is_hex :: "char \<Rightarrow> bool" where
  "is_hex c \<longleftrightarrow> (48 \<le> byte c \<and> byte c \<le> 57) \<or> (97 \<le> byte c \<and> byte c \<le> 102)
     \<or> (65 \<le> byte c \<and> byte c \<le> 70)"

definition normalizeAddress :: "string \<Rightarrow> string" where
  "normalizeAddress address =
     (let a = TrimSpace address;
          a = (if HasPrefix a ''0X'' then ''0x'' @ drop 2 a else a);
          a = (if \<not> HasPrefix a ''0x'' then ''0x'' @ a else a)
      in ToLower a)"

definition isValidAddress :: "string \<Rightarrow> bool" where
  "isValidAddress address \<longleftrightarrow>
     \<not> (length address \<noteq> 42 \<or> \<not> HasPrefix address ''0x'')
     \<and> list_all is_hex (drop 2 address)"

definition ValidateAndNormalizeAddress :: "string \<Rightarrow> string result" where
  "ValidateAndNormalizeAddress address =
     (let normalized = normalizeAddress address in
      if \<not> isValidAddress normalized
      then Inl (ErrNew (''invalid Ethereum address: '' @ address))
      else Inr normalized)"

text \<open>The reference: the hexadecimal digits of an address, whatever its spelling.\<close>

definition address_digits :: "string \<Rightarrow> string" where
  "address_digits address =
     (let t = TrimSpace address in
      if HasPrefix t ''0x'' \<or> HasPrefix t ''0X'' then drop 2 t else t)"

section \<open>Lemmas\<close>

lemma is_hex_lower [simp]: "is_hex (lower_char c) = is_hex c"
  using byte_lt [of c] by (auto simp: is_hex_def lower_char_def)

lemma is_hex_plain: "is_hex c \<Longrightarrow> plain_char c"
  by (auto simp: is_hex_def plain_char_def)

lemma lower_0x [simp]: "lower_char CHR ''0'' = CHR ''0''" "lower_char CHR ''x'' = CHR ''x''"
  by (simp_all add: lower_char_def byte_def)

lemma HasPrefix_0x_Cons: "HasPrefix (CHR ''0'' # CHR ''x'' # s) ''0x''"
  by (simp add: HasPrefix_def)

lemma HasPrefix_split: "HasPrefix s p \<Longrightarrow> s = p @ drop (length p) s"
  unfolding HasPrefix_def by (metis append_take_drop_id)

lemma normalizeAddress_digits:
  "normalizeAddress a = ''0x'' @ ToLower (address_digits a)"
proof -
  define t where "t = TrimSpace a"
  consider (lower) "HasPrefix t ''0x''" | (upper) "HasPrefix t ''0X''" "\<not> HasPrefix t ''0x''"
    | (none) "\<not> HasPrefix t ''0x''" "\<not> HasPrefix t ''0X''" by blast
  then show ?thesis
  proof cases
    case lower
    from HasPrefix_split [OF lower] obtain d where "t = ''0x'' @ d" by blast
    then show ?thesis
      unfolding normalizeAddress_def address_digits_def Let_def t_def [symmetric]
      by (simp add: ToLower_def HasPrefix_def)
  next
    case upper
    then show ?thesis
      unfolding normalizeAddress_def address_digits_def Let_def t_def [symmetric]
      by (simp add: ToLower_def HasPrefix_0x_Cons)
  next
    case none
    then show ?thesis
      unfolding normalizeAddress_def address_digits_def Let_def t_def [symmetric]
      by (simp add: ToLower_def)
  qed
qed

lemma isValidAddress_0x:
  "isValidAddress (''0x'' @ d) \<longleftrightarrow> length d = 40 \<and> list_all is_hex d"
  by (auto simp: isValidAddress_def HasPrefix_def)

lemma list_all_hex_lower [simp]: "list_all is_hex (ToLower d) = list_all is_hex d"
  by (simp add: ToLower_def list_all_iff)

lemma address_digits_canonical:
  assumes "length d = 40" "list_all is_hex d"
  shows "address_digits (''0x'' @ d) = d"
proof -
  have ne: "d \<noteq> []" using assms by auto
  with assms have "is_hex (last d)" by (auto simp: list_all_iff)
  then have "plain_char (last (''0x'' @ d))" using ne is_hex_plain by simp
  then have "TrimSpace (''0x'' @ d) = ''0x'' @ d"
    using TrimSpace_plain [of "''0x'' @ d"] by (simp add: plain_char_def byte_def)
  then show ?thesis by (simp add: address_digits_def Let_def HasPrefix_0x_Cons)
qed

text \<open>
  C38: validation is exact. An input is accepted precisely when, after trimming
  and dropping an optional \<open>0x\<close> or \<open>0X\<close>, forty hexadecimal digits are left; the
  result is \<open>0x\<close> followed by these digits in lower case; every other input gives
  the error that quotes it.
\<close>

theorem ValidateAndNormalizeAddress_exact:
  "ValidateAndNormalizeAddress a =
     (if length (address_digits a) = 40 \<and> list_all is_hex (address_digits a)
      then Inr (''0x'' @ ToLower (address_digits a))
      else Inl (ErrNew (''invalid Ethereum address: '' @ a)))"
  unfolding ValidateAndNormalizeAddress_def Let_def normalizeAddress_digits isValidAddress_0x
  by simp

lemma Validate_cases:
  "ValidateAndNormalizeAddress a = Inr n \<longleftrightarrow>
     length (address_digits a) = 40 \<and> list_all is_hex (address_digits a)
     \<and> n = ''0x'' @ ToLower (address_digits a)"
  unfolding ValidateAndNormalizeAddress_def Let_def normalizeAddress_digits isValidAddress_0x
  by auto

lemma Validate_canonical:
  assumes "length d = 40" "list_all is_hex d"
  shows "ValidateAndNormalizeAddress (''0x'' @ d) = Inr (''0x'' @ ToLower d)"
  using assms unfolding Validate_cases by (simp only: address_digits_canonical [OF assms])

lemma Validate_idem:
  assumes "ValidateAndNormalizeAddress a = Inr n"
  shows "ValidateAndNormalizeAddress n = Inr n"
  using assms Validate_canonical [of "ToLower (address_digits a)"] by (simp add: Validate_cases)

text \<open>
  The result is a canonical form. It validates to itself, it is unchanged by
  lower-casing, and two accepted inputs get the same result exactly when their
  digits agree up to letter case.
\<close>

lemma address_canonical_form:
  assumes "ValidateAndNormalizeAddress a = Inr n" "ValidateAndNormalizeAddress b = Inr m"
  shows "ValidateAndNormalizeAddress n = Inr n \<and> ToLower n = n \<and> length n = 42
    \<and> (n = m \<longleftrightarrow> EqualFold (address_digits a) (address_digits b))"
proof -
  from assms(1) have n: "n = ''0x'' @ ToLower (address_digits a)"
    and l: "length (address_digits a) = 40" "list_all is_hex (address_digits a)"
    by (simp_all add: Validate_cases)
  from assms(2) have m: "m = ''0x'' @ ToLower (address_digits b)" by (simp add: Validate_cases)
  have "ValidateAndNormalizeAddress n = Inr n" by (rule Validate_idem [OF assms(1)])
  moreover have "ToLower n = n" unfolding n by (simp add: ToLower_def)
  ultimately show ?thesis using l by (simp add: n m EqualFold_def)
qed

lemma address_canonical_form_witness:
  "ValidateAndNormalizeAddress (''0x'' @ replicate 40 CHR ''A'') = Inr (''0x'' @ replicate 40 CHR ''a'')
   \<and> ValidateAndNormalizeAddress (''0x'' @ replicate 40 CHR ''a'') = Inr (''0x'' @ replicate 40 CHR ''a'')"
proof -
  have l: "lower_char CHR ''A'' = CHR ''a''" by code_simp
  have h: "is_hex CHR ''A''" by (simp add: is_hex_def byte_def)
  have v: "ValidateAndNormalizeAddress (''0x'' @ replicate 40 CHR ''A'')
      = Inr (''0x'' @ replicate 40 CHR ''a'')"
    using Validate_canonical [of "replicate 40 CHR ''A''"] h
    by (simp only: ToLower_def map_replicate l length_replicate list_all_length nth_replicate) simp
  show ?thesis using v address_canonical_form [OF v v] by blast
qed

end
