(* ===== verification/Wallet_Lifecycle.thy ===== *)
theory Wallet_Lifecycle
  imports Scan_State Address
begin

text \<open>
  The wallet lifecycle consumer: \<open>src/internal/service/wallet_command.go\<close> maps a
  lifecycle event to a transition command, and
  \<open>src/internal/service/wallet_lifecycle.go\<close> settles one JetStream delivery by
  posting the command at most twice and acknowledging, terminating or delaying
  the message.  The event contract (subjects and decoders), \<open>uuid\<close>, the JSON
  encoder and the answers of the persistence service are parameters.  Log lines
  are not modelled.
\<close>

section \<open>Events\<close>

record Started =
  st_Kind :: string
  st_ScanID :: string
  st_UserID :: string
  st_Address :: string

record Completed =
  cp_Kind :: string
  cp_ScanID :: string
  cp_UserID :: string
  cp_Address :: string
  cp_Result :: string

record Failed =
  fl_Kind :: string
  fl_ScanID :: string
  fl_UserID :: string
  fl_Address :: string
  fl_Error :: string
  fl_CompletedAt :: string

text \<open>The package \<open>scanlifecycle/v1\<close> of the contracts module.\<close>

record lifecycle_pkg =
  SubjectScanStarted :: string
  SubjectScanCompleted :: string
  SubjectScanFailed :: string
  DecodeStarted :: "string \<Rightarrow> Started result"
  DecodeCompleted :: "string \<Rightarrow> Completed result"
  DecodeFailed :: "string \<Rightarrow> Failed result"

section \<open>Commands\<close>

definition walletQuotaNone :: string where "walletQuotaNone = ''none''"
definition walletQuotaKeep :: string where "walletQuotaKeep = ''keep''"
definition walletQuotaRelease :: string where "walletQuotaRelease = ''release''"

lemmas wallet_quota_consts [go_consts] =
  walletQuotaNone_def walletQuotaKeep_def walletQuotaRelease_def

definition ErrInvalidWalletEvent :: goerr where
  "ErrInvalidWalletEvent = ErrNew ''invalid wallet lifecycle event''"

definition ErrNotWalletEvent :: goerr where
  "ErrNotWalletEvent = ErrNew ''lifecycle event is not wallet''"

record walletCommand =
  wc_ScanID :: uuid
  wc_TransitionID :: string
  wc_UserID :: uuid
  wc_Address :: string
  wc_SourceStates :: "string list"
  wc_TargetState :: string
  wc_QuotaAction :: string
  wc_Result :: "string option"
  wc_Error :: string

record walletEventIdentity =
  wi_scanID :: uuid
  wi_userID :: uuid
  wi_address :: string

definition invalidWalletEvent :: "goerr \<Rightarrow> goerr" where
  "invalidWalletEvent err = ErrDetail ErrInvalidWalletEvent (Error err)"

definition cloneRaw :: "string \<Rightarrow> string option" where
  "cloneRaw raw = (if length raw = 0 then None else Some raw)"

text \<open>An error of a call replaced by \<open>invalidWalletEvent(err)\<close>.\<close>

definition or_invalid :: "'a result \<Rightarrow> 'a result" where
  "or_invalid r = (case r of Inl e \<Rightarrow> Inl (invalidWalletEvent e) | Inr x \<Rightarrow> Inr x)"

definition walletIdentity ::
  "uuid_pkg \<Rightarrow> string \<Rightarrow> string \<Rightarrow> string \<Rightarrow> string \<Rightarrow> walletEventIdentity result" where
  "walletIdentity U kind scanID userID rawAddress =
     (if kind \<noteq> KindWallet then Inl ErrNotWalletEvent
      else rbind (or_invalid (uuid_Parse U scanID)) (\<lambda>sid.
           rbind (or_invalid (uuid_Parse U userID)) (\<lambda>uid.
           rbind (or_invalid (ValidateAndNormalizeAddress rawAddress)) (\<lambda>normalized.
           Inr \<lparr> wi_scanID = sid, wi_userID = uid, wi_address = normalized \<rparr>))))"

definition identity_command ::
  "walletEventIdentity \<Rightarrow> string \<Rightarrow> 64 word \<Rightarrow> string list \<Rightarrow> string \<Rightarrow> string \<Rightarrow> walletCommand" where
  "identity_command i stream seqno sources target quota =
     \<lparr> wc_ScanID = wi_scanID i,
       wc_TransitionID = stream @ '':'' @ FormatUint (unat seqno),
       wc_UserID = wi_userID i,
       wc_Address = wi_address i,
       wc_SourceStates = sources,
       wc_TargetState = target,
       wc_QuotaAction = quota,
       wc_Result = None,
       wc_Error = '''' \<rparr>"

definition startedCommand :: "uuid_pkg \<Rightarrow> Started \<Rightarrow> string \<Rightarrow> 64 word \<Rightarrow> walletCommand result" where
  "startedCommand U msg stream seqno =
     rbind (walletIdentity U (st_Kind msg) (st_ScanID msg) (st_UserID msg) (st_Address msg)) (\<lambda>i.
       Inr (identity_command i stream seqno [StatePENDING] StateRUNNING walletQuotaNone))"

definition completedCommand :: "uuid_pkg \<Rightarrow> Completed \<Rightarrow> string \<Rightarrow> 64 word \<Rightarrow> walletCommand result" where
  "completedCommand U msg stream seqno =
     rbind (walletIdentity U (cp_Kind msg) (cp_ScanID msg) (cp_UserID msg) (cp_Address msg)) (\<lambda>i.
       Inr ((identity_command i stream seqno [StatePENDING, StateRUNNING] StateSUCCESS walletQuotaKeep)
            \<lparr>wc_Result := cloneRaw (cp_Result msg)\<rparr>))"

definition failedCommand :: "uuid_pkg \<Rightarrow> Failed \<Rightarrow> string \<Rightarrow> 64 word \<Rightarrow> walletCommand result" where
  "failedCommand U msg stream seqno =
     rbind (walletIdentity U (fl_Kind msg) (fl_ScanID msg) (fl_UserID msg) (fl_Address msg)) (\<lambda>i.
       Inr ((identity_command i stream seqno [StatePENDING, StateRUNNING] StateFAILED walletQuotaRelease)
            \<lparr>wc_Error := fl_Error msg\<rparr>))"

definition WalletTransitionCommand ::
  "lifecycle_pkg \<Rightarrow> uuid_pkg \<Rightarrow> string \<Rightarrow> string \<Rightarrow> string \<Rightarrow> 64 word \<Rightarrow> walletCommand result" where
  "WalletTransitionCommand C U subject payload stream seqno =
     (if subject = SubjectScanStarted C
      then rbind (or_invalid (DecodeStarted C payload)) (\<lambda>msg. startedCommand U msg stream seqno)
      else if subject = SubjectScanCompleted C
      then rbind (or_invalid (DecodeCompleted C payload)) (\<lambda>msg. completedCommand U msg stream seqno)
      else if subject = SubjectScanFailed C
      then rbind (or_invalid (DecodeFailed C payload)) (\<lambda>msg. failedCommand U msg stream seqno)
      else Inl (invalidWalletEvent (ErrNew (''subject '' @ subject))))"

section \<open>Settling a delivery\<close>

definition walletLifecycleAttempts :: nat where "walletLifecycleAttempts = 2"
definition walletLifecycleGap :: go_duration where "walletLifecycleGap = seconds 1"
definition walletLifecycleNakDelay :: go_duration where "walletLifecycleNakDelay = seconds 120"
definition walletLifecycleMetadata :: string where "walletLifecycleMetadata = ''metadata''"
definition walletLifecycleInvalid :: string where "walletLifecycleInvalid = ''invalid''"
definition walletLifecycleRejected :: string where "walletLifecycleRejected = ''rejected''"
definition walletLifecycleRetryable :: string where "walletLifecycleRetryable = ''retryable''"
definition walletLifecycleTransport :: string where "walletLifecycleTransport = ''transport''"
definition walletLifecycleProjection :: string where "walletLifecycleProjection = ''projection''"

text \<open>
  One delivery: the metadata call may fail or return nil.  The surroundings
  answer the posts and the waits, by the number of the attempt, and encode the
  body of the command.
\<close>

record MsgMetadata =
  meta_Stream :: string
  meta_Sequence :: "64 word"

record WalletLifecycleMessage =
  msg_Subject :: string
  msg_Data :: string
  msg_Metadata :: "MsgMetadata option result"

record walletDeliverySettler =
  ws_apply :: "nat \<Rightarrow> uuid \<Rightarrow> uuid \<Rightarrow> string \<Rightarrow> (string \<times> string \<times> bool) result"
  ws_wait :: "nat \<Rightarrow> go_duration \<Rightarrow> unit result"
  ws_marshal :: "walletCommand \<Rightarrow> string result"

datatype action =
    Record string
  | Post uuid uuid string
  | Wait go_duration
  | Ack
  | Term
  | NakWithDelay go_duration

definition settler_post ::
  "walletDeliverySettler \<Rightarrow> nat \<Rightarrow> walletCommand \<Rightarrow> string \<Rightarrow> (string \<times> bool) result" where
  "settler_post S attempt cmd body =
     (case ws_apply S attempt (wc_UserID cmd) (wc_ScanID cmd) body of
        Inl e \<Rightarrow> Inl e | Inr (outcome, _, ready) \<Rightarrow> Inr (outcome, ready))"

text \<open>The alert counts its reason.\<close>

definition settler_alert :: "string \<Rightarrow> action list" where
  "settler_alert reason = [Record reason]"

text \<open>What an answer leads to: \<open>None\<close> goes on with the loop and the new \<open>transport\<close> flag.\<close>

definition settle_outcome :: "walletCommand \<Rightarrow> bool \<Rightarrow> (string \<times> bool) result \<Rightarrow> action list option \<times> bool" where
  "settle_outcome cmd transport r =
     (case r of
        Inl _ \<Rightarrow> (None, True)
      | Inr (outcome, ready) \<Rightarrow>
          if outcome = ''applied'' \<or> outcome = ''already_applied''
          then (if \<not> IsTerminal (wc_TargetState cmd) \<or> ready then (Some [Ack], transport)
                else (Some (settler_alert walletLifecycleProjection
                            @ [NakWithDelay walletLifecycleNakDelay]), transport))
          else if outcome = ''already_running'' \<or> outcome = ''already_terminal'' then (Some [Ack], transport)
          else if outcome = ''rejected'' then (Some [Record walletLifecycleRejected, Term], transport)
          else if outcome = ''retryable_error'' then (None, transport)
          else (None, True))"

function settle_loop ::
  "walletDeliverySettler \<Rightarrow> walletCommand \<Rightarrow> string \<Rightarrow> nat \<Rightarrow> bool \<Rightarrow> action list" where
  "settle_loop S cmd body attempt transport =
     (if attempt < walletLifecycleAttempts
      then
        (if attempt > 0 \<and> isl (ws_wait S attempt walletLifecycleGap) then [Wait walletLifecycleGap]
         else (if attempt > 0 then [Wait walletLifecycleGap] else [])
              @ Post (wc_UserID cmd) (wc_ScanID cmd) body
              # (case settle_outcome cmd transport (settler_post S attempt cmd body) of
                   (Some acts, _) \<Rightarrow> acts
                 | (None, transport') \<Rightarrow> settle_loop S cmd body (attempt + 1) transport'))
      else settler_alert (if transport then walletLifecycleTransport else walletLifecycleRetryable)
           @ [NakWithDelay walletLifecycleNakDelay])"
  by pat_completeness auto
termination
  by (relation "measure (\<lambda>(S, cmd, body, attempt, transport). walletLifecycleAttempts - attempt)") auto

declare settle_loop.simps [simp del]

definition settle ::
  "lifecycle_pkg \<Rightarrow> uuid_pkg \<Rightarrow> walletDeliverySettler \<Rightarrow> WalletLifecycleMessage \<Rightarrow> action list" where
  "settle C U S msg =
     (case msg_Metadata msg of
        Inl _ \<Rightarrow> [Record walletLifecycleMetadata, NakWithDelay walletLifecycleNakDelay]
      | Inr None \<Rightarrow> [Record walletLifecycleMetadata, NakWithDelay walletLifecycleNakDelay]
      | Inr (Some meta) \<Rightarrow>
          (case WalletTransitionCommand C U (msg_Subject msg) (msg_Data msg)
                  (meta_Stream meta) (meta_Sequence meta) of
             Inl err \<Rightarrow> if errors_Is err ErrNotWalletEvent then [Ack]
                        else [Record walletLifecycleInvalid, Term]
           | Inr cmd \<Rightarrow>
               (case ws_marshal S cmd of
                  Inl _ \<Rightarrow> [Record walletLifecycleInvalid, Term]
                | Inr body \<Rightarrow> settle_loop S cmd body 0 False)))"

section \<open>Lemmas on commands\<close>

lemma or_invalid_Inr [simp]: "or_invalid r = Inr x \<longleftrightarrow> r = Inr x"
  by (cases r) (simp_all add: or_invalid_def)

lemma or_invalid_Inl: "or_invalid r = Inl e \<Longrightarrow> \<exists>e'. e = invalidWalletEvent e'"
  by (cases r) (auto simp: or_invalid_def)

lemma invalid_not_wallet [simp]: "\<not> errors_Is (invalidWalletEvent e) ErrNotWalletEvent"
  by (simp add: invalidWalletEvent_def ErrInvalidWalletEvent_def ErrNotWalletEvent_def)

lemma invalid_is_invalid: "errors_Is (invalidWalletEvent e) ErrInvalidWalletEvent"
  by (simp add: invalidWalletEvent_def)

lemma walletIdentity_Inr:
  "walletIdentity U kind sid uid a = Inr i \<Longrightarrow>
     kind = KindWallet \<and> uuid_Parse U sid = Inr (wi_scanID i) \<and> uuid_Parse U uid = Inr (wi_userID i)
     \<and> ValidateAndNormalizeAddress a = Inr (wi_address i)"
  by (auto simp: walletIdentity_def rbind_eq_Inr_iff split: if_splits)

lemmas command_defs =
  startedCommand_def completedCommand_def failedCommand_def identity_command_def

text \<open>The three shapes a command can have.\<close>

lemma command_cases:
  assumes "WalletTransitionCommand C U subject payload stream n = Inr cmd"
  obtains (started) i kind a sid uid where "walletIdentity U kind sid uid a = Inr i"
      "cmd = identity_command i stream n [StatePENDING] StateRUNNING walletQuotaNone"
    | (completed) i kind a sid uid r where "walletIdentity U kind sid uid a = Inr i"
      "cmd = (identity_command i stream n [StatePENDING, StateRUNNING] StateSUCCESS walletQuotaKeep)
         \<lparr>wc_Result := r\<rparr>"
    | (failed) i kind a sid uid e where "walletIdentity U kind sid uid a = Inr i"
      "cmd = (identity_command i stream n [StatePENDING, StateRUNNING] StateFAILED walletQuotaRelease)
         \<lparr>wc_Error := e\<rparr>"
  using assms
  by (auto simp: WalletTransitionCommand_def startedCommand_def completedCommand_def failedCommand_def
      rbind_eq_Inr_iff split: if_splits)

lemma command_TransitionID:
  "WalletTransitionCommand C U subject payload stream n = Inr cmd \<Longrightarrow>
     wc_TransitionID cmd = stream @ CHR '':'' # FormatUint (unat n)"
  by (erule command_cases) (simp_all add: identity_command_def)

section \<open>Lemmas on settling\<close>

fun is_final :: "action \<Rightarrow> bool" where
  "is_final Ack = True"
| "is_final Term = True"
| "is_final (NakWithDelay d) = True"
| "is_final _ = False"

fun is_post :: "action \<Rightarrow> bool" where
  "is_post (Post u s b) = True"
| "is_post _ = False"

text \<open>An answer that settles the event: the transition is stored or superseded.\<close>

definition settled_answer :: "walletCommand \<Rightarrow> (string \<times> bool) result \<Rightarrow> bool" where
  "settled_answer cmd r \<longleftrightarrow> (\<exists>outcome ready. r = Inr (outcome, ready) \<and>
     (outcome \<in> {''applied'', ''already_applied''} \<and> (IsTerminal (wc_TargetState cmd) \<longrightarrow> ready)
      \<or> outcome \<in> {''already_running'', ''already_terminal''}))"

lemma settle_outcome_cases:
  "settle_outcome cmd tr r = (Some acts, tr') \<Longrightarrow>
     acts = [Ack] \<and> settled_answer cmd r
     \<or> acts = [Record walletLifecycleProjection, NakWithDelay walletLifecycleNakDelay]
     \<or> acts = [Record walletLifecycleRejected, Term] \<and> (\<exists>ready. r = Inr (''rejected'', ready))"
  by (auto simp: settle_outcome_def settled_answer_def settler_alert_def split: sum.splits if_splits)

lemma settle_loop_posts:
  "length (filter is_post (settle_loop S cmd body n tr)) \<le> walletLifecycleAttempts - n"
proof (induction S cmd body n tr rule: settle_loop.induct)
  case (1 S cmd body n tr)
  show ?case
  proof (cases "settle_outcome cmd tr (settler_post S n cmd body)")
    case (Pair r tr')
    have "r = None \<Longrightarrow> n < walletLifecycleAttempts \<Longrightarrow> \<not> (n > 0 \<and> isl (ws_wait S n walletLifecycleGap)) \<Longrightarrow>
        length (filter is_post (settle_loop S cmd body (n + 1) tr')) \<le> walletLifecycleAttempts - (n + 1)"
      using 1 Pair by auto
    then show ?thesis
      using Pair settle_outcome_cases [of cmd tr _ _ tr']
      by (fastforce simp: settle_loop.simps [of S cmd body n tr] settler_alert_def split: option.split)
  qed
qed

lemma final_prepend:
  assumes "list_all (\<lambda>x. \<not> is_final x) ws"
    and "(\<exists>pre a. xs = pre @ [a] \<and> is_final a \<and> list_all (\<lambda>x. \<not> is_final x) pre)
      \<or> (\<exists>pre (k :: nat). xs = pre @ [w] \<and> list_all (\<lambda>x. \<not> is_final x) pre \<and> P k)"
  shows "(\<exists>pre a. ws @ xs = pre @ [a] \<and> is_final a \<and> list_all (\<lambda>x. \<not> is_final x) pre)
      \<or> (\<exists>pre k. ws @ xs = pre @ [w] \<and> list_all (\<lambda>x. \<not> is_final x) pre \<and> P k)"
  using assms(2)
proof
  assume "\<exists>pre a. xs = pre @ [a] \<and> is_final a \<and> list_all (\<lambda>x. \<not> is_final x) pre"
  then obtain pre a where "xs = pre @ [a] \<and> is_final a \<and> list_all (\<lambda>x. \<not> is_final x) pre" by blast
  then show ?thesis using assms(1) by (intro disjI1 exI [of _ "ws @ pre"] exI [of _ a]) simp
next
  assume "\<exists>pre k. xs = pre @ [w] \<and> list_all (\<lambda>x. \<not> is_final x) pre \<and> P k"
  then obtain pre k where "xs = pre @ [w] \<and> list_all (\<lambda>x. \<not> is_final x) pre \<and> P k" by blast
  then show ?thesis using assms(1) by (intro disjI2 exI [of _ "ws @ pre"] exI [of _ k]) simp
qed

lemma settle_loop_final:
  "(\<exists>pre a. settle_loop S cmd body n tr = pre @ [a] \<and> is_final a \<and> list_all (\<lambda>x. \<not> is_final x) pre)
   \<or> (\<exists>pre k. settle_loop S cmd body n tr = pre @ [Wait walletLifecycleGap]
        \<and> list_all (\<lambda>x. \<not> is_final x) pre \<and> isl (ws_wait S k walletLifecycleGap))"
proof (induction S cmd body n tr rule: settle_loop.induct)
  case (1 S cmd body n tr)
  let ?w = "if n > 0 then [Wait walletLifecycleGap] else []"
  let ?p = "Post (wc_UserID cmd) (wc_ScanID cmd) body"
  consider (over) "\<not> n < walletLifecycleAttempts"
    | (interrupted) "n < walletLifecycleAttempts" "n > 0" "isl (ws_wait S n walletLifecycleGap)"
    | (answer) "n < walletLifecycleAttempts" "\<not> (n > 0 \<and> isl (ws_wait S n walletLifecycleGap))"
    by blast
  then show ?case
  proof cases
    case over
    then show ?thesis
      by (intro disjI1 exI [of _ "[Record (if tr then walletLifecycleTransport else walletLifecycleRetryable)]"]
          exI [of _ "NakWithDelay walletLifecycleNakDelay"])
        (simp add: settle_loop.simps [of S cmd body n tr] settler_alert_def)
  next
    case interrupted
    then show ?thesis
      by (intro disjI2 exI [of _ "[]"] exI [of _ n]) (simp add: settle_loop.simps [of S cmd body n tr])
  next
    case answer
    obtain r tr' where o: "settle_outcome cmd tr (settler_post S n cmd body) = (r, tr')" by fastforce
    show ?thesis
    proof (cases r)
      case None
      have "settle_loop S cmd body n tr = (?w @ [?p]) @ settle_loop S cmd body (n + 1) tr'"
        using answer o None by (simp add: settle_loop.simps [of S cmd body n tr])
      then show ?thesis
        using 1 [OF answer, unfolded o, OF refl None] by (simp only:) (rule final_prepend, simp)
    next
      case (Some acts)
      have e: "settle_loop S cmd body n tr = ?w @ ?p # acts"
        using answer o Some by (simp add: settle_loop.simps [of S cmd body n tr])
      have "\<exists>pre a. acts = pre @ [a] \<and> is_final a \<and> list_all (\<lambda>x. \<not> is_final x) pre"
        using settle_outcome_cases [OF o [unfolded Some]]
        by (auto intro: exI [of _ "[]"] exI [of _ "[Record walletLifecycleProjection]"]
            exI [of _ "[Record walletLifecycleRejected]"])
      then obtain pre a where "acts = pre @ [a]" "is_final a" "list_all (\<lambda>x. \<not> is_final x) pre"
        by blast
      then show ?thesis unfolding e by (intro disjI1 exI [of _ "?w @ ?p # pre"] exI [of _ a]) simp
    qed
  qed
qed

lemma settle_loop_causes:
  "(Ack \<in> set (settle_loop S cmd body n tr) \<longrightarrow>
      (\<exists>k < walletLifecycleAttempts. settled_answer cmd (settler_post S k cmd body)))
   \<and> (Term \<in> set (settle_loop S cmd body n tr) \<longrightarrow>
      (\<exists>k ready. k < walletLifecycleAttempts \<and> settler_post S k cmd body = Inr (''rejected'', ready)))"
proof (induction S cmd body n tr rule: settle_loop.induct)
  case (1 S cmd body n tr)
  obtain r tr' where o: "settle_outcome cmd tr (settler_post S n cmd body) = (r, tr')" by fastforce
  show ?case
  proof (cases "n < walletLifecycleAttempts \<and> \<not> (n > 0 \<and> isl (ws_wait S n walletLifecycleGap))")
    case True
    have e: "settle_loop S cmd body n tr = (if n > 0 then [Wait walletLifecycleGap] else [])
        @ Post (wc_UserID cmd) (wc_ScanID cmd) body
        # (case r of Some acts \<Rightarrow> acts | None \<Rightarrow> settle_loop S cmd body (n + 1) tr')"
      using True o by (simp add: settle_loop.simps [of S cmd body n tr] split: option.split)
    show ?thesis
    proof (cases r)
      case None
      show ?thesis unfolding e using 1 True o None by simp
    next
      case (Some acts)
      show ?thesis unfolding e using Some settle_outcome_cases [OF o [unfolded Some]] True by auto
    qed
  next
    case False
    then show ?thesis by (auto simp: settle_loop.simps [of S cmd body n tr] settler_alert_def)
  qed
qed

section \<open>Properties\<close>

text \<open>
  C16: a command asks only for transitions of the scan state machine. Every
  source state may move to the target, the target is RUNNING, SUCCESS or FAILED,
  the credit is kept exactly for SUCCESS, returned exactly for FAILED and left
  alone exactly for RUNNING, and the address is in canonical form.
\<close>

theorem wallet_command_sound:
  assumes "WalletTransitionCommand C U subject payload stream n = Inr cmd"
  shows "list_all (\<lambda>src. ValidTransition src (wc_TargetState cmd)) (wc_SourceStates cmd)
    \<and> wc_TargetState cmd \<in> {StateRUNNING, StateSUCCESS, StateFAILED}
    \<and> (wc_QuotaAction cmd = walletQuotaNone \<longleftrightarrow> \<not> IsTerminal (wc_TargetState cmd))
    \<and> (wc_QuotaAction cmd = walletQuotaKeep \<longleftrightarrow> IsSuccess (wc_TargetState cmd))
    \<and> (wc_QuotaAction cmd = walletQuotaRelease \<longleftrightarrow> wc_TargetState cmd = StateFAILED)
    \<and> ValidateAndNormalizeAddress (wc_Address cmd) = Inr (wc_Address cmd)"
proof -
  have a: "ValidateAndNormalizeAddress (wi_address i) = Inr (wi_address i)"
    if "walletIdentity U kind sid uid a = Inr i" for i kind sid uid a
    using walletIdentity_Inr [OF that] Validate_idem by blast
  show ?thesis
    using assms
    by (rule command_cases)
      (simp_all add: a identity_command_def ValidTransition_iff IsTerminal_iff IsSuccess_def go_consts)
qed

text \<open>A contract with one-character subjects, for the examples.\<close>

definition ex_contract :: lifecycle_pkg where
  "ex_contract = \<lparr> SubjectScanStarted = ''s'', SubjectScanCompleted = ''c'', SubjectScanFailed = ''f'',
     DecodeStarted = (\<lambda>_. Inl (ErrNew ''no'')), DecodeCompleted = (\<lambda>_. Inl (ErrNew ''no'')),
     DecodeFailed = (\<lambda>p. Inr \<lparr> fl_Kind = KindWallet, fl_ScanID = '''', fl_UserID = '''',
       fl_Address = replicate 40 CHR ''a'', fl_Error = p, fl_CompletedAt = '''' \<rparr>) \<rparr>"

definition ex_uuid1 :: uuid_pkg where
  "ex_uuid1 = \<lparr> uuid_Parse = (\<lambda>_. Inr 7), uuid_String = (\<lambda>_. '''') \<rparr>"

definition ex_cmd :: walletCommand where
  "ex_cmd = \<lparr> wc_ScanID = 7, wc_TransitionID = ''W:5'', wc_UserID = 7,
     wc_Address = ''0x'' @ replicate 40 CHR ''a'', wc_SourceStates = [StatePENDING, StateRUNNING],
     wc_TargetState = StateFAILED, wc_QuotaAction = walletQuotaRelease, wc_Result = None,
     wc_Error = ''boom'' \<rparr>"

lemma ex_command: "WalletTransitionCommand ex_contract ex_uuid1 ''f'' ''boom'' ''W'' 5 = Inr ex_cmd"
proof -
  have "ValidateAndNormalizeAddress (replicate 40 CHR ''a'') = Inr (''0x'' @ replicate 40 CHR ''a'')"
    by code_simp
  moreover have "FormatUint (unat (5 :: 64 word)) = ''5''" by code_simp
  ultimately show ?thesis
    by (simp add: WalletTransitionCommand_def ex_contract_def failedCommand_def walletIdentity_def
        ex_uuid1_def or_invalid_def identity_command_def ex_cmd_def)
qed

theorem wallet_command_sound_witness:
  "WalletTransitionCommand ex_contract ex_uuid1 ''f'' ''boom'' ''W'' 5 = Inr ex_cmd
   \<and> list_all (\<lambda>src. ValidTransition src (wc_TargetState ex_cmd)) (wc_SourceStates ex_cmd)"
  using ex_command wallet_command_sound [OF ex_command] by blast

text \<open>
  The transition identifier identifies the delivery. Two commands with the
  same identifier come from the same stream and the same sequence number, so
  the persistence service can recognise a repeated delivery by it.
\<close>

lemma transition_id_unique:
  assumes "WalletTransitionCommand C U subj payload stream n = Inr cmd"
    and "WalletTransitionCommand C U subj' payload' stream' n' = Inr cmd'"
    and "wc_TransitionID cmd = wc_TransitionID cmd'"
  shows "stream = stream' \<and> n = n'"
proof -
  have "stream @ CHR '':'' # FormatUint (unat n) = stream' @ CHR '':'' # FormatUint (unat n')"
    using assms by (simp add: command_TransitionID)
  then have "stream = stream' \<and> FormatUint (unat n) = FormatUint (unat n')"
    using colon_suffix_unique FormatUint_no_colon by blast
  then show ?thesis
    using FormatUint_inj [of "unat n" "unat n'"] by (auto intro: unsigned_word_eqI)
qed

lemma transition_id_unique_witness:
  "wc_TransitionID ex_cmd = ''W:5'' \<and> (''W'', 5 :: 64 word) = (''W'', 5)"
  using transition_id_unique [OF ex_command ex_command] by (simp add: ex_cmd_def)

text \<open>
  A delivery is settled once. The command is posted at most twice; the last
  action is an acknowledgement, a termination or a delayed redelivery and no
  other action is, unless the wait between the attempts was interrupted, in
  which case the delivery is left unsettled and will be redelivered.
\<close>

lemma settle_once:
  "length (filter is_post (settle C U S msg)) \<le> 2
   \<and> ((\<exists>pre a. settle C U S msg = pre @ [a] \<and> is_final a \<and> list_all (\<lambda>x. \<not> is_final x) pre)
      \<or> (\<exists>pre k. settle C U S msg = pre @ [Wait walletLifecycleGap]
           \<and> list_all (\<lambda>x. \<not> is_final x) pre \<and> isl (ws_wait S k walletLifecycleGap)))"
proof -
  have nil: "\<exists>pre a. [x] = pre @ [a] \<and> is_final a \<and> list_all (\<lambda>x. \<not> is_final x) pre" if "is_final x" for x
    using that by (intro exI [of _ "[]"] exI [of _ x]) simp
  have one: "\<exists>pre a. [Record r, x] = pre @ [a] \<and> is_final a \<and> list_all (\<lambda>x. \<not> is_final x) pre"
    if "is_final x" for r x
    using that by (intro exI [of _ "[Record r]"] exI [of _ x]) simp
  have "length (filter is_post (settle_loop S cmd body 0 False)) \<le> 2" for cmd body
    using settle_loop_posts [of S cmd body 0 False] by (simp add: walletLifecycleAttempts_def)
  then show ?thesis
    unfolding settle_def
    using nil [of Ack] one [of Term] one [of "NakWithDelay walletLifecycleNakDelay"] settle_loop_final
    by (simp split: sum.split option.split)
qed

text \<open>
  No wallet event is lost or dropped by mistake. When a valid wallet event
  is acknowledged, some attempt was answered that the transition is stored, with
  the projection ready if the target is terminal, or that the scan has already
  moved on; when it is terminated, the persistence service rejected it.
\<close>

lemma settle_ack_justified:
  assumes "msg_Metadata msg = Inr (Some meta)"
    and "WalletTransitionCommand C U (msg_Subject msg) (msg_Data msg) (meta_Stream meta)
      (meta_Sequence meta) = Inr cmd"
    and "ws_marshal S cmd = Inr body"
  shows "(Ack \<in> set (settle C U S msg) \<longrightarrow>
      (\<exists>k < walletLifecycleAttempts. settled_answer cmd (settler_post S k cmd body)))
   \<and> (Term \<in> set (settle C U S msg) \<longrightarrow>
      (\<exists>k ready. k < walletLifecycleAttempts \<and> settler_post S k cmd body = Inr (''rejected'', ready)))"
  using settle_loop_causes [of S cmd body 0 False] assms by (simp add: settle_def)

definition ex_settler :: walletDeliverySettler where
  "ex_settler = \<lparr> ws_apply = (\<lambda>k _ _ _. if k = 0 then Inl (ErrNew ''timeout'') else Inr (''applied'', '''', True)),
     ws_wait = (\<lambda>_ _. Inr ()), ws_marshal = (\<lambda>c. Inr (wc_Error c)) \<rparr>"

definition ex_msg :: WalletLifecycleMessage where
  "ex_msg = \<lparr> msg_Subject = ''f'', msg_Data = ''boom'',
     msg_Metadata = Inr (Some \<lparr> meta_Stream = ''W'', meta_Sequence = 5 \<rparr>) \<rparr>"

lemma settle_ack_justified_witness:
  "settle ex_contract ex_uuid1 ex_settler ex_msg =
     [Post 7 7 ''boom'', Wait walletLifecycleGap, Post 7 7 ''boom'', Ack]
   \<and> (\<exists>k < walletLifecycleAttempts. settled_answer ex_cmd (settler_post ex_settler k ex_cmd ''boom''))"
proof -
  have s: "settle ex_contract ex_uuid1 ex_settler ex_msg =
     [Post 7 7 ''boom'', Wait walletLifecycleGap, Post 7 7 ''boom'', Ack]"
    using ex_command
    by (simp add: settle_def ex_msg_def ex_settler_def settle_loop.simps settle_outcome_def settler_post_def
        walletLifecycleAttempts_def ex_cmd_def)
  show ?thesis
    using s settle_ack_justified [of ex_msg "\<lparr> meta_Stream = ''W'', meta_Sequence = 5 \<rparr>" ex_contract
        ex_uuid1 ex_cmd ex_settler "''boom''"] ex_command
    by (simp add: ex_msg_def) (simp add: ex_settler_def ex_cmd_def)
qed

end
