(* ===== verification/Scan_Pending.thy ===== *)
theory Scan_Pending
  imports Go_Strings
begin

text \<open>
  The contract of the pending-scan store, \<open>src/internal/persistence/scanpending\<close>:
  the record of a scan that was accepted and has no row yet, the operations of
  the store, and the decoding of the wire form.  The store itself is the
  persistence service: its answers are the functions of the interface record.
  Parsing a time is the \<open>time\<close> package (a parameter).
\<close>

definition scanpending_ErrUnavailable :: goerr where
  "scanpending_ErrUnavailable = ErrNew ''scan pending persistence unavailable''"

record PendingRecord =
  pr_ScanID :: uuid
  pr_UserID :: uuid
  pr_Family :: string
  pr_Address :: string
  pr_Endpoint :: string
  pr_CreatedAt :: go_time

record PendingStore =
  ps_PutTLS :: "uuid \<Rightarrow> string \<Rightarrow> PendingRecord \<Rightarrow> unit result"
  ps_ReserveWallet :: "uuid \<Rightarrow> string \<Rightarrow> PendingRecord \<Rightarrow> bool result"
  ps_Get :: "uuid \<Rightarrow> string \<Rightarrow> uuid \<Rightarrow> PendingRecord option result"
  ps_GetWalletByOwnerAddress :: "uuid \<Rightarrow> string \<Rightarrow> string \<Rightarrow> PendingRecord option result"
  ps_Delete :: "uuid \<Rightarrow> string \<Rightarrow> uuid \<Rightarrow> unit result"
  ps_DeleteWalletReservation :: "uuid \<Rightarrow> string \<Rightarrow> string \<Rightarrow> uuid \<Rightarrow> unit result"

record PendingScanRecordWire =
  pw_ScanID :: string
  pw_UserID :: string
  pw_Family :: string
  pw_Address :: string
  pw_Endpoint :: string
  pw_CreatedAt :: string

record ReserveWalletPendingRequestWire =
  rw_ScanID :: string
  rw_Address :: string
  rw_CreatedAt :: string

record PutTLSPendingRequestWire =
  pt_ScanID :: string
  pt_Endpoint :: string
  pt_CreatedAt :: string

record ReserveWalletPendingResponseWire =
  rr_Reserved :: bool
  rr_Record :: PendingScanRecordWire

text \<open>The two layouts of \<open>time.Parse\<close> that are used, and the printing of one.\<close>

record time_pkg =
  Parse_RFC3339Nano :: "string \<Rightarrow> go_time result"
  Parse_RFC3339 :: "string \<Rightarrow> go_time result"
  Format_RFC3339Nano :: "go_time \<Rightarrow> string"
  Format_RFC3339 :: "go_time \<Rightarrow> string"

text \<open>A printed time parses back to it; no printed time is blank or has blanks around it.\<close>

definition time_pkg_ok :: "time_pkg \<Rightarrow> bool" where
  "time_pkg_ok T \<longleftrightarrow> (\<forall>t. Parse_RFC3339Nano T (Format_RFC3339Nano T t) = Inr t
     \<and> TrimSpace (Format_RFC3339Nano T t) = Format_RFC3339Nano T t \<and> Format_RFC3339Nano T t \<noteq> '''')"

definition pending_parseTime :: "time_pkg \<Rightarrow> string \<Rightarrow> go_time result" where
  "pending_parseTime T v =
     (let s = TrimSpace v in
      if s = '''' then Inr 0
      else case Parse_RFC3339Nano T s of
             Inr t \<Rightarrow> Inr t
           | Inl _ \<Rightarrow> Parse_RFC3339 T s)"

definition RecordFromWire :: "time_pkg \<Rightarrow> uuid_pkg \<Rightarrow> PendingScanRecordWire \<Rightarrow> PendingRecord result" where
  "RecordFromWire T U w =
     rbind (uuid_Parse U (TrimSpace (pw_ScanID w))) (\<lambda>scanID.
     rbind (uuid_Parse U (TrimSpace (pw_UserID w))) (\<lambda>userID.
     rbind (pending_parseTime T (pw_CreatedAt w)) (\<lambda>createdAt.
     Inr \<lparr> pr_ScanID = scanID, pr_UserID = userID, pr_Family = pw_Family w,
           pr_Address = pw_Address w, pr_Endpoint = pw_Endpoint w, pr_CreatedAt = createdAt \<rparr>)))"

section \<open>A time package\<close>

text \<open>An instance of the parameter: a sign and the decimal number of nanoseconds.\<close>

definition ex_format :: "go_time \<Rightarrow> string" where
  "ex_format t = (if t < 0 then CHR ''m'' else CHR ''p'') # FormatUint (nat \<bar>t\<bar>)"

definition ex_parse :: "string \<Rightarrow> go_time result" where
  "ex_parse s = (case s of
     [] \<Rightarrow> Inl (ErrNew ''parsing time'')
   | c # ds \<Rightarrow> (case ParseUint10 ds of
        None \<Rightarrow> Inl (ErrNew ''parsing time'')
      | Some n \<Rightarrow> Inr (if c = CHR ''m'' then - int n else int n)))"

definition ex_time_pkg :: time_pkg where
  "ex_time_pkg = \<lparr> Parse_RFC3339Nano = ex_parse, Parse_RFC3339 = ex_parse,
     Format_RFC3339Nano = ex_format, Format_RFC3339 = ex_format \<rparr>"

lemma ex_time_pkg_ok: "time_pkg_ok ex_time_pkg"
proof -
  have "TrimSpace (ex_format t) = ex_format t" for t
  proof (rule TrimSpace_plain)
    have "is_digit (last (FormatUint (nat \<bar>t\<bar>)))" "FormatUint (nat \<bar>t\<bar>) \<noteq> []"
      using FormatUint_digits [of "nat \<bar>t\<bar>"] by (auto simp: list_all_iff)
    then show "plain_char (last (ex_format t))" by (auto simp: ex_format_def plain_char_def is_digit_def)
  qed (auto simp: ex_format_def plain_char_def byte_def)
  moreover have "ex_parse (ex_format t) = Inr t" for t
    by (simp add: ex_parse_def ex_format_def)
  ultimately show ?thesis by (simp add: time_pkg_ok_def ex_time_pkg_def ex_format_def)
qed

end
