(* ===== verification/Scan_Abandon.thy ===== *)
theory Scan_Abandon
  imports Scan_Ledger Wallet_Lifecycle Scan_Pending
begin

text \<open>
  \<open>src/internal/service/scan_request_abandon.go\<close>: the loop that finds reserved
  scans whose request has left the work queue without a result, and publishes
  \<open>scan.failed\<close> for them so that the credit is returned.  One round is
  \<open>publishMissing\<close>; what the round reads (the payloads of the stream, the open
  reservations of the ledger, the pending store, the clock) and the answers of
  the broker are its surroundings.
\<close>

section \<open>The decision\<close>

definition scanRequestMissingGrace :: go_duration where "scanRequestMissingGrace = seconds 120"
definition scanRequestLeftQueue :: string where
  "scanRequestLeftQueue = ''scan request left the queue without a result''"

record ScanRequestAbandoner =
  ab_Grace :: go_duration
  ab_missingSince :: "uuid \<rightharpoonup> go_time"
  ab_sent :: "uuid set"

definition NewScanRequestAbandoner :: "go_duration \<Rightarrow> ScanRequestAbandoner" where
  "NewScanRequestAbandoner grace =
     \<lparr> ab_Grace = (if grace \<le> 0 then scanRequestMissingGrace else grace),
       ab_missingSince = Map.empty, ab_sent = {} \<rparr>"

text \<open>The loop of \<open>Due\<close> over the open reservations.\<close>

fun due_loop :: "go_time \<Rightarrow> uuid set \<Rightarrow> OpenScanReservation list \<Rightarrow> ScanRequestAbandoner \<Rightarrow>
    ScanRequestAbandoner \<times> OpenScanReservation list" where
  "due_loop now queued [] a = (a, [])"
| "due_loop now queued (row # rows) a =
     (let i = open_ScanID row in
      if i \<in> ab_sent a then due_loop now queued rows a
      else if i \<in> queued
      then due_loop now queued rows (a\<lparr>ab_missingSince := (ab_missingSince a)(i := None)\<rparr>)
      else case ab_missingSince a i of
             None \<Rightarrow> due_loop now queued rows (a\<lparr>ab_missingSince := (ab_missingSince a)(i \<mapsto> now)\<rparr>)
           | Some first \<Rightarrow>
               if time_Sub now first \<ge> ab_Grace a
               then (case due_loop now queued rows a of (a', due) \<Rightarrow> (a', row # due))
               else due_loop now queued rows a)"

text \<open>The loop over \<open>missingSince\<close> that forgets reservations no longer open.\<close>

definition forget_closed :: "uuid set \<Rightarrow> ScanRequestAbandoner \<Rightarrow> ScanRequestAbandoner" where
  "forget_closed seen a = a\<lparr> ab_missingSince := (ab_missingSince a) |` seen,
     ab_sent := ab_sent a - (dom (ab_missingSince a) - seen) \<rparr>"

definition Due :: "go_time \<Rightarrow> OpenScanReservation list \<Rightarrow> uuid set \<Rightarrow> ScanRequestAbandoner \<Rightarrow>
    ScanRequestAbandoner \<times> OpenScanReservation list" where
  "Due now open queued a =
     (case due_loop now queued open a of (a', due) \<Rightarrow> (forget_closed (set (map open_ScanID open)) a', due))"

definition MarkSent :: "uuid \<Rightarrow> ScanRequestAbandoner \<Rightarrow> ScanRequestAbandoner" where
  "MarkSent i a = a\<lparr>ab_sent := insert i (ab_sent a)\<rparr>"

section \<open>One round\<close>

text \<open>
  The surroundings of a round: \<open>ae_scan_id\<close> is the JSON decoder of a payload's
  \<open>scan_id\<close> (\<open>None\<close> when it fails), \<open>ae_pending\<close> the pending store
  (a nil store is \<open>None\<close>), \<open>ae_publish\<close> the broker's answer to a
  publication on JetStream (\<open>True\<close>) or core (\<open>False\<close>).
\<close>

record round_env =
  ae_payloads :: "string list result"
  ae_open :: "OpenScanReservation list result"
  ae_now :: go_time
  ae_completed_at :: string
  ae_scan_id :: "string \<Rightarrow> uuid option"
  ae_uuid :: uuid_pkg
  ae_pending :: "PendingStore option"
  ae_publish :: "bool \<Rightarrow> Failed \<Rightarrow> unit result"

definition scanIDsFromPayloads :: "(string \<Rightarrow> uuid option) \<Rightarrow> string list \<Rightarrow> uuid set" where
  "scanIDsFromPayloads decode payloads =
     {i. \<exists>p \<in> set payloads. decode p = Some i \<and> i \<noteq> uuid_Nil}"

definition abandonedWalletAddress :: "round_env \<Rightarrow> OpenScanReservation \<Rightarrow> string result" where
  "abandonedWalletAddress E row =
     (case ae_pending E of
        None \<Rightarrow> Inl (ErrNew ''pending store unavailable'')
      | Some store \<Rightarrow>
          (case ps_Get store (open_UserID row) '''' (open_ScanID row) of
             Inl e \<Rightarrow> Inl e
           | Inr None \<Rightarrow> Inl (ErrNew ''pending wallet address missing'')
           | Inr (Some rec) \<Rightarrow> if pr_Address rec = '''' then Inl (ErrNew ''pending wallet address missing'')
                             else ValidateAndNormalizeAddress (pr_Address rec)))"

text \<open>What a round does to the outside: a publication that was accepted, or a counted failure.\<close>

datatype abandon_act = Published bool Failed | Counted string

definition publishAbandonedScan ::
  "round_env \<Rightarrow> OpenScanReservation \<Rightarrow> bool result \<times> abandon_act list" where
  "publishAbandonedScan E row =
     (let event = \<lparr> fl_Kind = ''wallet'', fl_ScanID = uuid_String (ae_uuid E) (open_ScanID row),
            fl_UserID = uuid_String (ae_uuid E) (open_UserID row), fl_Address = '''',
            fl_Error = scanRequestLeftQueue, fl_CompletedAt = ae_completed_at E \<rparr> in
      if open_ScanKind row = ScanUsageKindEndpoint
      then let event = event\<lparr>fl_Kind := ''tls''\<rparr> in
           (case ae_publish E False event of
              Inl e \<Rightarrow> (Inl e, []) | Inr _ \<Rightarrow> (Inr True, [Published False event]))
      else case abandonedWalletAddress E row of
             Inl _ \<Rightarrow> (Inr False, [Counted walletLifecycleInvalid])
           | Inr normalized \<Rightarrow>
               let event = event\<lparr>fl_Address := normalized\<rparr> in
               (case ae_publish E True event of
                  Inl e \<Rightarrow> (Inl e, []) | Inr _ \<Rightarrow> (Inr True, [Published True event])))"

fun publish_loop :: "round_env \<Rightarrow> OpenScanReservation list \<Rightarrow> ScanRequestAbandoner \<Rightarrow>
    ScanRequestAbandoner \<times> abandon_act list \<times> goerr option" where
  "publish_loop E [] a = (a, [], None)"
| "publish_loop E (row # rows) a =
     (case publishAbandonedScan E row of
        (Inl e, acts) \<Rightarrow> (a, acts, Some e)
      | (Inr sent, acts) \<Rightarrow>
          (case publish_loop E rows (if sent then MarkSent (open_ScanID row) a else a) of
             (a', acts', err) \<Rightarrow> (a', acts @ acts', err)))"

definition publishMissing ::
  "round_env \<Rightarrow> ScanRequestAbandoner \<Rightarrow> ScanRequestAbandoner \<times> abandon_act list \<times> goerr option" where
  "publishMissing E a =
     (case ae_payloads E of
        Inl e \<Rightarrow> (a, [], Some e)
      | Inr payloads \<Rightarrow>
          (case ae_open E of
             Inl e \<Rightarrow> (a, [], Some e)
           | Inr open \<Rightarrow>
               (case Due (ae_now E) open (scanIDsFromPayloads (ae_scan_id E) payloads) a of
                  (a', due) \<Rightarrow> publish_loop E due a')))"

section \<open>What is due\<close>

lemma time_Sub_self [simp]: "time_Sub t t = 0"
  by (simp add: time_Sub_def)

text \<open>The five branches of the loop body.\<close>

lemma due_loop_Cons:
  "open_ScanID row \<in> ab_sent a \<Longrightarrow> due_loop now q (row # rows) a = due_loop now q rows a"
  "open_ScanID row \<notin> ab_sent a \<Longrightarrow> open_ScanID row \<in> q \<Longrightarrow> due_loop now q (row # rows) a =
     due_loop now q rows (a\<lparr>ab_missingSince := (ab_missingSince a)(open_ScanID row := None)\<rparr>)"
  "open_ScanID row \<notin> ab_sent a \<Longrightarrow> open_ScanID row \<notin> q \<Longrightarrow>
     ab_missingSince a (open_ScanID row) = None \<Longrightarrow> due_loop now q (row # rows) a =
     due_loop now q rows (a\<lparr>ab_missingSince := (ab_missingSince a)(open_ScanID row \<mapsto> now)\<rparr>)"
  "open_ScanID row \<notin> ab_sent a \<Longrightarrow> open_ScanID row \<notin> q \<Longrightarrow>
     ab_missingSince a (open_ScanID row) = Some t \<Longrightarrow> due_loop now q (row # rows) a =
     (fst (due_loop now q rows a), (if ab_Grace a \<le> time_Sub now t then [row] else [])
        @ snd (due_loop now q rows a))"
  by (simp_all add: split: prod.split)

lemma due_loop_fixed:
  "ab_Grace (fst (due_loop now q rows a)) = ab_Grace a \<and> ab_sent (fst (due_loop now q rows a)) = ab_sent a"
proof (induction rows arbitrary: a)
  case (Cons row rows)
  consider "open_ScanID row \<in> ab_sent a" | "open_ScanID row \<notin> ab_sent a" "open_ScanID row \<in> q"
    | "open_ScanID row \<notin> ab_sent a" "open_ScanID row \<notin> q" "ab_missingSince a (open_ScanID row) = None"
    | t where "open_ScanID row \<notin> ab_sent a" "open_ScanID row \<notin> q"
        "ab_missingSince a (open_ScanID row) = Some t"
    by blast
  then show ?case by cases (simp_all add: due_loop_Cons Cons.IH del: due_loop.simps(2))
qed simp

text \<open>The entry of a scan after the loop.\<close>

lemma due_loop_missing:
  "ab_missingSince (fst (due_loop now q rows a)) i =
     (if i \<in> open_ScanID ` set rows \<and> i \<notin> ab_sent a
      then (if i \<in> q then None
            else Some (case ab_missingSince a i of None \<Rightarrow> now | Some t \<Rightarrow> t))
      else ab_missingSince a i)"
proof (induction rows arbitrary: a)
  case (Cons row rows)
  consider "open_ScanID row \<in> ab_sent a" | "open_ScanID row \<notin> ab_sent a" "open_ScanID row \<in> q"
    | "open_ScanID row \<notin> ab_sent a" "open_ScanID row \<notin> q" "ab_missingSince a (open_ScanID row) = None"
    | t where "open_ScanID row \<notin> ab_sent a" "open_ScanID row \<notin> q"
        "ab_missingSince a (open_ScanID row) = Some t"
    by blast
  then show ?case
    by cases (auto simp: due_loop_Cons Cons.IH simp del: due_loop.simps(2))
qed simp

lemma due_loop_due:
  assumes "ab_Grace a > 0"
  shows "row \<in> set (snd (due_loop now q rows a)) \<longleftrightarrow>
    row \<in> set rows \<and> open_ScanID row \<notin> ab_sent a \<and> open_ScanID row \<notin> q
    \<and> (\<exists>t. ab_missingSince a (open_ScanID row) = Some t \<and> ab_Grace a \<le> time_Sub now t)"
  using assms
proof (induction rows arbitrary: a)
  case (Cons r rows)
  consider "open_ScanID r \<in> ab_sent a" | "open_ScanID r \<notin> ab_sent a" "open_ScanID r \<in> q"
    | "open_ScanID r \<notin> ab_sent a" "open_ScanID r \<notin> q" "ab_missingSince a (open_ScanID r) = None"
    | t where "open_ScanID r \<notin> ab_sent a" "open_ScanID r \<notin> q"
        "ab_missingSince a (open_ScanID r) = Some t"
    by blast
  then show ?case
    by cases (use Cons.prems in \<open>auto simp: due_loop_Cons Cons.IH simp del: due_loop.simps(2)\<close>)
qed simp

lemma Due_alt:
  "Due now rows q a =
     (forget_closed (open_ScanID ` set rows) (fst (due_loop now q rows a)), snd (due_loop now q rows a))"
  by (simp add: Due_def case_prod_beta)

lemma Due_sel:
  "ab_Grace (fst (Due now rows q a)) = ab_Grace a"
  "ab_missingSince (fst (Due now rows q a)) i =
     (if i \<in> open_ScanID ` set rows
      then (if i \<in> ab_sent a then ab_missingSince a i
            else if i \<in> q then None
            else Some (case ab_missingSince a i of None \<Rightarrow> now | Some t \<Rightarrow> t))
      else None)"
  using due_loop_fixed [of now q rows a] due_loop_missing [of now q rows a]
  by (simp_all add: Due_alt forget_closed_def restrict_map_def)

lemma Due_sent:
  assumes "ab_sent a \<subseteq> dom (ab_missingSince a)"
  shows "ab_sent (fst (Due now rows q a)) = ab_sent a \<inter> open_ScanID ` set rows"
proof -
  have "dom (ab_missingSince (fst (due_loop now q rows a))) \<supseteq> ab_sent a"
    using assms by (auto simp: due_loop_missing dom_def)
  then show ?thesis
    using due_loop_fixed [of now q rows a]
    by (auto simp: Due_alt forget_closed_def)
qed

lemma Due_due:
  assumes "ab_Grace a > 0"
  shows "row \<in> set (snd (Due now rows q a)) \<longleftrightarrow>
    row \<in> set rows \<and> open_ScanID row \<notin> ab_sent a \<and> open_ScanID row \<notin> q
    \<and> (\<exists>t. ab_missingSince a (open_ScanID row) = Some t \<and> ab_Grace a \<le> time_Sub now t)"
  using due_loop_due [OF assms, of row now q rows] by (simp add: Due_alt)

section \<open>What a round publishes\<close>

lemma MarkSent_sel [simp]:
  "ab_Grace (MarkSent i a) = ab_Grace a" "ab_missingSince (MarkSent i a) = ab_missingSince a"
  "ab_sent (MarkSent i a) = insert i (ab_sent a)"
  by (simp_all add: MarkSent_def)

lemma publish_loop_sel:
  "publish_loop E rows a = (a', acts, err) \<Longrightarrow>
     ab_Grace a' = ab_Grace a \<and> ab_missingSince a' = ab_missingSince a
     \<and> ab_sent a \<subseteq> ab_sent a' \<and> ab_sent a' \<subseteq> ab_sent a \<union> open_ScanID ` set rows"
proof (induction rows arbitrary: a a' acts err)
  case (Cons row rows)
  obtain r acts0 where p: "publishAbandonedScan E row = (r, acts0)" by fastforce
  show ?case
  proof (cases r)
    case (Inl e) then show ?thesis using Cons.prems p by auto
  next
    case (Inr sent)
    obtain a1 acts1 err1 where
      l: "publish_loop E rows (if sent then MarkSent (open_ScanID row) a else a) = (a1, acts1, err1)"
      by (metis prod_cases3)
    have "a' = a1" using Cons.prems p Inr l by simp
    then show ?thesis using Cons.IH [OF l] by (auto split: if_splits)
  qed
qed auto

text \<open>An accepted publication is for a row of the list, which is then marked as sent.\<close>

lemma publishAbandonedScan_acts:
  "publishAbandonedScan E row = (r, acts) \<Longrightarrow> Published js ev \<in> set acts \<Longrightarrow>
     r = Inr True \<and> fl_ScanID ev = uuid_String (ae_uuid E) (open_ScanID row)
     \<and> js = (open_ScanKind row \<noteq> ScanUsageKindEndpoint)"
  by (auto simp: publishAbandonedScan_def Let_def split: if_splits sum.splits)

lemma publish_loop_acts:
  "publish_loop E rows a = (a', acts, err) \<Longrightarrow> Published js ev \<in> set acts \<Longrightarrow>
     \<exists>row \<in> set rows. open_ScanID row \<in> ab_sent a'
       \<and> fl_ScanID ev = uuid_String (ae_uuid E) (open_ScanID row)
       \<and> js = (open_ScanKind row \<noteq> ScanUsageKindEndpoint)"
proof (induction rows arbitrary: a a' acts err)
  case (Cons row rows)
  obtain r acts0 where p: "publishAbandonedScan E row = (r, acts0)" by fastforce
  show ?case
  proof (cases r)
    case (Inl e)
    then show ?thesis using Cons.prems p publishAbandonedScan_acts [OF p] by auto
  next
    case (Inr sent)
    let ?a = "if sent then MarkSent (open_ScanID row) a else a"
    obtain a1 acts1 err1 where l: "publish_loop E rows ?a = (a1, acts1, err1)" by (metis prod_cases3)
    have a': "a' = a1" and acts: "acts = acts0 @ acts1" using Cons.prems p Inr l by simp_all
    show ?thesis
    proof (cases "Published js ev \<in> set acts0")
      case True
      note pub = publishAbandonedScan_acts [OF p True]
      then have "open_ScanID row \<in> ab_sent ?a" using Inr by simp
      then have "open_ScanID row \<in> ab_sent a'" using publish_loop_sel [OF l] a' by blast
      then show ?thesis using pub by (intro bexI [of _ row]) simp_all
    next
      case False
      then have "Published js ev \<in> set acts1" using Cons.prems(2) acts by simp
      then show ?thesis using Cons.IH [OF l] a' by (auto simp: Bex_def)
    qed
  qed
qed simp

text \<open>When every publication is accepted, every row with an address is published.\<close>

lemma publish_accepted:
  assumes "\<And>js ev. ae_publish E js ev = Inr ()"
  shows "\<exists>sent acts. publishAbandonedScan E row = (Inr sent, acts)"
  by (auto simp: publishAbandonedScan_def Let_def assms split: sum.split)

lemma publish_loop_live:
  assumes "\<And>js ev. ae_publish E js ev = Inr ()" and "row \<in> set rows"
    and "open_ScanKind row = ScanUsageKindEndpoint \<or> (\<exists>n. abandonedWalletAddress E row = Inr n)"
  shows "open_ScanID row \<in> ab_sent (fst (publish_loop E rows a))"
  using assms(2)
proof (induction rows arbitrary: a)
  case (Cons r rows)
  obtain sent acts0 where p: "publishAbandonedScan E r = (Inr sent, acts0)"
    using publish_accepted [OF assms(1)] by blast
  let ?a = "if sent then MarkSent (open_ScanID r) a else a"
  obtain a1 acts1 err1 where l: "publish_loop E rows ?a = (a1, acts1, err1)" by (metis prod_cases3)
  have f: "fst (publish_loop E (r # rows) a) = a1" using p l by simp
  show ?case
  proof (cases "r = row")
    case True
    have "sent" using p assms(1,3) True
      by (auto simp: publishAbandonedScan_def Let_def split: sum.splits if_splits)
    then show ?thesis unfolding f using publish_loop_sel [OF l] True by auto
  next
    case False
    then have "open_ScanID row \<in> ab_sent (fst (publish_loop E rows ?a))"
      using Cons by simp
    then show ?thesis unfolding f l by simp
  qed
qed simp

section \<open>Rounds\<close>

text \<open>
  A tick is what a round saw: the time, the open reservations and the queue.  The
  history has the latest tick first.
\<close>

type_synonym tick = "go_time \<times> uuid set \<times> uuid set"

definition ids_open :: "round_env \<Rightarrow> uuid set" where
  "ids_open E = (case ae_open E of Inl _ \<Rightarrow> {} | Inr rows \<Rightarrow> open_ScanID ` set rows)"

definition ids_queued :: "round_env \<Rightarrow> uuid set" where
  "ids_queued E = (case ae_payloads E of Inl _ \<Rightarrow> {} | Inr ps \<Rightarrow> scanIDsFromPayloads (ae_scan_id E) ps)"

definition reads_ok :: "round_env \<Rightarrow> bool" where
  "reads_ok E \<longleftrightarrow> \<not> isl (ae_payloads E) \<and> \<not> isl (ae_open E)"

fun absent_since :: "uuid \<Rightarrow> go_time \<Rightarrow> tick list \<Rightarrow> bool" where
  "absent_since i t0 [] = False"
| "absent_since i t0 ((t, op, q) # ticks) = (i \<in> op \<and> i \<notin> q \<and> (t = t0 \<or> absent_since i t0 ticks))"

inductive abandon_step :: "ScanRequestAbandoner \<times> tick list \<Rightarrow> ScanRequestAbandoner \<times> tick list \<Rightarrow> bool" where
  round: "publishMissing E a = (a', acts, err) \<Longrightarrow> reads_ok E \<Longrightarrow>
    abandon_step (a, hist) (a', (ae_now E, ids_open E, ids_queued E) # hist)"
| failed_read: "publishMissing E a = (a', acts, err) \<Longrightarrow> \<not> reads_ok E \<Longrightarrow>
    abandon_step (a, hist) (a', hist)"

definition abandon_init :: "ScanRequestAbandoner \<times> tick list \<Rightarrow> bool" where
  "abandon_init s \<longleftrightarrow> (\<exists>g. s = (NewScanRequestAbandoner g, []))"

definition abandon_inv :: "ScanRequestAbandoner \<times> tick list \<Rightarrow> bool" where
  "abandon_inv s = (case s of (a, hist) \<Rightarrow> ab_Grace a > 0 \<and> ab_sent a \<subseteq> dom (ab_missingSince a)
     \<and> (\<forall>i t. i \<notin> ab_sent a \<and> ab_missingSince a i = Some t \<longrightarrow> absent_since i t hist))"

lemma publishMissing_ok:
  assumes "reads_ok E"
  obtains rows where "ae_open E = Inr rows" "ids_open E = open_ScanID ` set rows"
    "publishMissing E a = publish_loop E (snd (Due (ae_now E) rows (ids_queued E) a))
       (fst (Due (ae_now E) rows (ids_queued E) a))"
proof -
  obtain ps rows where "ae_payloads E = Inr ps" "ae_open E = Inr rows"
    using assms unfolding reads_ok_def by (metis isl_def sum.exhaust_sel)
  then show ?thesis
    by (intro that [of rows]) (simp_all add: ids_open_def ids_queued_def publishMissing_def split: prod.split)
qed

lemma publishMissing_failed: "\<not> reads_ok E \<Longrightarrow> fst (publishMissing E a) = a \<and> fst (snd (publishMissing E a)) = []"
  by (auto simp: reads_ok_def publishMissing_def isl_def split: sum.splits)

lemma publish_reads_ok:
  assumes "publishMissing E a = (a', acts, err)" and "x \<in> set acts"
  shows "reads_ok E"
proof (rule ccontr)
  assume "\<not> reads_ok E"
  then show False using publishMissing_failed [of E a] assms by simp
qed

lemma abandon_inv_step:
  assumes "abandon_step s s'" and "abandon_inv s"
  shows "abandon_inv s'"
  using assms
proof (induction rule: abandon_step.induct)
  case (round E a a' acts err hist)
  obtain rows where rows: "ids_open E = open_ScanID ` set rows"
      "publishMissing E a = publish_loop E (snd (Due (ae_now E) rows (ids_queued E) a))
         (fst (Due (ae_now E) rows (ids_queued E) a))"
    using publishMissing_ok [OF round(2)] by metis
  let ?a = "fst (Due (ae_now E) rows (ids_queued E) a)"
  have inv: "ab_Grace a > 0" "ab_sent a \<subseteq> dom (ab_missingSince a)"
      "\<And>i t. i \<notin> ab_sent a \<Longrightarrow> ab_missingSince a i = Some t \<Longrightarrow> absent_since i t hist"
    using round(3) by (auto simp: abandon_inv_def)
  note sel = publish_loop_sel [OF round(1) [unfolded rows(2)]]
  have sent: "ab_sent ?a = ab_sent a \<inter> ids_open E" using Due_sent [OF inv(2)] rows(1) by simp
  have "open_ScanID row \<in> dom (ab_missingSince ?a)"
    if "row \<in> set (snd (Due (ae_now E) rows (ids_queued E) a))" for row
    using that Due_due [OF inv(1)] by (auto simp: Due_sel)
  moreover have "ab_sent ?a \<subseteq> dom (ab_missingSince ?a)"
    using inv(2) unfolding sent rows(1) by (auto simp: Due_sel dom_def)
  ultimately have dom: "ab_sent a' \<subseteq> dom (ab_missingSince a')" using sel by (metis (no_types, lifting) Un_least image_subsetI order.trans)
  have "absent_since i t ((ae_now E, ids_open E, ids_queued E) # hist)"
    if "i \<notin> ab_sent a'" "ab_missingSince a' i = Some t" for i t
  proof -
    have m: "ab_missingSince ?a i = Some t" "i \<notin> ab_sent ?a" using that sel by auto
    have "i \<in> ids_open E" using m(1) rows(1) by (auto simp: Due_sel split: if_splits)
    moreover have "i \<notin> ab_sent a" using m(2) sent calculation by blast
    ultimately show ?thesis using m(1) inv(3) rows(1)
      by (auto simp: Due_sel split: if_splits option.splits)
  qed
  moreover have "ab_Grace a' > 0" using sel inv(1) by (simp add: Due_sel(1))
  ultimately show ?case using dom by (simp add: abandon_inv_def del: absent_since.simps)
next
  case (failed_read E a a' acts err hist)
  then show ?case using publishMissing_failed [of E a] by simp
qed

interpretation abandoner: invariant_of abandon_init abandon_step abandon_inv
proof
  show "abandon_init s \<Longrightarrow> abandon_inv s" for s
    by (auto simp: abandon_init_def abandon_inv_def NewScanRequestAbandoner_def
        scanRequestMissingGrace_def seconds_def)
  show "abandon_inv s \<Longrightarrow> abandon_step s s' \<Longrightarrow> abandon_inv s'" for s s'
    by (rule abandon_inv_step)
qed

text \<open>A run of rounds in which a scan stays open, absent from the queue and publishable.\<close>

definition abandonable :: "uuid \<Rightarrow> round_env \<Rightarrow> bool" where
  "abandonable i E \<longleftrightarrow> reads_ok E \<and> i \<in> ids_open E \<and> i \<notin> ids_queued E
     \<and> (\<forall>js ev. ae_publish E js ev = Inr ())
     \<and> (\<forall>rows. ae_open E = Inr rows \<longrightarrow> (\<forall>row \<in> set rows. open_ScanID row = i \<longrightarrow>
          open_ScanKind row = ScanUsageKindEndpoint \<or> \<not> isl (abandonedWalletAddress E row)))"

lemma isl_exists: "\<not> isl x \<Longrightarrow> \<exists>n. x = Inr n"
  by (cases x) auto

lemma round_records:
  assumes "abandonable i E" and "abandon_inv (a, hist)" and "i \<notin> ab_sent a"
  shows "ab_missingSince (fst (publishMissing E a)) i =
      Some (case ab_missingSince a i of None \<Rightarrow> ae_now E | Some t \<Rightarrow> t)"
    and "\<lbrakk>ab_missingSince a i = Some t; ab_Grace a \<le> time_Sub (ae_now E) t\<rbrakk> \<Longrightarrow>
      i \<in> ab_sent (fst (publishMissing E a))"
proof -
  obtain rows where r: "ae_open E = Inr rows" "ids_open E = open_ScanID ` set rows"
      "publishMissing E a = publish_loop E (snd (Due (ae_now E) rows (ids_queued E) a))
         (fst (Due (ae_now E) rows (ids_queued E) a))"
    using publishMissing_ok assms(1) unfolding abandonable_def by metis
  obtain a' acts err where p: "publishMissing E a = (a', acts, err)" by (metis prod_cases3)
  show "ab_missingSince (fst (publishMissing E a)) i =
      Some (case ab_missingSince a i of None \<Rightarrow> ae_now E | Some t \<Rightarrow> t)"
    using publish_loop_sel [OF p [unfolded r(3)]] assms(1,3) p r(2)
    by (simp add: Due_sel abandonable_def)
  assume t: "ab_missingSince a i = Some t" "ab_Grace a \<le> time_Sub (ae_now E) t"
  obtain row where row: "row \<in> set rows" "open_ScanID row = i"
    using assms(1) r(2) by (auto simp: abandonable_def)
  have "row \<in> set (snd (Due (ae_now E) rows (ids_queued E) a))"
    using Due_due [of a row "ae_now E" rows "ids_queued E"] assms row t
    by (simp add: abandon_inv_def abandonable_def)
  moreover have "open_ScanKind row = ScanUsageKindEndpoint \<or> (\<exists>n. abandonedWalletAddress E row = Inr n)"
    using assms(1) r(1) row isl_exists unfolding abandonable_def by blast
  ultimately show "i \<in> ab_sent (fst (publishMissing E a))"
    using publish_loop_live assms(1) row(2) unfolding r(3) abandonable_def by blast
qed

lemma round_keeps_sent:
  assumes "reads_ok E" and "i \<in> ids_open E" and "abandon_inv (a, hist)" and "i \<in> ab_sent a"
  shows "i \<in> ab_sent (fst (publishMissing E a))"
proof -
  obtain rows where r: "ids_open E = open_ScanID ` set rows"
      "publishMissing E a = publish_loop E (snd (Due (ae_now E) rows (ids_queued E) a))
         (fst (Due (ae_now E) rows (ids_queued E) a))"
    using publishMissing_ok [OF assms(1)] by metis
  obtain a' acts err where p: "publishMissing E a = (a', acts, err)" by (metis prod_cases3)
  have "i \<in> ab_sent (fst (Due (ae_now E) rows (ids_queued E) a))"
    using Due_sent [of a "ae_now E" rows "ids_queued E"] assms r(1) by (simp add: abandon_inv_def)
  then show ?thesis using publish_loop_sel [OF p [unfolded r(2)]] p by auto
qed

text \<open>Rounds in sequence.\<close>

definition run_rounds :: "round_env list \<Rightarrow> ScanRequestAbandoner \<Rightarrow> ScanRequestAbandoner" where
  "run_rounds Es a = fold (\<lambda>E a. fst (publishMissing E a)) Es a"

lemma run_inv:
  assumes "abandon_inv (a, hist)"
  shows "\<exists>hist'. abandon_inv (fst (publishMissing E a), hist')"
proof -
  obtain a' acts err where p: "publishMissing E a = (a', acts, err)" by (metis prod_cases3)
  show ?thesis
    using abandon_inv_step [OF abandon_step.round [OF p] assms]
      abandon_inv_step [OF abandon_step.failed_read [OF p] assms] p
    by (cases "reads_ok E") auto
qed

lemma round_Grace: "ab_Grace (fst (publishMissing E a)) = ab_Grace a"
proof (cases "reads_ok E")
  case True
  obtain a' acts err where p: "publishMissing E a = (a', acts, err)" by (metis prod_cases3)
  obtain rows where r: "publishMissing E a = publish_loop E (snd (Due (ae_now E) rows (ids_queued E) a))
         (fst (Due (ae_now E) rows (ids_queued E) a))"
    using publishMissing_ok [OF True] by metis
  show ?thesis using publish_loop_sel [OF p [unfolded r]] p by (simp add: Due_sel(1))
qed (simp add: publishMissing_failed)

lemma run_keeps:
  assumes "list_all (abandonable i) Es" and "abandon_inv (a, hist)"
    and "i \<in> ab_sent a \<or> ab_missingSince a i = Some t"
  shows "\<exists>hist'. abandon_inv (run_rounds Es a, hist')
    \<and> (i \<in> ab_sent (run_rounds Es a) \<or> ab_missingSince (run_rounds Es a) i = Some t)
    \<and> ab_Grace (run_rounds Es a) = ab_Grace a"
  using assms
proof (induction Es arbitrary: a hist)
  case (Cons E Es)
  obtain h where h: "abandon_inv (fst (publishMissing E a), h)" using run_inv Cons.prems(2) by blast
  have "i \<in> ab_sent (fst (publishMissing E a)) \<or> ab_missingSince (fst (publishMissing E a)) i = Some t"
  proof (cases "i \<in> ab_sent a")
    case True
    then show ?thesis using round_keeps_sent [OF _ _ Cons.prems(2)] Cons.prems(1)
      by (simp add: abandonable_def)
  next
    case False
    then show ?thesis using round_records(1) [OF _ Cons.prems(2) False] Cons.prems by simp
  qed
  then show ?case using Cons.IH [OF _ h] Cons.prems(1) by (simp add: run_rounds_def round_Grace)
qed (auto simp: run_rounds_def)

text \<open>An event is for a row that the round found due.\<close>

lemma published_due:
  assumes "ab_Grace a > 0" and "publishMissing E a = (a', acts, err)" and "Published js ev \<in> set acts"
  shows "\<exists>i t. fl_ScanID ev = uuid_String (ae_uuid E) i \<and> i \<in> ids_open E \<and> i \<notin> ids_queued E \<and> i \<notin> ab_sent a
    \<and> i \<in> ab_sent a' \<and> ab_missingSince a i = Some t \<and> ab_Grace a \<le> time_Sub (ae_now E) t"
proof -
  have ok: "reads_ok E" by (rule publish_reads_ok [OF assms(2,3)])
  obtain rows where r: "ids_open E = open_ScanID ` set rows"
      "publishMissing E a = publish_loop E (snd (Due (ae_now E) rows (ids_queued E) a))
         (fst (Due (ae_now E) rows (ids_queued E) a))"
    using publishMissing_ok [OF ok] by metis
  obtain row where row: "row \<in> set (snd (Due (ae_now E) rows (ids_queued E) a))"
      "open_ScanID row \<in> ab_sent a'" "fl_ScanID ev = uuid_String (ae_uuid E) (open_ScanID row)"
    using publish_loop_acts [OF assms(2) [unfolded r(2)] assms(3)] by blast
  obtain t where "row \<in> set rows" "open_ScanID row \<notin> ab_sent a" "open_ScanID row \<notin> ids_queued E"
      "ab_missingSince a (open_ScanID row) = Some t" "ab_Grace a \<le> time_Sub (ae_now E) t"
    using row(1) Due_due [OF assms(1)] by blast
  then show ?thesis using row r(1) by (intro exI [of _ "open_ScanID row"] exI [of _ t]) auto
qed

section \<open>Properties\<close>

text \<open>
  C11: a failure is published only for a scan that is really gone. Whenever a
  round publishes an event, the event is for a reservation that is open, not in
  the queue and not reported before, and that was absent from the queue in every
  round since one that lies at least the grace period back; the scan is marked
  as reported.  Wallet events go through JetStream, TLS events through core.
\<close>

theorem abandon_only_after_grace:
  assumes "reachable abandon_init abandon_step (a, hist)"
    and "publishMissing E a = (a', acts, err)" and "Published js ev \<in> set acts"
  shows "\<exists>i t0. fl_ScanID ev = uuid_String (ae_uuid E) i \<and> i \<in> ids_open E \<and> i \<notin> ids_queued E
    \<and> i \<notin> ab_sent a \<and> i \<in> ab_sent a' \<and> absent_since i t0 hist
    \<and> ab_Grace a \<le> time_Sub (ae_now E) t0 \<and> ab_Grace a > 0"
proof -
  have inv: "abandon_inv (a, hist)" by (rule abandoner.inv_reachable [OF assms(1)])
  then have g: "ab_Grace a > 0" by (simp add: abandon_inv_def)
  obtain i t where t: "fl_ScanID ev = uuid_String (ae_uuid E) i" "i \<in> ids_open E" "i \<notin> ids_queued E" "i \<notin> ab_sent a"
      "i \<in> ab_sent a'" "ab_missingSince a i = Some t" "ab_Grace a \<le> time_Sub (ae_now E) t"
    using published_due [OF g assms(2,3)] by blast
  have "absent_since i t hist" using inv t(4,6) by (simp add: abandon_inv_def)
  then show ?thesis using t g by blast
qed


text \<open>
  The credit of a lost scan is returned. If a reservation that is not yet
  tracked stays open, absent from the queue and publishable through a sequence
  of rounds whose last is at least the grace period after the first, the failure
  has been published by the end.
\<close>

lemma abandon_eventually:
  assumes "reachable abandon_init abandon_step (a, hist)"
    and "ab_missingSince a i = None" and "list_all (abandonable i) (E # Es @ [F])"
    and "ab_Grace a \<le> time_Sub (ae_now F) (ae_now E)"
  shows "i \<in> ab_sent (run_rounds (E # Es @ [F]) a)"
proof -
  have inv: "abandon_inv (a, hist)" by (rule abandoner.inv_reachable [OF assms(1)])
  have ns: "i \<notin> ab_sent a" using inv assms(2) by (auto simp: abandon_inv_def)
  let ?a1 = "fst (publishMissing E a)"
  obtain h1 where h1: "abandon_inv (?a1, h1)" using run_inv [OF inv] by blast
  have E: "abandonable i E" and F: "abandonable i F" and Es: "list_all (abandonable i) Es"
    using assms(3) by simp_all
  have "ab_missingSince ?a1 i = Some (ae_now E)"
    using round_records(1) [OF E inv ns] assms(2) by simp
  then obtain h2 where h2: "abandon_inv (run_rounds Es ?a1, h2)"
      and s: "i \<in> ab_sent (run_rounds Es ?a1) \<or> ab_missingSince (run_rounds Es ?a1) i = Some (ae_now E)"
      and g: "ab_Grace (run_rounds Es ?a1) = ab_Grace a"
    using run_keeps [OF Es h1, of "ae_now E"] by (auto simp: round_Grace)
  have "i \<in> ab_sent (fst (publishMissing F (run_rounds Es ?a1)))"
  proof (cases "i \<in> ab_sent (run_rounds Es ?a1)")
    case True
    then show ?thesis using round_keeps_sent [OF _ _ h2] F by (simp add: abandonable_def)
  next
    case False
    then show ?thesis using round_records(2) [OF F h2 False] s g assms(4) by simp
  qed
  then show ?thesis by (simp add: run_rounds_def)
qed

section \<open>Examples\<close>

text \<open>An endpoint reservation that is missing in every round, with a broker that accepts everything.\<close>

definition ex_row :: OpenScanReservation where
  "ex_row = \<lparr> open_ScanID = 2, open_UserID = 1, open_ScanKind = ScanUsageKindEndpoint, open_ConsumedAt = 1 \<rparr>"

definition ex_round :: "go_time \<Rightarrow> round_env" where
  "ex_round t = \<lparr> ae_payloads = Inr [], ae_open = Inr [ex_row], ae_now = t, ae_completed_at = '''',
     ae_scan_id = (\<lambda>_. None), ae_uuid = ex_uuid, ae_pending = None, ae_publish = (\<lambda>_ _. Inr ()) \<rparr>"

definition ex_tracked :: ScanRequestAbandoner where
  "ex_tracked = \<lparr> ab_Grace = seconds 120, ab_missingSince = [2 \<mapsto> seconds 1], ab_sent = {} \<rparr>"

definition ex_failed :: Failed where
  "ex_failed = \<lparr> fl_Kind = ''tls'', fl_ScanID = uuid_String ex_uuid 2, fl_UserID = uuid_String ex_uuid 1,
     fl_Address = '''', fl_Error = scanRequestLeftQueue, fl_CompletedAt = '''' \<rparr>"

lemma ex_round_sel [simp]:
  "ae_now (ex_round t) = t" "ids_open (ex_round t) = {2}" "ids_queued (ex_round t) = {}"
  "reads_ok (ex_round t)" "ae_uuid (ex_round t) = ex_uuid" "ae_open (ex_round t) = Inr [ex_row]"
  "ae_publish (ex_round t) js ev = Inr ()"
  by (simp_all add: ex_round_def ids_open_def ids_queued_def reads_ok_def ex_row_def scanIDsFromPayloads_def)

lemma ex_row_sel [simp]: "open_ScanID ex_row = 2" "open_ScanKind ex_row = ScanUsageKindEndpoint"
  by (simp_all add: ex_row_def)

lemma ex_abandonable: "abandonable 2 (ex_round t)"
  by (simp add: abandonable_def)

lemma ex_first: "publishMissing (ex_round (seconds 1)) (NewScanRequestAbandoner 0) = (ex_tracked, [], None)"
  by (simp add: publishMissing_def ex_round_def Due_alt NewScanRequestAbandoner_def forget_closed_def
      scanIDsFromPayloads_def ex_tracked_def scanRequestMissingGrace_def restrict_map_def fun_eq_iff)

lemma ex_second:
  "publishMissing (ex_round (seconds 200)) ex_tracked =
     (ex_tracked\<lparr>ab_sent := {2}\<rparr>, [Published False ex_failed], None)"
  by (simp add: publishMissing_def ex_round_def Due_alt forget_closed_def scanIDsFromPayloads_def
      ex_tracked_def restrict_map_def fun_eq_iff time_Sub_def seconds_def publishAbandonedScan_def
      ex_failed_def MarkSent_def ex_row_def)

lemma ex_reach0: "reachable abandon_init abandon_step (NewScanRequestAbandoner 0, [])"
  by (rule reachable.start) (auto simp: abandon_init_def)

lemma ex_reach1: "reachable abandon_init abandon_step (ex_tracked, [(seconds 1, {2}, {})])"
  using reachable.move [OF ex_reach0 abandon_step.round [OF ex_first]] by simp

lemma ex_reach2: "reachable abandon_init abandon_step
  (ex_tracked\<lparr>ab_sent := {2}\<rparr>, [(seconds 200, {2}, {}), (seconds 1, {2}, {})])"
  using reachable.move [OF ex_reach1 abandon_step.round [OF ex_second]] by simp

theorem abandon_only_after_grace_witness:
  "\<exists>i t0. fl_ScanID ex_failed = uuid_String ex_uuid i \<and> absent_since i t0 [(seconds 1, {2}, {})]
     \<and> ab_Grace ex_tracked \<le> time_Sub (seconds 200) t0"
  using abandon_only_after_grace [OF ex_reach1 ex_second, of False ex_failed] by auto


lemma abandon_eventually_witness:
  "2 \<in> ab_sent (run_rounds [ex_round (seconds 1), ex_round (seconds 200)] (NewScanRequestAbandoner 0))"
  using abandon_eventually [OF ex_reach0, of 2 "ex_round (seconds 1)" "[]" "ex_round (seconds 200)"]
    ex_abandonable
  by (simp add: NewScanRequestAbandoner_def scanRequestMissingGrace_def seconds_def time_Sub_def)

end
