(* ===== verification/Repositories.thy ===== *)
theory Repositories
  imports Relational_Store
begin

text \<open>
  The repositories under \<open>src/internal/repository\<close> other than the ledger: the
  generic \<open>baseRepository\<close>, and those of the plans, users, wallets and scan
  results, over the relational store.  GORM leaves out soft-deleted rows, adds
  the primary key to the order of \<open>First\<close>, ignores an \<open>Offset\<close> that is not
  positive and a \<open>Limit\<close> below zero, stamps created and updated rows with the
  current time \<open>now\<close>, and reports an empty \<open>First\<close> as \<open>ErrRecordNotFound\<close>.  Rows
  that an order does not separate are given in insertion order.
\<close>

section \<open>Queries\<close>

definition ErrRecordNotFound :: goerr where
  "ErrRecordNotFound = ErrNew ''record not found''"

definition ErrDuplicatedKey :: goerr where
  "ErrDuplicatedKey = ErrNew ''duplicate key value violates unique constraint''"

text \<open>\<open>query.First(&x)\<close>, with the rows already in order.\<close>

definition gorm_First :: "(db \<Rightarrow> 'a list) \<Rightarrow> 'a stm" where
  "gorm_First f = dbind (sql_query f) (\<lambda>rows.
     case rows of [] \<Rightarrow> dfail ErrRecordNotFound | x # _ \<Rightarrow> dreturn x)"

text \<open>\<open>First\<close> followed by the branch that turns a missing record into nil.\<close>

definition first_or_nil :: "(db \<Rightarrow> 'a list) \<Rightarrow> 'a option stm" where
  "first_or_nil f d = (case gorm_First f d of
     (Inl e, d') \<Rightarrow> if errors_Is e ErrRecordNotFound then (Inr None, d') else (Inl e, d')
   | (Inr x, d') \<Rightarrow> (Inr (Some x), d'))"

text \<open>The same with the comparison \<open>err == gorm.ErrRecordNotFound\<close>.\<close>

definition first_or_nil_eq :: "(db \<Rightarrow> 'a list) \<Rightarrow> 'a option stm" where
  "first_or_nil_eq f d = (case gorm_First f d of
     (Inl e, d') \<Rightarrow> if e = ErrRecordNotFound then (Inr None, d') else (Inl e, d')
   | (Inr x, d') \<Rightarrow> (Inr (Some x), d'))"

definition gorm_Limit :: "int \<Rightarrow> 'a list \<Rightarrow> 'a list" where
  "gorm_Limit n xs = (if n < 0 then xs else take (nat n) xs)"

definition gorm_Offset :: "int \<Rightarrow> 'a list \<Rightarrow> 'a list" where
  "gorm_Offset n xs = (if n > 0 then drop (nat n) xs else xs)"

section \<open>The generic repository\<close>

text \<open>What \<open>baseRepository[T]\<close> uses of the entity type \<open>T\<close>.\<close>

record 't entity =
  ent_rows :: "db \<Rightarrow> 't list"
  ent_store :: "'t list \<Rightarrow> db \<Rightarrow> db"
  ent_ID :: "'t \<Rightarrow> uuid"
  ent_UserID :: "'t \<Rightarrow> uuid option"
  ent_CreatedAt :: "'t \<Rightarrow> go_time"
  ent_DeletedAt :: "'t \<Rightarrow> go_time option"
  ent_stamp :: "uuid \<Rightarrow> go_time \<Rightarrow> 't \<Rightarrow> 't"

definition live :: "'t entity \<Rightarrow> db \<Rightarrow> 't list" where
  "live T d = filter (\<lambda>x. ent_DeletedAt T x = None) (ent_rows T d)"

definition by_id :: "'t entity \<Rightarrow> 't list \<Rightarrow> 't list" where
  "by_id T xs = sort_key (\<lambda>x. uint (ent_ID T x)) xs"

definition newest :: "'t entity \<Rightarrow> 't list \<Rightarrow> 't list" where
  "newest T xs = sort_key (\<lambda>x. - ent_CreatedAt T x) xs"

definition newest_by_id :: "'t entity \<Rightarrow> 't list \<Rightarrow> 't list" where
  "newest_by_id T xs = sort_key (\<lambda>x. (- ent_CreatedAt T x, uint (ent_ID T x))) xs"

definition newest_by_id_desc :: "'t entity \<Rightarrow> 't list \<Rightarrow> 't list" where
  "newest_by_id_desc T xs = sort_key (\<lambda>x. (- ent_CreatedAt T x, - uint (ent_ID T x))) xs"

definition base_create :: "'t entity \<Rightarrow> uuid \<Rightarrow> go_time \<Rightarrow> 't \<Rightarrow> unit stm" where
  "base_create T fresh now x =
     (let x' = ent_stamp T fresh now x in
      sql_change (\<lambda>d. if ent_ID T x' \<in> ent_ID T ` set (ent_rows T d) then Inl ErrDuplicatedKey
                      else Inr (ent_store T (ent_rows T d @ [x']) d)))"

definition base_findByUserID :: "'t entity \<Rightarrow> uuid \<Rightarrow> int \<Rightarrow> int \<Rightarrow> 't list stm" where
  "base_findByUserID T userID limit offset =
     sql_query (\<lambda>d. let q = newest T (filter (\<lambda>x. ent_UserID T x = Some userID) (live T d));
                        r = (if offset > 0 then gorm_Offset offset q else q)
                    in if limit > 0 then gorm_Limit limit r else r)"

definition base_findByUserIDWithResults :: "'t entity \<Rightarrow> uuid \<Rightarrow> int \<Rightarrow> int \<Rightarrow> 't list stm" where
  "base_findByUserIDWithResults = base_findByUserID"

definition base_findByID :: "'t entity \<Rightarrow> uuid \<Rightarrow> 't option stm" where
  "base_findByID T i = first_or_nil (\<lambda>d. by_id T (filter (\<lambda>x. ent_ID T x = i) (live T d)))"

definition base_countByUserID :: "'t entity \<Rightarrow> uuid \<Rightarrow> int stm" where
  "base_countByUserID T userID =
     sql_query (\<lambda>d. int (length (filter (\<lambda>x. ent_UserID T x = Some userID) (live T d))))"

definition base_findByUserIDAndField :: "'t entity \<Rightarrow> uuid \<Rightarrow> ('t \<Rightarrow> string) \<Rightarrow> string \<Rightarrow> 't option stm" where
  "base_findByUserIDAndField T userID field v =
     first_or_nil (\<lambda>d. newest_by_id T
       (filter (\<lambda>x. ent_UserID T x = Some userID \<and> field x = v) (live T d)))"

definition scan_entity :: "ScanResultEntity entity" where
  "scan_entity = \<lparr> ent_rows = scan_results, ent_store = (\<lambda>xs d. d\<lparr>scan_results := xs\<rparr>),
     ent_ID = sr_ID, ent_UserID = (\<lambda>s. Some (sr_UserID s)), ent_CreatedAt = sr_CreatedAt,
     ent_DeletedAt = sr_DeletedAt,
     ent_stamp = (\<lambda>fresh now s. let s = ScanResult_BeforeCreate fresh s in
       s\<lparr>sr_CreatedAt := (if IsZero (sr_CreatedAt s) then now else sr_CreatedAt s),
         sr_UpdatedAt := (if IsZero (sr_UpdatedAt s) then now else sr_UpdatedAt s)\<rparr>) \<rparr>"

definition tls_entity :: "TLSScanResultEntity entity" where
  "tls_entity = \<lparr> ent_rows = tls_scan_results, ent_store = (\<lambda>xs d. d\<lparr>tls_scan_results := xs\<rparr>),
     ent_ID = ts_ID, ent_UserID = ts_UserID, ent_CreatedAt = ts_CreatedAt,
     ent_DeletedAt = ts_DeletedAt,
     ent_stamp = (\<lambda>fresh now t. let t = TLSScanResult_BeforeCreate fresh t in
       t\<lparr>ts_CreatedAt := (if IsZero (ts_CreatedAt t) then now else ts_CreatedAt t),
         ts_UpdatedAt := (if IsZero (ts_UpdatedAt t) then now else ts_UpdatedAt t)\<rparr>) \<rparr>"

section \<open>Wallet scan results\<close>

definition ScanResult_Create :: "uuid \<Rightarrow> go_time \<Rightarrow> ScanResultEntity \<Rightarrow> unit stm" where
  "ScanResult_Create = base_create scan_entity"

definition ScanResult_FindByUserID :: "uuid \<Rightarrow> int \<Rightarrow> int \<Rightarrow> ScanResultEntity list stm" where
  "ScanResult_FindByUserID = base_findByUserIDWithResults scan_entity"

definition ScanResult_FindByID :: "uuid \<Rightarrow> ScanResultEntity option stm" where
  "ScanResult_FindByID = base_findByID scan_entity"

definition FindOwnedWalletScanByID :: "uuid \<Rightarrow> uuid \<Rightarrow> ScanResultEntity option stm" where
  "FindOwnedWalletScanByID userID scanID =
     first_or_nil (\<lambda>d. by_id scan_entity
       (filter (\<lambda>s. sr_ID s = scanID \<and> sr_UserID s = userID) (live scan_entity d)))"

definition owned_wallet_scan :: "uuid \<Rightarrow> uuid \<Rightarrow> ScanResultEntity \<Rightarrow> bool" where
  "owned_wallet_scan userID scanID s \<longleftrightarrow>
     sr_ID s = scanID \<and> sr_UserID s = userID \<and> sr_DeletedAt s = None"

definition mark_wallet_scan :: "go_time \<Rightarrow> uuid \<Rightarrow> uuid \<Rightarrow> ScanResultEntity \<Rightarrow> ScanResultEntity" where
  "mark_wallet_scan now userID scanID s =
     (if owned_wallet_scan userID scanID s then s\<lparr>sr_DeletedAt := Some now\<rparr> else s)"

definition DeleteOwnedWalletScan :: "go_time \<Rightarrow> uuid \<Rightarrow> uuid \<Rightarrow> bool stm" where
  "DeleteOwnedWalletScan now userID scanID =
     sql_exec (\<lambda>d. (length (filter (owned_wallet_scan userID scanID) (scan_results d)) > 0,
       d\<lparr>scan_results := map (mark_wallet_scan now userID scanID) (scan_results d)\<rparr>))"

definition wallet_scan_matches :: "uuid \<Rightarrow> string \<Rightarrow> ScanResultEntity \<Rightarrow> bool" where
  "wallet_scan_matches userID address s \<longleftrightarrow> sr_UserID s = userID
     \<and> (TrimSpace address \<noteq> '''' \<longrightarrow> ToLower (sr_Address s) = ToLower (TrimSpace address))"

definition ListOwnerWalletScansDiscoveryV1 ::
  "uuid \<Rightarrow> string \<Rightarrow> int \<Rightarrow> int \<Rightarrow> (ScanResultEntity list \<times> int) stm" where
  "ListOwnerWalletScansDiscoveryV1 userID address limit offset =
     dbind (sql_query (\<lambda>d. int (length (filter (wallet_scan_matches userID address) (live scan_entity d)))))
       (\<lambda>total.
     dbind (sql_query (\<lambda>d. gorm_Limit limit (gorm_Offset offset (newest_by_id_desc scan_entity
              (filter (wallet_scan_matches userID address) (live scan_entity d))))))
       (\<lambda>out. dreturn (out, total)))"

definition ListOwnerWalletScansByAddress :: "uuid \<Rightarrow> string \<Rightarrow> ScanResultEntity list stm" where
  "ListOwnerWalletScansByAddress userID address =
     sql_query (\<lambda>d. newest_by_id_desc scan_entity
       (filter (\<lambda>s. sr_UserID s = userID \<and> ToLower (sr_Address s) = ToLower (TrimSpace address))
          (live scan_entity d)))"

definition ScanResult_CountByUserID :: "uuid \<Rightarrow> int stm" where
  "ScanResult_CountByUserID = base_countByUserID scan_entity"

section \<open>TLS scan results\<close>

definition TLSScanResult_Create :: "uuid \<Rightarrow> go_time \<Rightarrow> TLSScanResultEntity \<Rightarrow> unit stm" where
  "TLSScanResult_Create = base_create tls_entity"

definition TLSScanResult_FindByUserID :: "uuid \<Rightarrow> int \<Rightarrow> int \<Rightarrow> TLSScanResultEntity list stm" where
  "TLSScanResult_FindByUserID = base_findByUserIDWithResults tls_entity"

definition TLSScanResult_FindByID :: "uuid \<Rightarrow> TLSScanResultEntity option stm" where
  "TLSScanResult_FindByID = base_findByID tls_entity"

definition FindDefaultTLSScanByID :: "uuid \<Rightarrow> TLSScanResultEntity option stm" where
  "FindDefaultTLSScanByID scanID =
     first_or_nil (\<lambda>d. by_id tls_entity
       (filter (\<lambda>t. ts_ID t = scanID \<and> ts_Default t = True) (live tls_entity d)))"

definition FindOwnedUserTLSScanByID :: "uuid \<Rightarrow> uuid \<Rightarrow> TLSScanResultEntity option stm" where
  "FindOwnedUserTLSScanByID userID scanID =
     first_or_nil (\<lambda>d. by_id tls_entity
       (filter (\<lambda>t. ts_ID t = scanID \<and> ts_UserID t = Some userID \<and> ts_Default t = False)
          (live tls_entity d)))"

definition owned_tls_scan :: "uuid \<Rightarrow> uuid \<Rightarrow> TLSScanResultEntity \<Rightarrow> bool" where
  "owned_tls_scan userID scanID t \<longleftrightarrow> ts_ID t = scanID \<and> ts_UserID t = Some userID
     \<and> ts_Default t = False \<and> ts_DeletedAt t = None"

definition DeleteOwnedUserTLSScan :: "go_time \<Rightarrow> uuid \<Rightarrow> uuid \<Rightarrow> bool stm" where
  "DeleteOwnedUserTLSScan now userID scanID =
     sql_exec (\<lambda>d. (length (filter (owned_tls_scan userID scanID) (tls_scan_results d)) > 0,
       d\<lparr>tls_scan_results := map (\<lambda>t. if owned_tls_scan userID scanID t
            then t\<lparr>ts_DeletedAt := Some now\<rparr> else t) (tls_scan_results d)\<rparr>))"

definition ListOwnerUserTLSScansDiscoveryV1 ::
  "uuid \<Rightarrow> int \<Rightarrow> int \<Rightarrow> (TLSScanResultEntity list \<times> int) stm" where
  "ListOwnerUserTLSScansDiscoveryV1 userID limit offset =
     dbind (sql_query (\<lambda>d. int (length (filter
              (\<lambda>t. ts_UserID t = Some userID \<and> ts_Default t = False) (live tls_entity d))))) (\<lambda>total.
     dbind (sql_query (\<lambda>d. gorm_Limit limit (gorm_Offset offset (newest_by_id_desc tls_entity
              (filter (\<lambda>t. ts_UserID t = Some userID \<and> ts_Default t = False) (live tls_entity d))))))
       (\<lambda>out. dreturn (out, total)))"

definition FindByUserIDAndURL :: "uuid \<Rightarrow> string \<Rightarrow> TLSScanResultEntity option stm" where
  "FindByUserIDAndURL userID url = base_findByUserIDAndField tls_entity userID ts_URL url"

definition FindByURL :: "string \<Rightarrow> TLSScanResultEntity option stm" where
  "FindByURL url = first_or_nil_eq (\<lambda>d. newest_by_id tls_entity
     (filter (\<lambda>t. ts_URL t = url) (live tls_entity d)))"

definition FindDefaultByURL :: "string \<Rightarrow> TLSScanResultEntity option stm" where
  "FindDefaultByURL url = first_or_nil_eq (\<lambda>d. newest_by_id tls_entity
     (filter (\<lambda>t. ts_URL t = url \<and> ts_Default t = True) (live tls_entity d)))"

definition FindByUserIDOrDefault :: "uuid \<Rightarrow> int \<Rightarrow> int \<Rightarrow> TLSScanResultEntity list stm" where
  "FindByUserIDOrDefault userID limit offset =
     sql_query (\<lambda>d. let q = newest tls_entity
                          (filter (\<lambda>t. ts_UserID t = Some userID \<or> ts_Default t = True) (live tls_entity d));
                        r = (if offset > 0 then gorm_Offset offset q else q)
                    in if limit > 0 then gorm_Limit limit r else r)"

definition FindAllDefault :: "TLSScanResultEntity list stm" where
  "FindAllDefault = sql_query (\<lambda>d. newest tls_entity
     (filter (\<lambda>t. ts_Default t = True) (live tls_entity d)))"

definition TLSScanResult_CountByUserID :: "uuid \<Rightarrow> int stm" where
  "TLSScanResult_CountByUserID = base_countByUserID tls_entity"

definition CountByUserIDOrDefault :: "uuid \<Rightarrow> int stm" where
  "CountByUserIDOrDefault userID =
     sql_query (\<lambda>d. int (length (filter (\<lambda>t. ts_UserID t = Some userID \<or> ts_Default t = True)
       (live tls_entity d))))"

section \<open>Plans\<close>

text \<open>The order of a price column: the numeric order of the bit patterns of finite doubles.\<close>

definition float_key :: "float64 \<Rightarrow> int" where
  "float_key x = (if uint x < 2 ^ 63 then uint x else 2 ^ 63 - uint x)"

definition live_plans :: "db \<Rightarrow> Plan list" where
  "live_plans d = filter (\<lambda>p. plan_DeletedAt p = None) (db_plans d)"

text \<open>
  \<open>is_active\<close> has the column default \<open>true\<close>, which GORM puts in place of the zero value
  of the field, in the row and in the caller's struct: a plan is never created inactive.
\<close>

definition plan_row :: "uuid \<Rightarrow> go_time \<Rightarrow> Plan \<Rightarrow> Plan" where
  "plan_row fresh now p =
     (let p0 = Plan_BeforeCreate fresh p in
      p0\<lparr>plan_IsActive := (if plan_IsActive p0 then plan_IsActive p0 else True),
         plan_CreatedAt := (if IsZero (plan_CreatedAt p0) then now else plan_CreatedAt p0),
         plan_UpdatedAt := (if IsZero (plan_UpdatedAt p0) then now else plan_UpdatedAt p0)\<rparr>)"

definition Plan_Create :: "uuid \<Rightarrow> go_time \<Rightarrow> Plan \<Rightarrow> Plan stm" where
  "Plan_Create fresh now p =
     (let p' = plan_row fresh now p in
      dbind (sql_change (\<lambda>d. if plan_ID p' \<in> plan_ID ` set (db_plans d) \<or> plan_Name p' \<in> plan_Name ` set (db_plans d)
                      then Inl ErrDuplicatedKey else Inr (d\<lparr>db_plans := db_plans d @ [p']\<rparr>)))
        (\<lambda>_. dreturn p'))"

definition Plan_FindByID :: "uuid \<Rightarrow> Plan option stm" where
  "Plan_FindByID i = first_or_nil (\<lambda>d. sort_key (\<lambda>p. uint (plan_ID p))
     (filter (\<lambda>p. plan_ID p = i) (live_plans d)))"

definition Plan_FindByType :: "string \<Rightarrow> Plan option stm" where
  "Plan_FindByType planType = first_or_nil (\<lambda>d. sort_key (\<lambda>p. uint (plan_ID p))
     (filter (\<lambda>p. plan_Type p = planType \<and> plan_IsActive p = True) (live_plans d)))"

definition Plan_FindAll :: "Plan list stm" where
  "Plan_FindAll = sql_query (\<lambda>d. sort_key (\<lambda>p. float_key (plan_Price p)) (live_plans d))"

definition Plan_FindActive :: "Plan list stm" where
  "Plan_FindActive = sql_query (\<lambda>d. sort_key (\<lambda>p. float_key (plan_Price p))
     (filter (\<lambda>p. plan_IsActive p = True) (live_plans d)))"

section \<open>Users\<close>

definition live_users :: "db \<Rightarrow> User list" where
  "live_users d = filter (\<lambda>u. user_DeletedAt u = None) (db_users d)"

text \<open>The row \<open>Create\<close> writes, which is also what the caller's struct holds afterwards.\<close>

definition user_row :: "uuid \<Rightarrow> go_time \<Rightarrow> User \<Rightarrow> User" where
  "user_row fresh now u =
     (let u0 = User_BeforeCreate fresh u in
      u0\<lparr>user_CreatedAt := (if IsZero (user_CreatedAt u0) then now else user_CreatedAt u0),
         user_UpdatedAt := (if IsZero (user_UpdatedAt u0) then now else user_UpdatedAt u0)\<rparr>)"

definition User_Create :: "uuid \<Rightarrow> go_time \<Rightarrow> User \<Rightarrow> User stm" where
  "User_Create fresh now u =
     (let u' = user_row fresh now u in
      dbind (sql_change (\<lambda>d. if user_ID u' \<in> user_ID ` set (db_users d) \<or> user_Email u' \<in> user_Email ` set (db_users d)
                      then Inl ErrDuplicatedKey else Inr (d\<lparr>db_users := db_users d @ [u']\<rparr>)))
        (\<lambda>_. dreturn u'))"

definition User_FindByEmail :: "string \<Rightarrow> User option stm" where
  "User_FindByEmail email = first_or_nil (\<lambda>d. sort_key (\<lambda>u. uint (user_ID u))
     (filter (\<lambda>u. user_Email u = email) (live_users d)))"

text \<open>The key columns hold the canonical text of the identifier, which is what \<open>id = ?\<close> compares.\<close>

definition User_FindByID :: "uuid_pkg \<Rightarrow> string \<Rightarrow> User option stm" where
  "User_FindByID U i = first_or_nil (\<lambda>d. sort_key (\<lambda>u. uint (user_ID u))
     (filter (\<lambda>u. uuid_String U (user_ID u) = i) (live_users d)))"

definition ExistsByEmail :: "string \<Rightarrow> bool stm" where
  "ExistsByEmail email =
     dbind (sql_query (\<lambda>d. length (filter (\<lambda>u. user_Email u = email) (live_users d))))
       (\<lambda>count. dreturn (count > 0))"

section \<open>What the queries return\<close>

lemma live_tables [simp]:
  "live scan_entity (tables d) = live scan_entity d" "live tls_entity (tables d) = live tls_entity d"
  "live_plans (tables d) = live_plans d" "live_users (tables d) = live_users d"
  by (simp_all add: live_def scan_entity_def tls_entity_def live_plans_def live_users_def)

lemma entity_sel [simp]:
  "ent_rows scan_entity = scan_results" "ent_ID scan_entity = sr_ID"
  "ent_CreatedAt scan_entity = sr_CreatedAt" "ent_DeletedAt scan_entity = sr_DeletedAt"
  "ent_UserID scan_entity = (\<lambda>s. Some (sr_UserID s))"
  "ent_rows tls_entity = tls_scan_results" "ent_ID tls_entity = ts_ID"
  "ent_CreatedAt tls_entity = ts_CreatedAt" "ent_DeletedAt tls_entity = ts_DeletedAt"
  "ent_UserID tls_entity = ts_UserID"
  by (simp_all add: scan_entity_def tls_entity_def)

lemma set_orders [simp]:
  "set (by_id T xs) = set xs" "set (newest T xs) = set xs" "set (newest_by_id T xs) = set xs"
  "set (newest_by_id_desc T xs) = set xs"
  by (simp_all add: by_id_def newest_def newest_by_id_def newest_by_id_desc_def)

lemma length_newest_by_id_desc [simp]: "length (newest_by_id_desc T xs) = length xs"
  by (simp add: newest_by_id_desc_def)

lemma set_live: "x \<in> set (live T d) \<longleftrightarrow> x \<in> set (ent_rows T d) \<and> ent_DeletedAt T x = None"
  by (auto simp: live_def)

lemma first_or_nil_tables: "first_or_nil f d = (r, d') \<Longrightarrow> tables d' = tables d"
  by (auto simp: first_or_nil_def gorm_First_def dbind_def sql_query_def next_fault_def dreturn_def
      dfail_def split: prod.splits sum.splits option.splits list.splits if_splits)

lemma first_or_nil_Some:
  assumes "first_or_nil f d = (Inr (Some x), d')"
  shows "\<exists>xs. f d = x # xs"
  using assms
  by (auto simp: first_or_nil_def gorm_First_def dbind_def sql_query_def dreturn_def dfail_def
      split: prod.splits sum.splits option.splits list.splits if_splits)

lemma first_or_nil_filter:
  assumes "first_or_nil (\<lambda>d. sort_key key (filter P (g d))) d = (Inr (Some x), d')"
  shows "x \<in> set (g d) \<and> P x"
proof -
  obtain xs where "sort_key key (filter P (g d)) = x # xs" using first_or_nil_Some [OF assms] ..
  then have "x \<in> set (sort_key key (filter P (g d)))" by simp
  then show ?thesis by simp
qed

definition first_of :: "'a list \<Rightarrow> 'a option" where
  "first_of xs = (case xs of [] \<Rightarrow> None | x # _ \<Rightarrow> Some x)"

lemma first_or_nil_calm [simp]:
  "db_faults d = [] \<Longrightarrow> first_or_nil f d = (Inr (first_of (f d)), d)"
  by (simp add: first_or_nil_def gorm_First_def dbind_def dreturn_def dfail_def first_of_def
      split: list.splits)

lemma first_of_None [simp]: "first_of xs = None \<longleftrightarrow> xs = []"
  by (simp add: first_of_def split: list.split)

lemma first_of_simps [simp]: "first_of [] = None" "first_of (x # xs) = Some x"
  by (simp_all add: first_of_def)

lemma first_of_in: "first_of xs = Some x \<Longrightarrow> x \<in> set xs"
  by (auto simp: first_of_def split: list.splits)

section \<open>Pages\<close>

lemma gorm_page:
  "0 \<le> limit \<Longrightarrow> 0 \<le> offset \<Longrightarrow>
     gorm_Limit limit (gorm_Offset offset xs) = take (nat limit) (drop (nat offset) xs)"
  by (simp add: gorm_Limit_def gorm_Offset_def)

lemma concat_pages:
  "concat (map (\<lambda>i. take n (drop (i * n) xs)) [0..<k]) = take (k * n) xs"
proof (induction k)
  case (Suc k)
  then show ?case by (simp add: take_add [symmetric] add.commute)
qed simp

text \<open>The wallet scans of an owner, in the order of the list endpoint.\<close>

definition owner_wallet_scans :: "uuid \<Rightarrow> string \<Rightarrow> db \<Rightarrow> ScanResultEntity list" where
  "owner_wallet_scans u a d = newest_by_id_desc scan_entity
     (filter (wallet_scan_matches u a) (live scan_entity d))"

lemma List_wallet_calm:
  assumes "db_faults d = []"
  shows "ListOwnerWalletScansDiscoveryV1 u a limit offset d =
     (Inr (gorm_Limit limit (gorm_Offset offset (owner_wallet_scans u a d)),
           int (length (owner_wallet_scans u a d))), d)"
  using assms
  by (simp add: ListOwnerWalletScansDiscoveryV1_def owner_wallet_scans_def dbind_def dreturn_def)


text \<open>Example rows: a wallet scan of user 1 and a database that holds two of them.\<close>

definition ex_scan :: "uuid \<Rightarrow> go_time \<Rightarrow> ScanResultEntity" where
  "ex_scan i created = \<lparr> sr_ID = i, sr_UserID = 1, sr_Address = ''0xab'', sr_Type = ''EOA'',
     sr_Algorithm = '''', sr_NISTLevel = 1, sr_KeyExposed = False, sr_PublicKey = '''',
     sr_TransactionHash = '''', sr_ExposedNetwork = '''', sr_PublicKeyRecovery = '''',
     sr_IsEOA = True, sr_IsERC4337 = False, sr_RiskScore = 0, sr_Networks = '''',
     sr_Delegations = '''', sr_Connections = '''', sr_Status = ''SUCCESS'', sr_Error = '''',
     sr_ScannedAt = None, sr_CreatedAt = created, sr_UpdatedAt = created, sr_DeletedAt = None \<rparr>"

definition ex_scan_db :: db where
  "ex_scan_db = \<lparr> db_dialect = ''postgres'', usage_events = [],
     scan_results = [ex_scan 2 10, ex_scan 3 20], tls_scan_results = [],
     db_plans = [], db_users = [], db_wallets = [], db_locks = [], db_faults = [] \<rparr>"


lemma mark_not_owned: "\<not> owned_wallet_scan u i (mark_wallet_scan now u i s)"
  by (simp add: mark_wallet_scan_def owned_wallet_scan_def)

lemma mark_sel:
  "sr_ID (mark_wallet_scan now u i s) = sr_ID s" "sr_UserID (mark_wallet_scan now u i s) = sr_UserID s"
  "\<not> (sr_ID s = i \<and> sr_UserID s = u) \<Longrightarrow> mark_wallet_scan now u i s = s"
  unfolding mark_wallet_scan_def owned_wallet_scan_def by (simp, simp, metis)

text \<open>
  Deleting a wallet scan reports whether the owner had it, marks exactly
  that row, keeps every other row and table, and afterwards the owner's lookup
  finds nothing; a second deletion reports that there was nothing to delete.
\<close>

theorem delete_wallet_scan_exact:
  assumes "DeleteOwnedWalletScan now u i d = (Inr b, d')" and "db_faults d' = []"
  shows "(b \<longleftrightarrow> (\<exists>s \<in> set (scan_results d). owned_wallet_scan u i s))
    \<and> filter (\<lambda>s. \<not> (sr_ID s = i \<and> sr_UserID s = u)) (scan_results d')
        = filter (\<lambda>s. \<not> (sr_ID s = i \<and> sr_UserID s = u)) (scan_results d)
    \<and> tables (d'\<lparr>scan_results := scan_results d\<rparr>) = tables d
    \<and> FindOwnedWalletScanByID u i d' = (Inr None, d')
    \<and> fst (DeleteOwnedWalletScan now u i d') = Inr False"
proof -
  let ?f = "mark_wallet_scan now u i"
  obtain d0 where t: "tables d0 = tables d"
      and d': "d' = d0\<lparr>scan_results := map ?f (scan_results d0)\<rparr>"
      and b: "b = (length (filter (owned_wallet_scan u i) (scan_results d0)) > 0)"
    using sql_exec_Inr [OF assms(1) [unfolded DeleteOwnedWalletScan_def]] by auto
  have rows: "scan_results d' = map ?f (scan_results d)" using d' t by (simp add: tables_eq_iff)
  have none: "\<not> owned_wallet_scan u i s" if "s \<in> set (scan_results d')" for s
    using that mark_not_owned unfolding rows set_map by blast
  have "filter (\<lambda>s. sr_ID s = i \<and> sr_UserID s = u) (live scan_entity d') = []"
    using none unfolding filter_empty_conv live_def owned_wallet_scan_def entity_sel set_filter by blast
  then have "FindOwnedWalletScanByID u i d' = (Inr None, d')"
    using assms(2) by (simp add: FindOwnedWalletScanByID_def by_id_def)
  moreover have "fst (DeleteOwnedWalletScan now u i d') = Inr False"
    using assms(2) none by (simp add: DeleteOwnedWalletScan_def filter_empty_conv)
  moreover have "b \<longleftrightarrow> (\<exists>s \<in> set (scan_results d). owned_wallet_scan u i s)"
    using b t by (simp add: tables_eq_iff filter_empty_conv)
  moreover have "filter (\<lambda>s. \<not> (sr_ID s = i \<and> sr_UserID s = u)) (map ?f xs)
      = filter (\<lambda>s. \<not> (sr_ID s = i \<and> sr_UserID s = u)) xs" for xs
    by (induction xs) (simp_all add: mark_sel)
  ultimately show ?thesis using rows t d' by (simp add: tables_eq_iff)
qed

theorem delete_wallet_scan_exact_witness:
  "fst (DeleteOwnedWalletScan 30 1 2 ex_scan_db) = Inr True
   \<and> fst (FindOwnedWalletScanByID 1 2 (snd (DeleteOwnedWalletScan 30 1 2 ex_scan_db))) = Inr None"
proof -
  have b: "DeleteOwnedWalletScan 30 1 2 ex_scan_db =
     (Inr True, ex_scan_db\<lparr>scan_results := [(ex_scan 2 10)\<lparr>sr_DeletedAt := Some 30\<rparr>, ex_scan 3 20]\<rparr>)"
    by (simp add: DeleteOwnedWalletScan_def sql_exec_def next_fault_def ex_scan_db_def ex_scan_def
        owned_wallet_scan_def mark_wallet_scan_def)
  show ?thesis using b delete_wallet_scan_exact [OF b] by (simp add: ex_scan_db_def)
qed

end
