(* ===== verification/Http_Model.thy ===== *)
theory Http_Model
  imports Go_Strings
begin

text \<open>
  The request and the response of a Fiber handler.  A response body is a value of
  \<open>gval\<close>, the Go values the handlers put in a \<open>fiber.Map\<close>; a map is an
  association list.  \<open>c.JSON\<close> writes the body and returns a nil error, which is
  what \<open>encoding/json\<close> does on these values.  Reading the request (headers, path
  and query parameters, the value of \<open>fiber.Query\<close> with its default) is Fiber's:
  functions of the request record.
\<close>

datatype gval =
    GNil
  | GBool bool
  | GInt int
  | GFloat float64
  | GStr string
  | GTime go_time
  | GList "gval list"
  | GMap "(string \<times> gval) list"

type_synonym gmap = "(string \<times> gval) list"

text \<open>A value under \<open>c.Locals("user_id")\<close>: a \<open>uuid.UUID\<close> or something else.\<close>

datatype local_value = LUUID uuid | LOther

record ctx =
  req_Get :: "string \<Rightarrow> string"
  req_Params :: "string \<Rightarrow> string"
  req_Query :: "string \<Rightarrow> string"
  req_QueryInt :: "string \<Rightarrow> int \<Rightarrow> int"
  req_QueryKeys :: "string list"
  loc_user_id :: "local_value option"
  loc_user_email :: "string option"
  resp_status :: int
  resp_body :: "gval option"
  resp_headers :: "(string \<times> string) list"

definition ctx_Status :: "int \<Rightarrow> ctx \<Rightarrow> ctx" where
  "ctx_Status s c = c\<lparr>resp_status := s\<rparr>"

definition ctx_JSON :: "gval \<Rightarrow> ctx \<Rightarrow> goerr option \<times> ctx" where
  "ctx_JSON b c = (None, c\<lparr>resp_body := Some b\<rparr>)"

definition ctx_SendStatus :: "int \<Rightarrow> ctx \<Rightarrow> goerr option \<times> ctx" where
  "ctx_SendStatus s c = (None, c\<lparr>resp_status := s\<rparr>)"

definition ctx_Set :: "string \<Rightarrow> string \<Rightarrow> ctx \<Rightarrow> ctx" where
  "ctx_Set k v c = c\<lparr>resp_headers := (k, v) # resp_headers c\<rparr>"

abbreviation status_json :: "int \<Rightarrow> gmap \<Rightarrow> ctx \<Rightarrow> goerr option \<times> ctx" where
  "status_json s b c \<equiv> ctx_JSON (GMap b) (ctx_Status s c)"

lemma ctx_simps [simp]:
  "resp_status (ctx_Status s c) = s" "resp_body (ctx_Status s c) = resp_body c"
  "fst (ctx_JSON b c) = None" "resp_status (snd (ctx_JSON b c)) = resp_status c"
  "resp_body (snd (ctx_JSON b c)) = Some b" "resp_status (ctx_Set k v c) = resp_status c"
  "req_Get (ctx_Set k v c) = req_Get c" "req_Params (ctx_Set k v c) = req_Params c"
  "resp_headers (ctx_Set k v c) = (k, v) # resp_headers c"
  "resp_headers (snd (ctx_JSON b c)) = resp_headers c" "resp_headers (ctx_Status s c) = resp_headers c"
  "loc_user_id (ctx_Set k v c) = loc_user_id c" "loc_user_id (ctx_Status s c) = loc_user_id c"
  "loc_user_id (snd (ctx_JSON b c)) = loc_user_id c"
  by (simp_all add: ctx_Status_def ctx_JSON_def ctx_Set_def)

section \<open>The user of a request\<close>

text \<open>
  \<open>src/internal/handler/helpers.go\<close> and the copy in \<open>discovery.go\<close>.  Each returns
  the identifier and the error of \<open>c.JSON\<close>, which is nil: a caller that tests the
  error goes on with \<open>uuid.Nil\<close> after the refusal was written.
\<close>

definition sign_in_required :: gmap where
  "sign_in_required = [(''error'', GStr ''sign in required to access this resource'')]"

definition getUserIDFromContext :: "ctx \<Rightarrow> uuid \<times> goerr option \<times> ctx" where
  "getUserIDFromContext c =
     (case loc_user_id c of
        None \<Rightarrow> (uuid_Nil, status_json 401 sign_in_required c)
      | Some LOther \<Rightarrow> (uuid_Nil, status_json 500 [(''error'', GStr ''invalid user id format'')] c)
      | Some (LUUID userID) \<Rightarrow> (userID, None, c))"

definition requireAuthenticatedUserID :: "ctx \<Rightarrow> uuid \<times> goerr option \<times> ctx" where
  "requireAuthenticatedUserID c =
     (case getUserIDFromContext c of
        (_, Some err, c') \<Rightarrow> (uuid_Nil, Some err, c')
      | (userID, None, c') \<Rightarrow>
          if userID = uuid_Nil then (uuid_Nil, status_json 401 sign_in_required c')
          else (userID, None, c'))"

definition getAuthenticatedUserID :: "ctx \<Rightarrow> uuid \<times> goerr option \<times> ctx" where
  "getAuthenticatedUserID c =
     (case loc_user_id c of
        None \<Rightarrow> (uuid_Nil, status_json 401 sign_in_required c)
      | Some LOther \<Rightarrow> (uuid_Nil, status_json 500 [(''error'', GStr ''invalid user id format'')] c)
      | Some (LUUID userID) \<Rightarrow>
          if userID = uuid_Nil then (uuid_Nil, status_json 401 sign_in_required c)
          else (userID, None, c))"

definition parsePaginationParams :: "ctx \<Rightarrow> int \<times> int" where
  "parsePaginationParams c =
     (let limit = req_QueryInt c ''limit'' 20;
          offset = req_QueryInt c ''offset'' 0;
          limit = (if limit < 1 then 20 else limit);
          limit = (if limit > 100 then 100 else limit);
          offset = (if offset < 0 then 0 else offset)
      in (limit, offset))"

section \<open>Facts\<close>

lemma auth_user_ok:
  assumes "loc_user_id c = Some (LUUID u)" and "u \<noteq> uuid_Nil"
  shows "getAuthenticatedUserID c = (u, None, c)" and "requireAuthenticatedUserID c = (u, None, c)"
  using assms
  by (simp_all add: getAuthenticatedUserID_def requireAuthenticatedUserID_def getUserIDFromContext_def)

lemma auth_error_nil:
  "fst (snd (getAuthenticatedUserID c)) = None" "fst (snd (requireAuthenticatedUserID c)) = None"
  by (auto simp: getAuthenticatedUserID_def requireAuthenticatedUserID_def getUserIDFromContext_def
      ctx_JSON_def split: option.splits local_value.splits)

lemma pagination_range:
  "1 \<le> fst (parsePaginationParams c) \<and> fst (parsePaginationParams c) \<le> 100 \<and> 0 \<le> snd (parsePaginationParams c)"
  by (simp add: parsePaginationParams_def Let_def)

end
