(* ===== verification/Scan_Authz.thy ===== *)
theory Scan_Authz
  imports Repositories Http_Model
begin

text \<open>
  Authorization of scan reads for the policy service:
  \<open>src/internal/authz\<close>, \<open>src/internal/service/scan_authz.go\<close>,
  \<open>src/internal/handler/scan_authz.go\<close> and the two middlewares under
  \<open>src/internal/middleware\<close>.  The random bytes of a generated request
  identifier are a parameter.  Metrics and logs are not modelled.
\<close>

section \<open>The package \<open>authz\<close>\<close>

definition ReasonCodeAllowed :: string where "ReasonCodeAllowed = ''SCAN_AUTHZ_ALLOWED''"
definition ReasonCodeForbidden :: string where "ReasonCodeForbidden = ''SCAN_AUTHZ_FORBIDDEN''"
definition ReasonCodeNotVisible :: string where "ReasonCodeNotVisible = ''SCAN_AUTHZ_NOT_VISIBLE''"
definition ReasonCodeScanIDMalformed :: string where
  "ReasonCodeScanIDMalformed = ''SCAN_AUTHZ_SCAN_ID_MALFORMED''"
definition ReasonCodePrincipalRequired :: string where
  "ReasonCodePrincipalRequired = ''SCAN_AUTHZ_PRINCIPAL_REQUIRED''"
definition ReasonCodeServiceAuthRequired :: string where
  "ReasonCodeServiceAuthRequired = ''SCAN_AUTHZ_SERVICE_AUTH_REQUIRED''"
definition ReasonCodeUnavailable :: string where "ReasonCodeUnavailable = ''SCAN_AUTHZ_UNAVAILABLE''"
definition ReasonCodeDisabled :: string where "ReasonCodeDisabled = ''SCAN_AUTHZ_DISABLED''"

lemmas reason_consts [go_consts] =
  ReasonCodeAllowed_def ReasonCodeForbidden_def ReasonCodeNotVisible_def ReasonCodeScanIDMalformed_def
  ReasonCodePrincipalRequired_def ReasonCodeServiceAuthRequired_def ReasonCodeUnavailable_def
  ReasonCodeDisabled_def

definition HeaderUserID :: string where "HeaderUserID = ''X-User-Id''"
definition HeaderTenantID :: string where "HeaderTenantID = ''X-Tenant-Id''"
definition HeaderRequestID :: string where "HeaderRequestID = ''X-Request-Id''"

definition ErrPrincipalUserIDRequired :: goerr where
  "ErrPrincipalUserIDRequired = ErrNew ''authz: principal user_id is required''"

record Principal =
  prin_UserID :: string
  prin_TenantID :: string

record Decision =
  dec_Allowed :: bool
  dec_ReasonCode :: string

definition Principal_Validate :: "Principal \<Rightarrow> goerr option" where
  "Principal_Validate p = (if TrimSpace (prin_UserID p) = '''' then Some ErrPrincipalUserIDRequired else None)"

definition maxRequestIDLen :: nat where "maxRequestIDLen = 128"

text \<open>
  The loop over the runes of the header.  Runes beyond ASCII are dropped, that
  is, every byte above 127; \<open>b\<close> is the builder.
\<close>

definition request_id_char :: "char \<Rightarrow> bool" where
  "request_id_char r \<longleftrightarrow> (65 \<le> byte r \<and> byte r \<le> 90) \<or> (97 \<le> byte r \<and> byte r \<le> 122)
     \<or> (48 \<le> byte r \<and> byte r \<le> 57) \<or> r = CHR ''-'' \<or> r = CHR ''_''"

fun sanitize_loop :: "string \<Rightarrow> string \<Rightarrow> string" where
  "sanitize_loop [] b = b"
| "sanitize_loop (r # rs) b =
     (let b = (if request_id_char r then b @ [r] else b) in
      if length b \<ge> maxRequestIDLen then b else sanitize_loop rs b)"

definition SanitizeRequestID :: "string \<Rightarrow> string" where
  "SanitizeRequestID raw = (if raw = '''' then '''' else sanitize_loop raw '''')"

text \<open>\<open>rand.Read\<close> and \<open>hex.EncodeToString\<close>: the twelve random bytes in hex, or the failure.\<close>

definition generateRequestID :: "string option \<Rightarrow> string" where
  "generateRequestID random_hex =
     (case random_hex of None \<Rightarrow> ''req_'' @ ''0000000000000000'' | Some h \<Rightarrow> ''req_'' @ h)"

definition EnsureRequestID :: "string option \<Rightarrow> string \<Rightarrow> string" where
  "EnsureRequestID random_hex raw =
     (let cleaned = SanitizeRequestID raw in
      if cleaned \<noteq> '''' then cleaned else generateRequestID random_hex)"

definition IsValidScanID :: "uuid_pkg \<Rightarrow> string \<Rightarrow> bool" where
  "IsValidScanID U scanID =
     (let s = TrimSpace scanID in
      if s = '''' then False
      else case uuid_Parse U s of Inl _ \<Rightarrow> False | Inr _ \<Rightarrow> True)"

section \<open>The decision\<close>

definition parsePrincipalUserID :: "uuid_pkg \<Rightarrow> string \<Rightarrow> uuid \<times> bool" where
  "parsePrincipalUserID U raw =
     (case uuid_Parse U (TrimSpace raw) of Inl _ \<Rightarrow> (uuid_Nil, False) | Inr u \<Rightarrow> (u, True))"

definition deny :: "string \<Rightarrow> Decision" where
  "deny why = \<lparr> dec_Allowed = False, dec_ReasonCode = why \<rparr>"

definition allow :: Decision where
  "allow = \<lparr> dec_Allowed = True, dec_ReasonCode = ReasonCodeAllowed \<rparr>"

definition lookup_error :: "string \<Rightarrow> 'a stm \<Rightarrow> 'a stm" where
  "lookup_error msg m d = (case m d of (r, d') \<Rightarrow> (wrap_err msg r, d'))"

text \<open>The decision on a wallet row and on a TLS row, with the parsed principal.\<close>

definition wallet_decision :: "uuid \<times> bool \<Rightarrow> ScanResultEntity \<Rightarrow> Decision" where
  "wallet_decision parsed w =
     (case parsed of (principalUserID, principalUserIDOK) \<Rightarrow>
        if \<not> principalUserIDOK then deny ReasonCodeForbidden
        else if sr_UserID w = principalUserID then allow
        else deny ReasonCodeForbidden)"

definition tls_decision :: "uuid \<times> bool \<Rightarrow> TLSScanResultEntity \<Rightarrow> Decision" where
  "tls_decision parsed t =
     (case parsed of (principalUserID, principalUserIDOK) \<Rightarrow>
        if ts_Default t then allow
        else case ts_UserID t of
          None \<Rightarrow> deny ReasonCodeForbidden
        | Some owner \<Rightarrow>
            if \<not> principalUserIDOK then deny ReasonCodeForbidden
            else if owner = principalUserID then allow
            else deny ReasonCodeForbidden)"

definition CanReadScan :: "uuid_pkg \<Rightarrow> Principal \<Rightarrow> string \<Rightarrow> Decision stm" where
  "CanReadScan U prin scanID =
     (if Principal_Validate prin \<noteq> None then dreturn (deny ReasonCodePrincipalRequired)
      else if \<not> IsValidScanID U scanID then dreturn (deny ReasonCodeScanIDMalformed)
      else case uuid_Parse U (TrimSpace scanID) of
        Inl _ \<Rightarrow> dreturn (deny ReasonCodeScanIDMalformed)
      | Inr scanUUID \<Rightarrow>
         dbind (lookup_error ''scan authorization: wallet scan lookup'' (ScanResult_FindByID scanUUID))
           (\<lambda>walletEntity.
         case walletEntity of
           Some w \<Rightarrow> dreturn (wallet_decision (parsePrincipalUserID U (prin_UserID prin)) w)
         | None \<Rightarrow>
             dbind (lookup_error ''scan authorization: tls scan lookup'' (TLSScanResult_FindByID scanUUID))
               (\<lambda>tlsEntity.
             case tlsEntity of
               Some t \<Rightarrow> dreturn (tls_decision (parsePrincipalUserID U (prin_UserID prin)) t)
             | None \<Rightarrow> dreturn (deny ReasonCodeNotVisible))))"

section \<open>The endpoint\<close>

definition authz_respond :: "int \<Rightarrow> bool \<Rightarrow> string \<Rightarrow> string \<Rightarrow> ctx \<Rightarrow> goerr option \<times> ctx" where
  "authz_respond status allowed reasonCode requestID c =
     status_json status [(''allowed'', GBool allowed), (''reason_code'', GStr reasonCode),
       (''request_id'', GStr requestID)] c"

text \<open>
  The service is an interface value: \<open>None\<close> for nil (or a nil handler),
  otherwise its decision on a principal and a scan.
\<close>

type_synonym decision_service = "Principal \<Rightarrow> string \<Rightarrow> Decision stm"

definition handler_CanReadScan ::
  "uuid_pkg \<Rightarrow> string option \<Rightarrow> decision_service option \<Rightarrow> bool \<Rightarrow> ctx \<Rightarrow> db \<Rightarrow> (goerr option \<times> ctx) \<times> db" where
  "handler_CanReadScan U random_hex service enabled c0 d =
     (let requestID = EnsureRequestID random_hex (req_Get c0 HeaderRequestID);
          c = ctx_Set HeaderRequestID requestID c0 in
      case (if enabled then service else None) of
        None \<Rightarrow> (authz_respond 503 False ReasonCodeDisabled requestID c, d)
      | Some svc \<Rightarrow>
        (let rawUserID = TrimSpace (req_Get c HeaderUserID) in
         if rawUserID = '''' then (authz_respond 401 False ReasonCodePrincipalRequired requestID c, d)
         else
         let prin = \<lparr> prin_UserID = rawUserID, prin_TenantID = TrimSpace (req_Get c HeaderTenantID) \<rparr>;
             scanID = TrimSpace (req_Params c ''scanId'') in
         if \<not> IsValidScanID U scanID
         then (authz_respond 400 False ReasonCodeScanIDMalformed requestID c, d)
         else case svc prin scanID d of
           (Inl _, d') \<Rightarrow> (authz_respond 503 False ReasonCodeUnavailable requestID c, d')
         | (Inr decision, d') \<Rightarrow>
             (let why = dec_ReasonCode decision in
              if dec_Allowed decision then (authz_respond 200 True why requestID c, d')
              else if why = ReasonCodeScanIDMalformed then (authz_respond 400 False why requestID c, d')
              else if why = ReasonCodePrincipalRequired then (authz_respond 401 False why requestID c, d')
              else if why = ReasonCodeUnavailable \<or> why = ReasonCodeDisabled
              then (authz_respond 503 False why requestID c, d')
              else (authz_respond 403 False why requestID c, d'))))"

section \<open>Middlewares\<close>

text \<open>
  A handler as a function on the request and the rest of the state; \<open>OnReject\<close>
  is nil or such a function.
\<close>

type_synonym 'w handler = "ctx \<Rightarrow> 'w \<Rightarrow> (goerr option \<times> ctx) \<times> 'w"

record 'w InternalServiceAuthConfig =
  cfg_ExpectedToken :: string
  cfg_OnReject :: "'w handler option"

definition rejectInternalServiceAuth :: "string option \<Rightarrow> 'w InternalServiceAuthConfig \<Rightarrow> 'w handler" where
  "rejectInternalServiceAuth random_hex cfg c w =
     (case cfg_OnReject cfg of
        Some h \<Rightarrow> h c w
      | None \<Rightarrow>
          (let requestID = EnsureRequestID random_hex (req_Get c HeaderRequestID) in
           (authz_respond 401 False ReasonCodeServiceAuthRequired requestID
              (ctx_Set HeaderRequestID requestID c), w)))"

definition InternalServiceAuth ::
  "string option \<Rightarrow> 'w InternalServiceAuthConfig \<Rightarrow> 'w handler \<Rightarrow> 'w handler" where
  "InternalServiceAuth random_hex cfg next_handler c w =
     (let header = TrimSpace (req_Get c ''Authorization'') in
      if \<not> HasPrefix (ToLower header) ''bearer '' then rejectInternalServiceAuth random_hex cfg c w
      else let raw = TrimSpace (drop (length ''Bearer '') header) in
      if raw = '''' then rejectInternalServiceAuth random_hex cfg c w
      else let expected = TrimSpace (cfg_ExpectedToken cfg) in
      if expected = '''' then rejectInternalServiceAuth random_hex cfg c w
      else if raw \<noteq> expected then rejectInternalServiceAuth random_hex cfg c w
      else next_handler c w)"

text \<open>The claims of a validated token that the JWT middleware uses.\<close>

record token_claims =
  claim_UserID :: uuid
  claim_Email :: string

definition JWTMiddleware :: "(string \<Rightarrow> token_claims result) \<Rightarrow> 'w handler \<Rightarrow> 'w handler" where
  "JWTMiddleware validateToken next_handler c w =
     (let authHeader = req_Get c ''Authorization'' in
      if authHeader = ''''
      then (status_json 401 [(''error'', GStr ''missing authorization header'')] c, w)
      else let parts = Split authHeader CHR '' '' in
      if length parts \<noteq> 2 \<or> parts ! 0 \<noteq> ''Bearer''
      then (status_json 401 [(''error'', GStr ''invalid authorization header format'')] c, w)
      else case validateToken (parts ! 1) of
        Inl _ \<Rightarrow> (status_json 401 [(''error'', GStr ''invalid or expired token'')] c, w)
      | Inr claims \<Rightarrow>
          if claim_UserID claims = uuid_Nil
          then (status_json 401 sign_in_required c, w)
          else next_handler (c\<lparr>loc_user_id := Some (LUUID (claim_UserID claims)),
                               loc_user_email := Some (claim_Email claims)\<rparr>) w)"

section \<open>Lemmas\<close>

lemma sanitize_loop_spec:
  "length b < maxRequestIDLen \<Longrightarrow>
     sanitize_loop rs b = take maxRequestIDLen (b @ filter request_id_char rs)"
proof (induction rs arbitrary: b)
  case (Cons r rs)
  show ?case
  proof (cases "request_id_char r \<and> length b + 1 \<ge> maxRequestIDLen")
    case True
    then have "length b + 1 = maxRequestIDLen" using Cons.prems by simp
    then show ?thesis using True by (simp add: Let_def flip: \<open>length b + 1 = maxRequestIDLen\<close>)
  next
    case False
    then show ?thesis using Cons.prems Cons.IH [of "b @ [r]"] Cons.IH [of b]
      by (auto simp: Let_def)
  qed
qed simp

lemma Sanitize_spec: "SanitizeRequestID raw = take maxRequestIDLen (filter request_id_char raw)"
  by (simp add: SanitizeRequestID_def sanitize_loop_spec maxRequestIDLen_def)

lemma lookup_error_Inr [simp]: "lookup_error msg m d = (Inr x, d') \<longleftrightarrow> m d = (Inr x, d')"
  by (auto simp: lookup_error_def wrap_err_def split: prod.splits sum.splits)

lemma lookup_error_calm [simp]: "m d = (Inr x, d0) \<Longrightarrow> lookup_error msg m d = (Inr x, d0)"
  by simp

lemma decision_sel [simp]:
  "dec_Allowed allow" "\<not> dec_Allowed (deny why)" "dec_ReasonCode (deny why) = why"
  by (simp_all add: allow_def deny_def)

lemma base_findByID_Some:
  assumes "base_findByID T i d = (Inr (Some x), d')"
  shows "x \<in> set (ent_rows T d) \<and> ent_ID T x = i \<and> ent_DeletedAt T x = None"
proof -
  have "x \<in> set (live T d) \<and> ent_ID T x = i"
    using first_or_nil_filter [OF assms [unfolded base_findByID_def by_id_def]] .
  then show ?thesis by (simp add: set_live)
qed

text \<open>The rows that make a scan readable for the user \<open>u\<close> (\<open>None\<close> when the header is not an identifier).\<close>

definition readable :: "uuid option \<Rightarrow> uuid \<Rightarrow> db \<Rightarrow> bool" where
  "readable u i d \<longleftrightarrow>
     (\<exists>w \<in> set (scan_results d). sr_ID w = i \<and> sr_DeletedAt w = None \<and> u = Some (sr_UserID w))
     \<or> (\<exists>t \<in> set (tls_scan_results d). ts_ID t = i \<and> ts_DeletedAt t = None
          \<and> (ts_Default t \<or> u \<noteq> None \<and> ts_UserID t = u))"

definition header_user :: "uuid_pkg \<Rightarrow> string \<Rightarrow> uuid option" where
  "header_user U raw = (case uuid_Parse U (TrimSpace raw) of Inl _ \<Rightarrow> None | Inr u \<Rightarrow> Some u)"

lemma row_decisions:
  "dec_Allowed (wallet_decision (parsePrincipalUserID U raw) w) \<longleftrightarrow> header_user U raw = Some (sr_UserID w)"
  "dec_Allowed (tls_decision (parsePrincipalUserID U raw) t) \<longleftrightarrow>
     ts_Default t \<or> header_user U raw \<noteq> None \<and> ts_UserID t = header_user U raw"
  by (auto simp: wallet_decision_def tls_decision_def parsePrincipalUserID_def header_user_def
      split: sum.split option.split)

lemma CanReadScan_sound:
  assumes "CanReadScan U p sid d = (Inr dec, d')" and "dec_Allowed dec"
  shows "\<exists>i. uuid_Parse U (TrimSpace sid) = Inr i \<and> readable (header_user U (prin_UserID p)) i d"
proof -
  obtain i where i: "uuid_Parse U (TrimSpace sid) = Inr i" and v: "Principal_Validate p = None"
      "IsValidScanID U sid"
    using assms by (auto simp: CanReadScan_def split: if_splits sum.splits)
  let ?p = "parsePrincipalUserID U (prin_UserID p)" and ?u = "header_user U (prin_UserID p)"
  have "(\<exists>w d0. ScanResult_FindByID i d = (Inr (Some w), d0) \<and> dec = wallet_decision ?p w)
    \<or> (\<exists>d0 t. ScanResult_FindByID i d = (Inr None, d0) \<and> TLSScanResult_FindByID i d0 = (Inr (Some t), d')
          \<and> dec = tls_decision ?p t)"
    using assms i v unfolding CanReadScan_def by (auto dest!: dbind_Inr split: option.splits)
  then show ?thesis
  proof
    assume "\<exists>w d0. ScanResult_FindByID i d = (Inr (Some w), d0) \<and> dec = wallet_decision ?p w"
    then obtain w d0 where w: "ScanResult_FindByID i d = (Inr (Some w), d0)" "dec = wallet_decision ?p w"
      by blast
    have "w \<in> set (scan_results d) \<and> sr_ID w = i \<and> sr_DeletedAt w = None"
      using base_findByID_Some [OF w(1) [unfolded ScanResult_FindByID_def]] by simp
    moreover have "?u = Some (sr_UserID w)" using w(2) assms(2) row_decisions(1) by simp
    ultimately show ?thesis using i unfolding readable_def by blast
  next
    assume "\<exists>d0 t. ScanResult_FindByID i d = (Inr None, d0)
      \<and> TLSScanResult_FindByID i d0 = (Inr (Some t), d') \<and> dec = tls_decision ?p t"
    then obtain d0 t where t: "ScanResult_FindByID i d = (Inr None, d0)"
        "TLSScanResult_FindByID i d0 = (Inr (Some t), d')" "dec = tls_decision ?p t" by blast
    have "tables d0 = tables d"
      using t(1) by (auto simp: ScanResult_FindByID_def base_findByID_def intro: first_or_nil_tables)
    then have "t \<in> set (tls_scan_results d) \<and> ts_ID t = i \<and> ts_DeletedAt t = None"
      using base_findByID_Some [OF t(2) [unfolded TLSScanResult_FindByID_def]] by (simp add: tables_eq_iff)
    moreover have "ts_Default t \<or> ?u \<noteq> None \<and> ts_UserID t = ?u"
      using t(3) assms(2) row_decisions(2) by simp
    ultimately show ?thesis using i unfolding readable_def by blast
  qed
qed

lemma findByID_unique:
  assumes "db_faults d = []" and "distinct (map (ent_ID T) (ent_rows T d))"
    and "x \<in> set (ent_rows T d)" and "ent_DeletedAt T x = None" and "ent_ID T x = i"
  shows "base_findByID T i d = (Inr (Some x), d)"
proof -
  have "distinct (map (ent_ID T) (live T d))" using assms(2) by (simp add: live_def distinct_map_filter)
  moreover have "x \<in> set (live T d)" using assms(3,4) by (simp add: set_live)
  ultimately have "filter (\<lambda>y. ent_ID T y = i) (live T d) = [x]" using assms(5) by (rule filter_unique_key)
  then show ?thesis using assms(1) by (simp add: base_findByID_def by_id_def)
qed

lemma findByID_absent:
  assumes "db_faults d = []" and "i \<notin> ent_ID T ` set (ent_rows T d)"
  shows "base_findByID T i d = (Inr None, d)"
proof -
  have "filter (\<lambda>y. ent_ID T y = i) (live T d) = []"
    using assms(2) by (auto simp: filter_empty_conv live_def image_iff)
  then show ?thesis using assms(1) by (simp add: base_findByID_def by_id_def)
qed

lemma row_allow:
  "dec_Allowed (wallet_decision q w) \<Longrightarrow> wallet_decision q w = allow"
  "dec_Allowed (tls_decision q t) \<Longrightarrow> tls_decision q t = allow"
  by (simp_all add: wallet_decision_def tls_decision_def split: prod.splits option.splits if_splits)

lemma CanReadScan_complete:
  assumes "db_faults d = []" and "TrimSpace (prin_UserID p) \<noteq> ''''" and "TrimSpace sid \<noteq> ''''"
    and "uuid_Parse U (TrimSpace sid) = Inr i"
    and "distinct (map sr_ID (scan_results d))" and "distinct (map ts_ID (tls_scan_results d))"
    and "sr_ID ` set (scan_results d) \<inter> ts_ID ` set (tls_scan_results d) = {}"
    and "readable (header_user U (prin_UserID p)) i d"
  shows "CanReadScan U p sid d = (Inr allow, d)"
proof -
  let ?p = "parsePrincipalUserID U (prin_UserID p)" and ?u = "header_user U (prin_UserID p)"
  have v: "Principal_Validate p = None" "IsValidScanID U sid"
    using assms(2-4) by (simp_all add: Principal_Validate_def IsValidScanID_def Let_def)
  from assms(8) [unfolded readable_def] show ?thesis
  proof
    assume "\<exists>w \<in> set (scan_results d). sr_ID w = i \<and> sr_DeletedAt w = None \<and> ?u = Some (sr_UserID w)"
    then obtain w where w: "w \<in> set (scan_results d)" "sr_ID w = i" "sr_DeletedAt w = None"
        "?u = Some (sr_UserID w)" by blast
    have "ScanResult_FindByID i d = (Inr (Some w), d)"
      unfolding ScanResult_FindByID_def using assms(1,5) w by (intro findByID_unique) simp_all
    moreover have "wallet_decision ?p w = allow" using w(4) by (simp add: row_allow row_decisions)
    ultimately show ?thesis using v assms(4) by (simp add: CanReadScan_def dreturn_def)
  next
    assume "\<exists>t \<in> set (tls_scan_results d). ts_ID t = i \<and> ts_DeletedAt t = None
          \<and> (ts_Default t \<or> ?u \<noteq> None \<and> ts_UserID t = ?u)"
    then obtain t where t: "t \<in> set (tls_scan_results d)" "ts_ID t = i" "ts_DeletedAt t = None"
        "ts_Default t \<or> ?u \<noteq> None \<and> ts_UserID t = ?u" by blast
    have "i \<notin> sr_ID ` set (scan_results d)" using assms(7) t(1,2) by blast
    then have "ScanResult_FindByID i d = (Inr None, d)"
      unfolding ScanResult_FindByID_def using assms(1) by (intro findByID_absent) simp_all
    moreover have "TLSScanResult_FindByID i d = (Inr (Some t), d)"
      unfolding TLSScanResult_FindByID_def using assms(1,6) t by (intro findByID_unique) simp_all
    moreover have "tls_decision ?p t = allow" using t(4) by (simp add: row_allow row_decisions)
    ultimately show ?thesis using v assms(4) by (simp add: CanReadScan_def dreturn_def)
  qed
qed

section \<open>Properties\<close>

text \<open>
  C8: the authorization endpoint behind its guard grants a read only to the
  owner. When the answer is 200, the caller presented the configured, non-empty
  service token as a bearer token, and the scan of the path is a live row owned
  by the user of the header, or a live default endpoint; the answer 200 is given
  exactly with \<open>allowed\<close> true.
\<close>

theorem authz_endpoint_sound:
  assumes "InternalServiceAuth rnd \<lparr> cfg_ExpectedToken = token, cfg_OnReject = None \<rparr>
      (handler_CanReadScan U rnd (Some (CanReadScan U)) enabled) c d = ((err, c'), d')"
    and "resp_status c' = 200"
  shows "TrimSpace token \<noteq> ''''
    \<and> TrimSpace (drop 7 (TrimSpace (req_Get c ''Authorization''))) = TrimSpace token \<and> enabled
    \<and> (\<exists>i. uuid_Parse U (TrimSpace (TrimSpace (req_Params c ''scanId''))) = Inr i
        \<and> readable (header_user U (TrimSpace (req_Get c HeaderUserID))) i d)
    \<and> (\<exists>why rid. resp_body c' = Some (GMap [(''allowed'', GBool True), (''reason_code'', GStr why),
        (''request_id'', GStr rid)]))"
proof -
  have rej: "resp_status (snd (fst (rejectInternalServiceAuth rnd
      \<lparr> cfg_ExpectedToken = token, cfg_OnReject = None \<rparr> c d))) = 401"
    by (simp add: rejectInternalServiceAuth_def authz_respond_def Let_def)
  have tok: "TrimSpace token \<noteq> ''''"
      "TrimSpace (drop 7 (TrimSpace (req_Get c ''Authorization''))) = TrimSpace token"
    and h: "handler_CanReadScan U rnd (Some (CanReadScan U)) enabled c d = ((err, c'), d')"
    using assms rej by (auto simp: InternalServiceAuth_def Let_def eval_nat_numeral split: if_splits)
  let ?p = "\<lparr> prin_UserID = TrimSpace (req_Get c HeaderUserID),
      prin_TenantID = TrimSpace (req_Get c HeaderTenantID) \<rparr>"
  have en: enabled using h assms(2)
    by (cases enabled) (auto simp: handler_CanReadScan_def authz_respond_def Let_def ctx_JSON_def)
  obtain dec d1 where c: "CanReadScan U ?p (TrimSpace (req_Params c ''scanId'')) d = (Inr dec, d1)"
      and al: "dec_Allowed dec"
      and b: "resp_body c' = Some (GMap [(''allowed'', GBool True), (''reason_code'', GStr (dec_ReasonCode dec)),
        (''request_id'', GStr (EnsureRequestID rnd (req_Get c HeaderRequestID)))])"
    using h assms(2) en
    by (auto simp: handler_CanReadScan_def authz_respond_def Let_def ctx_JSON_def ctx_Status_def
        split: if_splits prod.splits sum.splits)
  show ?thesis using tok en CanReadScan_sound [OF c al] b by simp
qed

text \<open>
  Authorization is complete. With the stores available and the identifiers
  of the rows unique, whoever may read the scan (its owner, or anyone for a
  default endpoint) is allowed, nobody else is, and the decision changes nothing.
\<close>

lemma authz_owner_allowed:
  assumes "db_faults d = []" and "TrimSpace (prin_UserID p) \<noteq> ''''" and "TrimSpace sid \<noteq> ''''"
    and "uuid_Parse U (TrimSpace sid) = Inr i"
    and "distinct (map sr_ID (scan_results d))" and "distinct (map ts_ID (tls_scan_results d))"
    and "sr_ID ` set (scan_results d) \<inter> ts_ID ` set (tls_scan_results d) = {}"
  shows "readable (header_user U (prin_UserID p)) i d \<longleftrightarrow> CanReadScan U p sid d = (Inr allow, d)"
proof
  show "readable (header_user U (prin_UserID p)) i d \<Longrightarrow> CanReadScan U p sid d = (Inr allow, d)"
    using CanReadScan_complete [OF assms] .
  assume "CanReadScan U p sid d = (Inr allow, d)"
  then show "readable (header_user U (prin_UserID p)) i d"
    using CanReadScan_sound [of U p sid d allow d] assms(4) by simp
qed

text \<open>
  A request identifier is always safe to log: what is kept of the header is
  its letters, digits, hyphens and underscores, at most 128 of them; cleaning it
  again changes nothing; and the identifier of a request is never empty.
\<close>

theorem request_id_safe:
  "length (SanitizeRequestID raw) \<le> 128 \<and> list_all request_id_char (SanitizeRequestID raw)
   \<and> SanitizeRequestID (SanitizeRequestID raw) = SanitizeRequestID raw
   \<and> EnsureRequestID rnd raw \<noteq> ''''
   \<and> EnsureRequestID rnd (EnsureRequestID None raw) = EnsureRequestID None raw"
proof -
  have all: "list_all request_id_char (take n (filter request_id_char raw))" for n
    by (auto simp: list_all_iff dest: in_set_takeD)
  have fix1: "filter request_id_char (take n (filter request_id_char raw))
      = take n (filter request_id_char raw)" for n
    using all [of n] unfolding list_all_iff by (rule filter_True)
  have gen: "SanitizeRequestID (generateRequestID None) = generateRequestID None" by code_simp
  have idem: "SanitizeRequestID (SanitizeRequestID raw) = SanitizeRequestID raw"
    unfolding Sanitize_spec fix1 by simp
  have ne: "generateRequestID r \<noteq> ''''" for r by (simp add: generateRequestID_def split: option.split)
  have "EnsureRequestID rnd (EnsureRequestID None raw) = EnsureRequestID None raw"
    using idem gen ne by (simp add: EnsureRequestID_def Let_def)
  moreover have "EnsureRequestID rnd raw \<noteq> ''''" using ne by (simp add: EnsureRequestID_def Let_def)
  moreover have "length (SanitizeRequestID raw) \<le> 128" by (simp add: Sanitize_spec maxRequestIDLen_def)
  ultimately show ?thesis using all idem unfolding Sanitize_spec by blast
qed

text \<open>
  The JWT middleware is the gate of the signed-in routes. It either answers
  401 without calling the handler, or calls it with the non-nil user of a token
  that was validated; there every lookup of the user succeeds with that user.
\<close>

lemma jwt_middleware_cases:
  "(\<exists>r. (\<forall>(h :: 'w handler) w. JWTMiddleware v h c w = (r, w)) \<and> resp_status (snd r) = 401 \<and> fst r = None)
   \<or> (\<exists>c' claims tok. (\<forall>(h :: 'w handler) w. JWTMiddleware v h c w = h c' w)
        \<and> Split (req_Get c ''Authorization'') CHR '' '' = [''Bearer'', tok] \<and> v tok = Inr claims
        \<and> claim_UserID claims \<noteq> uuid_Nil
        \<and> getAuthenticatedUserID c' = (claim_UserID claims, None, c')
        \<and> requireAuthenticatedUserID c' = (claim_UserID claims, None, c') \<and> req_Get c' = req_Get c)"
proof (cases "req_Get c ''Authorization'' = ''''")
  case True
  then show ?thesis
    by (intro disjI1 exI [of _ "status_json 401 [(''error'', GStr ''missing authorization header'')] c"])
      (simp add: JWTMiddleware_def)
next
  case False
  let ?parts = "Split (req_Get c ''Authorization'') CHR '' ''"
  show ?thesis
  proof (cases "length ?parts \<noteq> 2 \<or> ?parts ! 0 \<noteq> ''Bearer''")
    case True
    then show ?thesis using False
      by (intro disjI1 exI [of _ "status_json 401
          [(''error'', GStr ''invalid authorization header format'')] c"]) (simp add: JWTMiddleware_def)
  next
    case ok: False
    then obtain tok where tok: "?parts = [''Bearer'', tok]"
      by (cases ?parts; cases "tl ?parts") auto
    show ?thesis
    proof (cases "v tok")
      case (Inl e)
      then show ?thesis using False tok
        by (intro disjI1 exI [of _ "status_json 401
            [(''error'', GStr ''invalid or expired token'')] c"]) (simp add: JWTMiddleware_def)
    next
      case (Inr claims)
      let ?c = "c\<lparr>loc_user_id := Some (LUUID (claim_UserID claims)), loc_user_email := Some (claim_Email claims)\<rparr>"
      show ?thesis
      proof (cases "claim_UserID claims = uuid_Nil")
        case True
        then show ?thesis using False tok Inr
          by (intro disjI1 exI [of _ "status_json 401 sign_in_required c"]) (simp add: JWTMiddleware_def)
      next
        case u: False
        have "JWTMiddleware v h c w = h ?c w" for h :: "'w handler" and w
          using False tok Inr u by (simp add: JWTMiddleware_def)
        then show ?thesis using tok Inr u auth_user_ok [of ?c "claim_UserID claims"]
          by (intro disjI2 exI [of _ ?c] exI [of _ claims] exI [of _ tok]) simp
      qed
    qed
  qed
qed

section \<open>Examples\<close>

text \<open>The owner of scan 2 asks through the guarded endpoint.\<close>

definition ex_authz_ctx :: ctx where
  "ex_authz_ctx = \<lparr> req_Get = (\<lambda>h. if h = ''Authorization'' then ''Bearer t'' else if h = HeaderUserID then ''1'' else ''''),
     req_Params = (\<lambda>_. ''11''), req_Query = (\<lambda>_. ''''), req_QueryInt = (\<lambda>_ n. n), req_QueryKeys = [], loc_user_id = None,
     loc_user_email = None, resp_status = 0, resp_body = None, resp_headers = [] \<rparr>"

lemma Trim_ex [simp]: "TrimSpace ''1'' = ''1''" "TrimSpace ''11'' = ''11''" "TrimSpace ''t'' = ''t''"
  "TrimSpace ''Bearer t'' = ''Bearer t''"
  by code_simp+

lemma ex_uuid_Parse [simp]: "uuid_Parse ex_uuid ''1'' = Inr 1" "uuid_Parse ex_uuid ''11'' = Inr 2"
  by (simp_all add: ex_uuid_def)

lemma ex_CanReadScan:
  "CanReadScan ex_uuid \<lparr> prin_UserID = ''1'', prin_TenantID = tenant \<rparr> ''11'' ex_scan_db = (Inr allow, ex_scan_db)"
proof -
  have "base_findByID scan_entity 2 ex_scan_db = (Inr (Some (ex_scan 2 10)), ex_scan_db)"
    by (rule findByID_unique) (simp_all add: ex_scan_db_def ex_scan_def)
  then show ?thesis
    by (simp add: CanReadScan_def Principal_Validate_def IsValidScanID_def ScanResult_FindByID_def
        wallet_decision_def parsePrincipalUserID_def ex_scan_def dreturn_def)
qed

theorem authz_endpoint_sound_witness:
  "\<exists>i. uuid_Parse ex_uuid (TrimSpace (TrimSpace (req_Params ex_authz_ctx ''scanId''))) = Inr i
     \<and> readable (header_user ex_uuid (TrimSpace (req_Get ex_authz_ctx HeaderUserID))) i ex_scan_db"
proof -
  obtain r where r: "InternalServiceAuth None \<lparr> cfg_ExpectedToken = ''t'', cfg_OnReject = None \<rparr>
      (handler_CanReadScan ex_uuid None (Some (CanReadScan ex_uuid)) True) ex_authz_ctx ex_scan_db = r"
    by blast
  have h: "HasPrefix (ToLower ''Bearer t'') ''bearer ''" by code_simp
  have s: "resp_status (snd (fst r)) = 200"
    using r h ex_CanReadScan
    by (auto simp: InternalServiceAuth_def handler_CanReadScan_def ex_authz_ctx_def Let_def HeaderUserID_def
        HeaderTenantID_def IsValidScanID_def authz_respond_def)
  obtain err c' d' where "r = ((err, c'), d')" by (metis prod.exhaust)
  then show ?thesis using authz_endpoint_sound [of None "''t''" ex_uuid True ex_authz_ctx ex_scan_db] r s
    by auto
qed

lemma authz_owner_allowed_witness:
  "CanReadScan ex_uuid \<lparr> prin_UserID = ''1'', prin_TenantID = '''' \<rparr> ''11'' ex_scan_db = (Inr allow, ex_scan_db)"
proof -
  have "readable (header_user ex_uuid ''1'') 2 ex_scan_db"
    by (simp add: readable_def header_user_def ex_scan_db_def ex_scan_def)
  then show ?thesis
    using authz_owner_allowed [of ex_scan_db "\<lparr> prin_UserID = ''1'', prin_TenantID = '''' \<rparr>" "''11''" ex_uuid 2]
    by (simp add: ex_scan_db_def ex_scan_def)
qed

end
