(* ===== verification/Plan_Service.thy ===== *)
theory Plan_Service
  imports Scan_Ledger Repositories
begin

text \<open>
  The plan service, \<open>src/internal/service/plan.go\<close>: the plan of a user, the
  usage shown to the user, and the reservation of quota that every scan request
  goes through.  The ledger is a value of the Go interface, nil included
  (\<open>None\<close>); the repositories of plans and users are those of the store.
\<close>

section \<open>Plans of users\<close>

definition ErrPlanNotFound :: goerr where
  "ErrPlanNotFound = ErrNew ''plan not found''"

text \<open>Wrapping of the error of a statement: \<open>fmt.Errorf(msg + ": %w", err)\<close>.\<close>

definition wrap_stm :: "string \<Rightarrow> 'a stm \<Rightarrow> 'a stm" where
  "wrap_stm msg m d = (case m d of (r, d') \<Rightarrow> (wrap_err msg r, d'))"

definition GetUserPlan :: "uuid_pkg \<Rightarrow> uuid \<Rightarrow> Plan stm" where
  "GetUserPlan U userID =
     dbind (wrap_stm ''failed to get user'' (User_FindByID U (uuid_String U userID))) (\<lambda>user.
     case user of None \<Rightarrow> dfail (ErrNew ''user not found'') | Some user \<Rightarrow>
     dbind (wrap_stm ''failed to get plan'' (Plan_FindByID (user_PlanID user))) (\<lambda>plan.
     case plan of None \<Rightarrow> dfail ErrPlanNotFound | Some plan \<Rightarrow> dreturn plan))"

definition GetAllPlans :: "Plan list stm" where
  "GetAllPlans = wrap_stm ''failed to get plans'' Plan_FindActive"

section \<open>Usage\<close>

record PlanUsage =
  pu_WalletScansUsed :: int
  pu_EndpointScansUsed :: int
  pu_WalletScansVisible :: int
  pu_EndpointScansVisible :: int
  pu_WalletScansDeletedByUser :: int
  pu_EndpointScansDeletedByUser :: int
  pu_WalletScansInFlight :: int
  pu_EndpointScansInFlight :: int
  pu_WalletScanLimit :: int
  pu_EndpointScanLimit :: int
  pu_WalletScansLeft :: int
  pu_EndpointScansLeft :: int

definition zero_usage :: PlanUsage where
  "zero_usage = \<lparr> pu_WalletScansUsed = 0, pu_EndpointScansUsed = 0, pu_WalletScansVisible = 0,
     pu_EndpointScansVisible = 0, pu_WalletScansDeletedByUser = 0, pu_EndpointScansDeletedByUser = 0,
     pu_WalletScansInFlight = 0, pu_EndpointScansInFlight = 0, pu_WalletScanLimit = 0,
     pu_EndpointScanLimit = 0, pu_WalletScansLeft = 0, pu_EndpointScansLeft = 0 \<rparr>"

definition PostScanQuotaOK :: string where "PostScanQuotaOK = ''''"
definition PostScanQuotaDenyQuota :: string where "PostScanQuotaDenyQuota = ''quota''"
definition PostScanQuotaDenyParallel :: string where "PostScanQuotaDenyParallel = ''parallel''"

lemmas quota_reason_consts [go_consts] =
  PostScanQuotaOK_def PostScanQuotaDenyQuota_def PostScanQuotaDenyParallel_def

definition planScansLeft :: "int \<Rightarrow> int \<Rightarrow> bool \<Rightarrow> int" where
  "planScansLeft limit successful unlimited =
     (if unlimited then -1
      else let left = limit - successful in if left < 0 then 0 else left)"

definition GetPlanUsage :: "uuid_pkg \<Rightarrow> uuid \<Rightarrow> ScanUsageLedgerRepository option \<Rightarrow> PlanUsage stm" where
  "GetPlanUsage U userID ledger =
     (if userID = uuid_Nil then dfail (ErrNew ''user not authenticated'')
      else case ledger of None \<Rightarrow> dfail (ErrNew ''scan usage ledger required'') | Some L \<Rightarrow>
     dbind (GetUserPlan U userID) (\<lambda>plan.
     dbind (wrap_stm ''count wallet ledger usage''
              (lr_CountSuccessUsage L userID ScanUsageKindWallet)) (\<lambda>walletUsed.
     dbind (wrap_stm ''count visible wallet successes''
              (lr_CountVisibleSuccessScans L userID ScanUsageKindWallet)) (\<lambda>walletVisible.
     dbind (wrap_stm ''count in-flight wallet scans''
              (lr_CountInFlightScans L userID ScanUsageKindWallet)) (\<lambda>walletInFlight.
     dbind (wrap_stm ''count endpoint ledger usage''
              (lr_CountSuccessUsage L userID ScanUsageKindEndpoint)) (\<lambda>endpointUsed.
     dbind (wrap_stm ''count visible endpoint successes''
              (lr_CountVisibleSuccessScans L userID ScanUsageKindEndpoint)) (\<lambda>endpointVisible.
     dbind (wrap_stm ''count in-flight endpoint scans''
              (lr_CountInFlightScans L userID ScanUsageKindEndpoint)) (\<lambda>endpointInFlight.
     dreturn
       \<lparr> pu_WalletScansUsed = walletUsed,
         pu_EndpointScansUsed = endpointUsed,
         pu_WalletScansVisible = walletVisible,
         pu_EndpointScansVisible = endpointVisible,
         pu_WalletScansDeletedByUser = walletUsed - walletVisible,
         pu_EndpointScansDeletedByUser = endpointUsed - endpointVisible,
         pu_WalletScansInFlight = walletInFlight,
         pu_EndpointScansInFlight = endpointInFlight,
         pu_WalletScanLimit = plan_WalletScanLimit plan,
         pu_EndpointScanLimit = plan_EndpointScanLimit plan,
         pu_WalletScansLeft = planScansLeft (plan_WalletScanLimit plan) walletUsed
           (IsUnlimited plan PlanLimitKeyWallet),
         pu_EndpointScansLeft = planScansLeft (plan_EndpointScanLimit plan) endpointUsed
           (IsUnlimited plan PlanLimitKeyEndpoint) \<rparr>))))))))"

definition GetPlanUsageFromCounts :: "uuid_pkg \<Rightarrow> uuid \<Rightarrow> int \<Rightarrow> int \<Rightarrow> PlanUsage stm" where
  "GetPlanUsageFromCounts U userID walletCount endpointCount =
     (if userID = uuid_Nil then dfail (ErrNew ''user not authenticated'')
      else dbind (GetUserPlan U userID) (\<lambda>plan.
        let usage = zero_usage\<lparr> pu_WalletScansUsed := walletCount, pu_EndpointScansUsed := endpointCount,
              pu_WalletScanLimit := plan_WalletScanLimit plan,
              pu_EndpointScanLimit := plan_EndpointScanLimit plan \<rparr>;
            usage = usage\<lparr> pu_WalletScansLeft :=
              (if IsUnlimited plan PlanLimitKeyWallet then -1
               else let left = plan_WalletScanLimit plan - pu_WalletScansUsed usage in
                    if left < 0 then 0 else left) \<rparr>;
            usage = usage\<lparr> pu_EndpointScansLeft :=
              (if IsUnlimited plan PlanLimitKeyEndpoint then -1
               else let left = plan_EndpointScanLimit plan - pu_EndpointScansUsed usage in
                    if left < 0 then 0 else left) \<rparr>
        in dreturn usage))"

text \<open>
  The result is the Go triple \<open>(bool, *PlanUsage, error)\<close>: an unknown scan type
  returns the usage beside the error.
\<close>

type_synonym limit_check = "bool \<times> PlanUsage option \<times> goerr option"

definition CheckScanLimitFromCounts ::
  "uuid_pkg \<Rightarrow> uuid \<Rightarrow> string \<Rightarrow> int \<Rightarrow> int \<Rightarrow> db \<Rightarrow> limit_check \<times> db" where
  "CheckScanLimitFromCounts U userID scanType walletCount endpointCount d =
     (case GetPlanUsageFromCounts U userID walletCount endpointCount d of
        (Inl e, d') \<Rightarrow> ((False, None, Some e), d')
      | (Inr usage, d') \<Rightarrow>
          if scanType = PlanLimitKeyWallet
          then ((pu_WalletScanLimit usage = 0 \<or> pu_WalletScansUsed usage < pu_WalletScanLimit usage,
                 Some usage, None), d')
          else if scanType = PlanLimitKeyEndpoint
          then ((pu_EndpointScanLimit usage = 0 \<or> pu_EndpointScansUsed usage < pu_EndpointScanLimit usage,
                 Some usage, None), d')
          else ((False, Some usage, Some (ErrNew (''unknown scan type: '' @ scanType))), d'))"

text \<open>A nil repository is \<open>None\<close>; its count stays zero.\<close>

definition CheckScanLimit ::
  "uuid_pkg \<Rightarrow> uuid \<Rightarrow> string \<Rightarrow> (uuid \<Rightarrow> int stm) option \<Rightarrow> (uuid \<Rightarrow> int stm) option \<Rightarrow>
   db \<Rightarrow> limit_check \<times> db" where
  "CheckScanLimit U userID scanType scanResultRepo tlsScanResultRepo d =
     (case (case scanResultRepo of None \<Rightarrow> dreturn 0
            | Some countByUserID \<Rightarrow> wrap_stm ''failed to count wallet scans'' (countByUserID userID)) d of
        (Inl e, d') \<Rightarrow> ((False, None, Some e), d')
      | (Inr walletCount, d') \<Rightarrow>
     (case (case tlsScanResultRepo of None \<Rightarrow> dreturn 0
            | Some countByUserID \<Rightarrow> wrap_stm ''failed to count endpoint scans'' (countByUserID userID)) d' of
        (Inl e, d'') \<Rightarrow> ((False, None, Some e), d'')
      | (Inr endpointCount, d'') \<Rightarrow>
          CheckScanLimitFromCounts U userID scanType walletCount endpointCount d''))"

section \<open>Reservation of a scan request\<close>

definition planParallelScanCap :: "int \<Rightarrow> bool \<Rightarrow> int" where
  "planParallelScanCap limit unlimited =
     (if unlimited \<or> limit \<le> 0 then 3 else if limit < 3 then limit else 3)"

definition scanUsageKindForPlanLimitKey :: "string \<Rightarrow> string result" where
  "scanUsageKindForPlanLimitKey scanType =
     (if scanType = PlanLimitKeyWallet then Inr ScanUsageKindWallet
      else if scanType = PlanLimitKeyEndpoint then Inr ScanUsageKindEndpoint
      else Inl (ErrNew (''unknown scan type: '' @ scanType)))"

definition usageFromReservation :: "string \<Rightarrow> Plan \<Rightarrow> ScanUsageReservation \<Rightarrow> PlanUsage" where
  "usageFromReservation scanType plan res =
     (let inFlight = (if rv_Deny res = ScanUsageDenyParallel then rv_ParallelInFlight res
                      else rv_ExtraInFlight res);
          usage = zero_usage\<lparr> pu_WalletScanLimit := plan_WalletScanLimit plan,
            pu_EndpointScanLimit := plan_EndpointScanLimit plan \<rparr> in
      if scanType = PlanLimitKeyWallet
      then usage\<lparr> pu_WalletScansUsed := rv_LedgerCount res, pu_WalletScansInFlight := inFlight,
             pu_WalletScansLeft := planScansLeft (plan_WalletScanLimit plan) (rv_LedgerCount res)
               (IsUnlimited plan PlanLimitKeyWallet) \<rparr>
      else if scanType = PlanLimitKeyEndpoint
      then usage\<lparr> pu_EndpointScansUsed := rv_LedgerCount res, pu_EndpointScansInFlight := inFlight,
             pu_EndpointScansLeft := planScansLeft (plan_EndpointScanLimit plan) (rv_LedgerCount res)
               (IsUnlimited plan PlanLimitKeyEndpoint) \<rparr>
      else usage)"

text \<open>The limit of a scan type, \<open>None\<close> for the default branch of the switch.\<close>

definition plan_limit :: "Plan \<Rightarrow> string \<Rightarrow> int option" where
  "plan_limit plan scanType =
     (if scanType = PlanLimitKeyWallet then Some (plan_WalletScanLimit plan)
      else if scanType = PlanLimitKeyEndpoint then Some (plan_EndpointScanLimit plan)
      else None)"

definition ReservePostScanQuota ::
  "uuid_pkg \<Rightarrow> uuid \<Rightarrow> uuid \<Rightarrow> string \<Rightarrow> ScanUsageLedgerRepository option \<Rightarrow>
   (bool \<times> PlanUsage \<times> string) stm" where
  "ReservePostScanQuota U userID scanID scanType ledger =
     (if userID = uuid_Nil then dfail (ErrNew ''user not authenticated'')
      else if scanID = uuid_Nil then dfail (ErrNew ''scan id required'')
      else case ledger of None \<Rightarrow> dfail (ErrNew ''scan usage ledger required'') | Some L \<Rightarrow>
      dbind (dlift (scanUsageKindForPlanLimitKey scanType)) (\<lambda>kind.
      dbind (GetUserPlan U userID) (\<lambda>plan.
      case plan_limit plan scanType of
        None \<Rightarrow> dfail (ErrNew (''unknown scan type: '' @ scanType))
      | Some limit \<Rightarrow>
          let unlimited = IsUnlimited plan scanType;
              quotaLimit = (if unlimited then 0 else limit) in
          dbind (lr_ReserveScanUsage L userID scanID kind quotaLimit (planParallelScanCap limit unlimited))
            (\<lambda>res.
              let usage = usageFromReservation scanType plan res in
              if \<not> rv_Reserved res
              then dreturn (False, usage,
                     if rv_Deny res = ScanUsageDenyParallel then PostScanQuotaDenyParallel
                     else PostScanQuotaDenyQuota)
              else dreturn (True, usage, PostScanQuotaOK)))))"

section \<open>Lemmas\<close>

lemma wrap_stm_Inr [simp]: "wrap_stm msg m d = (Inr x, d') \<longleftrightarrow> m d = (Inr x, d')"
  by (auto simp: wrap_stm_def wrap_err_def split: prod.splits sum.splits)

lemma wrap_stm_calm [simp]: "m d = (Inr x, d0) \<Longrightarrow> wrap_stm msg m d = (Inr x, d0)"
  by simp

lemma quiet_wrap [quiet_intros]: "quiet m \<Longrightarrow> quiet (wrap_stm msg m)"
  by (auto simp: quiet_def wrap_stm_def split: prod.splits)

lemma quiet_first_or_nil [quiet_intros]: "quiet (first_or_nil f)"
  unfolding quiet_def using first_or_nil_tables by blast

lemma quiet_GetUserPlan [quiet_intros]: "quiet (GetUserPlan U u)"
  unfolding GetUserPlan_def User_FindByID_def Plan_FindByID_def by (intro quiet_intros)

lemmas GetUserPlan_tables = quietD [OF quiet_GetUserPlan]

lemma calm_first_or_nil [calm_intros]: "stays_calm (first_or_nil f)"
  by (simp add: stays_calm_def)

lemma calm_wrap [calm_intros]:
  assumes "stays_calm m"
  shows "stays_calm (wrap_stm msg m)"
  unfolding stays_calm_def
proof (intro allI impI)
  fix d r d' assume c: "db_faults d = []" and "wrap_stm msg m d = (r, d')"
  then obtain r0 where "m d = (r0, d')" by (auto simp: wrap_stm_def split: prod.splits)
  then show "db_faults d' = []" using stays_calmD [OF assms] c by blast
qed

lemma calm_GetUserPlan [calm_intros]: "stays_calm (GetUserPlan U u)"
  unfolding GetUserPlan_def User_FindByID_def Plan_FindByID_def by (intro calm_intros)

lemma calm_ReservePostScanQuota:
  "stays_calm (ReservePostScanQuota U u s t (Some (NewScanUsageLedgerRepository fresh now)))"
  unfolding ReservePostScanQuota_def NewScanUsageLedgerRepository_def Let_def
  by (simp add: calm_intros split: option.split)

lemma GetUserPlan_Inr:
  assumes "GetUserPlan U u d = (Inr p, d')"
  shows "\<exists>x \<in> set (db_users d). uuid_String U (user_ID x) = uuid_String U u \<and> user_DeletedAt x = None
    \<and> p \<in> set (db_plans d) \<and> plan_ID p = user_PlanID x \<and> plan_DeletedAt p = None"
proof -
  obtain x d0 where x: "User_FindByID U (uuid_String U u) d = (Inr (Some x), d0)"
      and p: "Plan_FindByID (user_PlanID x) d0 = (Inr (Some p), d')"
    using assms unfolding GetUserPlan_def
    by (auto dest!: dbind_Inr split: option.splits)
  have t: "tables d0 = tables d" using x by (auto simp: User_FindByID_def intro: first_or_nil_tables)
  have "x \<in> set (live_users d)" "uuid_String U (user_ID x) = uuid_String U u"
    using first_or_nil_filter [OF x [unfolded User_FindByID_def]] by simp_all
  moreover have "p \<in> set (live_plans d0)" "plan_ID p = user_PlanID x"
    using first_or_nil_filter [OF p [unfolded Plan_FindByID_def]] by simp_all
  ultimately show ?thesis
    using t by (intro bexI [of _ x]) (simp_all add: live_users_def live_plans_def tables_eq_iff)
qed

lemma kind_of_scan_type:
  "scanUsageKindForPlanLimitKey t = Inr k \<Longrightarrow> valid_kind k \<and> plan_limit p t \<noteq> None"
  by (auto simp: scanUsageKindForPlanLimitKey_def valid_kind_def plan_limit_def split: if_splits)

lemma IsUnlimited_iff: "plan_limit p t = Some n \<Longrightarrow> IsUnlimited p t \<longleftrightarrow> n = 0"
  by (auto simp: plan_limit_def IsUnlimited_def go_consts split: if_splits)

lemma planParallelScanCap_range: "1 \<le> planParallelScanCap n b \<and> planParallelScanCap n b \<le> 3"
  by (simp add: planParallelScanCap_def)

text \<open>What the service passes to the ledger: the quota is the limit, which is 0 when unlimited.\<close>

definition quota_of :: "Plan \<Rightarrow> string \<Rightarrow> int" where
  "quota_of p t = (case plan_limit p t of Some n \<Rightarrow> n | None \<Rightarrow> 0)"

definition cap_of :: "Plan \<Rightarrow> string \<Rightarrow> int" where
  "cap_of p t = planParallelScanCap (quota_of p t) (IsUnlimited p t)"

context usage_ledger
begin

lemma post_reserve_Inr:
  assumes "ReservePostScanQuota U u s t (Some L) d = (Inr (ok, usage, why), d')"
  shows "\<exists>k p d0 out. scanUsageKindForPlanLimitKey t = Inr k \<and> GetUserPlan U u d = (Inr p, d0)
    \<and> tables d0 = tables d \<and> lr_ReserveScanUsage L u s k (quota_of p t) (cap_of p t) d0 = (Inr out, d')
    \<and> ok = rv_Reserved out \<and> usage = usageFromReservation t p out
    \<and> why = (if rv_Reserved out then PostScanQuotaOK
             else if rv_Deny out = ScanUsageDenyParallel then PostScanQuotaDenyParallel
             else PostScanQuotaDenyQuota)"
proof -
  obtain k p d0 n where k: "scanUsageKindForPlanLimitKey t = Inr k"
      and p: "GetUserPlan U u d = (Inr p, d0)" and n: "plan_limit p t = Some n"
      and r: "(let unlimited = IsUnlimited p t; quotaLimit = (if unlimited then 0 else n) in
          dbind (lr_ReserveScanUsage L u s k quotaLimit (planParallelScanCap n unlimited)) (\<lambda>res.
              let usage = usageFromReservation t p res in
              if \<not> rv_Reserved res
              then dreturn (False, usage,
                     if rv_Deny res = ScanUsageDenyParallel then PostScanQuotaDenyParallel
                     else PostScanQuotaDenyQuota)
              else dreturn (True, usage, PostScanQuotaOK))) d0 = (Inr (ok, usage, why), d')"
    using assms unfolding ReservePostScanQuota_def
    by (auto simp: dlift_def dest!: dbind_Inr split: if_splits option.splits)
  have q: "(if IsUnlimited p t then 0 else n) = quota_of p t" "planParallelScanCap n (IsUnlimited p t) = cap_of p t"
    using IsUnlimited_iff [OF n] n by (auto simp: quota_of_def cap_of_def)
  obtain out where out: "lr_ReserveScanUsage L u s k (quota_of p t) (cap_of p t) d0 = (Inr out, d')"
      "(ok, usage, why) = (if \<not> rv_Reserved out
              then (False, usageFromReservation t p out,
                     if rv_Deny out = ScanUsageDenyParallel then PostScanQuotaDenyParallel
                     else PostScanQuotaDenyQuota)
              else (True, usageFromReservation t p out, PostScanQuotaOK))"
    using r unfolding Let_def q by (auto dest!: dbind_Inr split: if_splits)
  show ?thesis
    by (rule exI [of _ k], rule exI [of _ p], rule exI [of _ d0], rule exI [of _ out])
      (use k p out GetUserPlan_tables [OF p] in \<open>auto split: if_splits\<close>)
qed

lemma clean_post_reserve: "clean (ReservePostScanQuota U u s t (Some L))"
proof -
  have r: "clean (lr_ReserveScanUsage L u s k q c)" for k q c
    unfolding clean_def using reserve_fails by blast
  show ?thesis
    unfolding ReservePostScanQuota_def Let_def
    by (simp add: quiet_clean quiet_intros split: option.split)
      (auto intro!: clean_dbind_quiet [OF quiet_return(3)] clean_dbind_quiet [OF quiet_GetUserPlan]
        clean_dbind_never_fails [OF r] quiet_clean [OF quiet_return(2)] split: option.split)
qed

end

lemma post_quota_denied_tables:
  assumes "ReservePostScanQuota U u s t (Some (NewScanUsageLedgerRepository fresh now)) d
    = (Inr (ok, usage, why), d')" and "\<not> ok"
  shows "tables d' = tables d"
  using ledger.post_reserve_Inr [OF assms(1)] assms(2) ledger.reserve_denied by metis

text \<open>Releasing a newly granted reservation restores the tables.\<close>

lemma post_quota_release:
  assumes "ReservePostScanQuota U u s t (Some (NewScanUsageLedgerRepository fresh now)) d
    = (Inr (True, usage, why), d')" and "s \<notin> ev_ScanID ` set (usage_events d)"
  shows "tables (release_usage s d') = tables d"
proof -
  obtain k p d0 out where t0: "tables d0 = tables d"
    and r: "lr_ReserveScanUsage (NewScanUsageLedgerRepository fresh now) u s k (quota_of p t) (cap_of p t) d0
      = (Inr out, d')" and ok: "rv_Reserved out"
    using ledger.post_reserve_Inr [OF assms(1)] by auto
  obtain e where e: "ev_ScanID e = s" "tables d' = tables (insert_usage e d0)"
    using ledger.reserve_inserts [OF r ok] by blast
  have "s \<notin> ev_ScanID ` set (usage_events d0)" using assms(2) t0 by (simp add: tables_eq_iff)
  then have "release_usage s (insert_usage e d0) = d0" using release_insert e(1) by blast
  then show ?thesis using release_cong [OF e(2), of s] t0 by simp
qed

section \<open>Properties\<close>

definition ex_plan :: Plan where
  "ex_plan = \<lparr> plan_ID = 5, plan_Name = ''Free'', plan_Type = PlanTypeFree, plan_WalletScanLimit = 1,
     plan_EndpointScanLimit = 1, plan_Price = 0, plan_IsActive = True, plan_CreatedAt = 1,
     plan_UpdatedAt = 1, plan_DeletedAt = None \<rparr>"

definition ex_user :: User where
  "ex_user = \<lparr> user_ID = 1, user_Email = ''a@b'', user_Password = '''', user_PlanID = 5,
     user_CreatedAt = 1, user_UpdatedAt = 1, user_DeletedAt = None \<rparr>"

definition ex_plan_db :: db where
  "ex_plan_db = ex_db\<lparr>db_plans := [ex_plan], db_users := [ex_user]\<rparr>"

lemma ex_GetUserPlan: "GetUserPlan ex_uuid 1 ex_plan_db = (Inr ex_plan, ex_plan_db)"
  by (simp add: GetUserPlan_def User_FindByID_def Plan_FindByID_def ex_plan_db_def ex_db_def
      ex_uuid_def live_users_def live_plans_def ex_user_def ex_plan_def dbind_def dreturn_def)

text \<open>
  C24: the quota decision on a scan request.  When the service returns, the user
  has a live plan that sets the limit of the scan type.  An accepted request has
  its ledger row, leaves the ledger within a positive limit and never more than
  three scans running (and not more than the limit, if that is smaller).  A
  refused one changes nothing, and the reason says which limit was reached: the
  quota first, the parallel cap otherwise.
\<close>

theorem post_quota_enforced:
  assumes "ReservePostScanQuota U u s t (Some (NewScanUsageLedgerRepository fresh now)) d
    = (Inr (ok, usage, why), d')"
  shows "\<exists>p n k. GetUserPlan U u d = (Inr p, snd (GetUserPlan U u d)) \<and> plan_limit p t = Some n
    \<and> scanUsageKindForPlanLimitKey t = Inr k
    \<and> (ok \<longrightarrow> why = PostScanQuotaOK \<and> s \<in> ev_ScanID ` set (usage_events d')
        \<and> (n > 0 \<longrightarrow> ledger_used u k d' + extra_in_flight u k d' \<le> n \<and> running_scans u k d' \<le> min n 3)
        \<and> running_scans u k d' \<le> 3)
    \<and> (\<not> ok \<longrightarrow> tables d' = tables d
        \<and> why = (if n > 0 \<and> n \<le> ledger_used u k d + extra_in_flight u k d then PostScanQuotaDenyQuota
                 else PostScanQuotaDenyParallel)
        \<and> (why = PostScanQuotaDenyParallel \<longrightarrow> running_scans u k d \<ge> cap_of p t))"
proof -
  let ?L = "NewScanUsageLedgerRepository fresh now"
  obtain k p d0 out where k: "scanUsageKindForPlanLimitKey t = Inr k"
    and p: "GetUserPlan U u d = (Inr p, d0)" and t0: "tables d0 = tables d"
    and r: "lr_ReserveScanUsage ?L u s k (quota_of p t) (cap_of p t) d0 = (Inr out, d')"
    and ok: "ok = rv_Reserved out"
    and why: "why = (if rv_Reserved out then PostScanQuotaOK
             else if rv_Deny out = ScanUsageDenyParallel then PostScanQuotaDenyParallel
             else PostScanQuotaDenyQuota)"
    using ledger.post_reserve_Inr [OF assms] by blast
  obtain n where n: "plan_limit p t = Some n" using kind_of_scan_type [OF k, of p] by blast
  have q: "quota_of p t = n" using n by (simp add: quota_of_def)
  have cap: "cap_of p t \<ge> 1" "cap_of p t \<le> 3" "n > 0 \<longrightarrow> cap_of p t \<le> n"
    using IsUnlimited_iff [OF n] q by (auto simp: cap_of_def planParallelScanCap_def)
  have r': "ReserveScanUsage fresh now u s k n (cap_of p t) d0 = (Inr out, d')"
    using r by (simp add: NewScanUsageLedgerRepository_def q)
  note lim = ledger.within_limits [OF r] and R = reserve_Inr [OF r']
  have sn: "quota_snapshot u k d0 = quota_snapshot u k d" using t0 by (metis ledger_tables(7))
  have "ok \<Longrightarrow> s \<in> ev_ScanID ` set (usage_events d')"
    using R(4) ok by (simp add: tables_eq_iff insert_usage_def)
  moreover have "ok \<Longrightarrow> running_scans u k d' \<le> cap_of p t" using lim ok cap by simp
  moreover have "ok \<Longrightarrow> n > 0 \<longrightarrow> ledger_used u k d' + extra_in_flight u k d' \<le> n" using lim ok q by simp
  moreover have "\<not> ok \<Longrightarrow> tables d' = tables d" using R(4) ok t0 by simp
  moreover have "\<not> ok \<Longrightarrow> why = (if n > 0 \<and> n \<le> ledger_used u k d + extra_in_flight u k d
        then PostScanQuotaDenyQuota else PostScanQuotaDenyParallel)
      \<and> (why = PostScanQuotaDenyParallel \<longrightarrow> running_scans u k d \<ge> cap_of p t)"
    using R(3) sn ok why by (auto simp: decision_cases go_consts split: if_splits)
  ultimately show ?thesis
    using p n k ok why cap
    by (intro exI [of _ p] exI [of _ n] exI [of _ k]) (auto simp: min_def)
qed

lemma ex_post_quota:
  "ReservePostScanQuota ex_uuid 1 2 PlanLimitKeyWallet (Some (NewScanUsageLedgerRepository 9 5)) ex_plan_db
   = (Inr (True, usageFromReservation PlanLimitKeyWallet ex_plan
        \<lparr> rv_Reserved = True, rv_Deny = ScanUsageAllowed, rv_LedgerCount = 0,
          rv_ExtraInFlight = 0, rv_ParallelInFlight = 0 \<rparr>, PostScanQuotaOK),
      ex_plan_db\<lparr>usage_events := [ex_event]\<rparr>)"
proof -
  have g: "GetUserPlan ex_uuid 1 ex_plan_db = (Inr ex_plan, ex_plan_db)" by (rule ex_GetUserPlan)
  have r: "ReserveScanUsage 9 5 1 2 ScanUsageKindWallet 1 1 ex_plan_db
      = (Inr \<lparr> rv_Reserved = True, rv_Deny = ScanUsageAllowed, rv_LedgerCount = 0,
          rv_ExtraInFlight = 0, rv_ParallelInFlight = 0 \<rparr>, ex_plan_db\<lparr>usage_events := [ex_event]\<rparr>)"
    by (simp add: reserve_eval ex_plan_db_def ex_db_def ex_event_def)
  show ?thesis
    using g r
    by (simp add: ReservePostScanQuota_def scanUsageKindForPlanLimitKey_def plan_limit_def dbind_def
        dlift_def dreturn_def NewScanUsageLedgerRepository_def IsUnlimited_def planParallelScanCap_def
        ex_plan_def Let_def)
qed

theorem post_quota_enforced_witness:
  "fst (ReservePostScanQuota ex_uuid 1 2 PlanLimitKeyWallet (Some (NewScanUsageLedgerRepository 9 5))
     ex_plan_db) = Inr (True, usageFromReservation PlanLimitKeyWallet ex_plan
        \<lparr> rv_Reserved = True, rv_Deny = ScanUsageAllowed, rv_LedgerCount = 0,
          rv_ExtraInFlight = 0, rv_ParallelInFlight = 0 \<rparr>, PostScanQuotaOK)
   \<and> running_scans 1 ScanUsageKindWallet (ex_plan_db\<lparr>usage_events := [ex_event]\<rparr>) \<le> 3"
proof -
  obtain p n k where "GetUserPlan ex_uuid 1 ex_plan_db = (Inr p, snd (GetUserPlan ex_uuid 1 ex_plan_db))"
      "scanUsageKindForPlanLimitKey PlanLimitKeyWallet = Inr k"
      "running_scans 1 k (ex_plan_db\<lparr>usage_events := [ex_event]\<rparr>) \<le> 3"
    using post_quota_enforced [OF ex_post_quota] by blast
  then show ?thesis using ex_post_quota by (simp add: scanUsageKindForPlanLimitKey_def)
qed

text \<open>
  A scan request that ends in an error reserves nothing: whichever check,
  lookup or statement failed, the tables are as before.
\<close>

theorem post_quota_error_clean:
  assumes "ReservePostScanQuota U u s t (Some (NewScanUsageLedgerRepository fresh now)) d = (Inl e, d')"
  shows "tables d' = tables d"
  by (rule cleanD [OF ledger.clean_post_reserve assms])

theorem post_quota_error_clean_witness:
  "ReservePostScanQuota ex_uuid 1 2 ''mainframe'' (Some (NewScanUsageLedgerRepository 9 5)) ex_plan_db
     = (Inl (ErrNew ''unknown scan type: mainframe''), ex_plan_db)
   \<and> tables ex_plan_db = tables ex_plan_db"
proof -
  have e: "ReservePostScanQuota ex_uuid 1 2 ''mainframe'' (Some (NewScanUsageLedgerRepository 9 5)) ex_plan_db
     = (Inl (ErrNew ''unknown scan type: mainframe''), ex_plan_db)"
    by (simp add: ReservePostScanQuota_def scanUsageKindForPlanLimitKey_def go_consts dbind_def dlift_def)
  show ?thesis using e post_quota_error_clean [OF e] by simp
qed

end
