(* ===== verification/Post_Scan.thy ===== *)
theory Post_Scan
  imports Plan_Service Http_Model Address Scan_Pending
begin

text \<open>
  The acceptance of a scan request, \<open>src/internal/handler/discovery.go\<close>: the
  checks, the pending reservation, the quota reservation, the publication, and
  the rollback of what was done when a later stage fails.

  The state of a request is the database and the list of calls made to the
  outside (the pending store and the broker), in order.  The answers to those
  calls, the scanner presence, the policy checker, \<open>url.Parse\<close>, \<open>uuid.New()\<close> and
  the clock are fields of the handler or of its surroundings.  The container
  wires a pending store into every handler, so the store is not nil here.
\<close>

section \<open>The handler and its surroundings\<close>

text \<open>The messages of the contract \<open>scanrequest/v1\<close>.\<close>

datatype scan_message =
    WalletRequested string string string
  | TLSRequested string string string

datatype outcall =
    OReserveWallet PendingRecord
  | OPutTLS PendingRecord
  | ODelete uuid uuid
  | ODeleteWalletReservation uuid string uuid
  | OPublish scan_message

record world =
  w_db :: db
  w_out :: "outcall list"

definition call_out :: "outcall \<Rightarrow> world \<Rightarrow> world" where
  "call_out x w = w\<lparr>w_out := w_out w @ [x]\<rparr>"

definition run_db :: "'a stm \<Rightarrow> world \<Rightarrow> 'a result \<times> world" where
  "run_db m w = (case m (w_db w) of (r, d) \<Rightarrow> (r, w\<lparr>w_db := d\<rparr>))"

record ScannerPresenceChecker =
  sp_HasScanner :: "string \<Rightarrow> bool"
  sp_ListScanners :: "gval list"

record WalletTargetContext =
  wt_Exists :: bool
  wt_PolicyCount :: int
  wt_DraftCount :: int

record PolicyChecker =
  pc_PersistedPoliciesReferenceScan :: "uuid \<Rightarrow> string \<Rightarrow> uuid \<Rightarrow> bool result"
  pc_ActiveWalletCPMContextForTarget :: "uuid \<Rightarrow> string \<Rightarrow> string \<Rightarrow> WalletTargetContext result"

record DiscoveryHandler =
  dh_Blockchains :: "(string \<times> string) list"
  dh_publish :: "scan_message \<Rightarrow> unit result"
  dh_planService :: bool
  dh_scannerPresence :: "ScannerPresenceChecker option"
  dh_scanResultRepo :: bool
  dh_scanUsageLedger :: "ScanUsageLedgerRepository option"
  dh_scanPending :: PendingStore
  dh_policyRef :: "PolicyChecker option"

record request_env =
  re_uuid :: uuid_pkg
  re_url_Parse :: "string \<Rightarrow> (string \<times> string) result"
  re_fresh :: uuid
  re_now :: go_time

record ScanRequest =
  sq_Address :: string
  sq_URL :: string

record queueScanError =
  qe_committed :: bool
  qe_status :: int
  qe_body :: gmap

section \<open>Answers\<close>

definition qerror :: "int \<Rightarrow> gmap \<Rightarrow> queueScanError" where
  "qerror status body = \<lparr> qe_committed = False, qe_status = status, qe_body = body \<rparr>"

definition committed_error :: queueScanError where
  "committed_error = \<lparr> qe_committed = True, qe_status = 0, qe_body = [] \<rparr>"

text \<open>\<open>v1ErrorBody\<close>: \<open>map_of\<close> reads the map, a nil map is the empty one.\<close>

definition str_field :: "gmap \<Rightarrow> string \<Rightarrow> string option" where
  "str_field body k = (case map_of body k of Some (GStr s) \<Rightarrow> Some s | _ \<Rightarrow> None)"

definition v1ErrorBody :: "gmap \<Rightarrow> gmap" where
  "v1ErrorBody body =
     (let em = (case str_field body ''message'' of
            Some msg \<Rightarrow> ((case str_field body ''error'' of Some code \<Rightarrow> code | None \<Rightarrow> ''error''), msg)
          | None \<Rightarrow> (case str_field body ''error'' of
                       Some errStr \<Rightarrow> (''error'', errStr)
                     | None \<Rightarrow> (''error'', ''request failed'')));
          kind = (case str_field body ''blocking_kind'' of
                    Some k \<Rightarrow> (if k \<noteq> '''' then [(''blocking_kind'', GStr k)] else []) | None \<Rightarrow> [])
      in [(''error'', GStr (fst em)), (''message'', GStr (snd em))] @ kind)"

definition EdgeWalletScans :: string where "EdgeWalletScans = ''/api/discovery/v1/wallets/scans/''"
definition EdgeTLSScans :: string where "EdgeTLSScans = ''/api/discovery/v1/tls/scans/''"

definition postScanV1AcceptedJSON :: "uuid_pkg \<Rightarrow> uuid \<Rightarrow> string \<Rightarrow> gmap" where
  "postScanV1AcceptedJSON U scanID family =
     (let base = (if family = ''wallet'' then EdgeWalletScans else EdgeTLSScans) in
      [(''scan_id'', GStr (uuid_String U scanID)), (''scan_family'', GStr family),
       (''status'', GStr ''requested''), (''location'', GStr (base @ uuid_String U scanID))])"

definition scanInProgressErrorBody :: gmap where
  "scanInProgressErrorBody = [(''error'', GStr ''SCAN_IN_PROGRESS''),
     (''message'', GStr ''A wallet scan is already in progress for this target.'')]"

definition scanInProgressQueueError :: queueScanError where
  "scanInProgressQueueError = qerror 409 scanInProgressErrorBody"

definition cpmPolicyExistsForWalletTargetErrorBody :: gmap where
  "cpmPolicyExistsForWalletTargetErrorBody =
     [(''error'', GStr ''CPM_EXISTS_FOR_WALLET_TARGET''), (''blocking_kind'', GStr ''policy''),
      (''message'', GStr (''A persisted crypto policy already exists for this wallet address. ''
         @ ''Delete or replace it before starting a new scan.''))]"

definition cpmPolicyExistsForWalletTargetQueueError :: queueScanError where
  "cpmPolicyExistsForWalletTargetQueueError = qerror 409 cpmPolicyExistsForWalletTargetErrorBody"

definition cpmContextCheckUnavailableQueueError :: queueScanError where
  "cpmContextCheckUnavailableQueueError = qerror 503
     [(''error'', GStr ''CPM_CONTEXT_CHECK_UNAVAILABLE''),
      (''message'', GStr ''The scan could not be accepted because CPM context could not be verified.'')]"

definition postScanLimitErrorMessage :: "string \<Rightarrow> PlanUsage \<Rightarrow> string \<Rightarrow> string" where
  "postScanLimitErrorMessage scanType usage why =
     (if why = PostScanQuotaDenyParallel
      then if scanType = ''wallet''
           then ''too many wallet scans in progress ('' @ FormatInt (pu_WalletScansInFlight usage)
                @ ''). Please wait for a scan to finish''
           else ''too many endpoint scans in progress ('' @ FormatInt (pu_EndpointScansInFlight usage)
                @ ''). Please wait for a scan to finish''
      else if scanType = ''wallet''
      then ''wallet scan limit reached ('' @ FormatInt (pu_WalletScansUsed usage) @ '' successful + ''
           @ FormatInt (pu_WalletScansInFlight usage) @ '' in progress / ''
           @ FormatInt (pu_WalletScanLimit usage) @ ''). Please upgrade your plan to continue''
      else ''endpoint scan limit reached ('' @ FormatInt (pu_EndpointScansUsed usage) @ '' successful + ''
           @ FormatInt (pu_EndpointScansInFlight usage) @ '' in progress / ''
           @ FormatInt (pu_EndpointScanLimit usage) @ ''). Please upgrade your plan to continue'')"

definition tenantIDFromDiscoveryV1Request :: "ctx \<Rightarrow> string" where
  "tenantIDFromDiscoveryV1Request c = TrimSpace (req_Get c ''X-Tenant-Id'')"

section \<open>Stages\<close>

definition reserveScanQuota ::
  "request_env \<Rightarrow> DiscoveryHandler \<Rightarrow> uuid \<Rightarrow> uuid \<Rightarrow> string \<Rightarrow> world \<Rightarrow> queueScanError option \<times> world" where
  "reserveScanQuota E h userID scanID scanType w =
     (if \<not> dh_planService h then (None, w)
      else if dh_scanUsageLedger h = None
      then (Some (qerror 500 [(''error'',
              GStr ''failed to check plan limits: scan usage ledger not configured'')]), w)
      else case run_db (ReservePostScanQuota (re_uuid E) userID scanID scanType (dh_scanUsageLedger h)) w of
        (Inl err, w') \<Rightarrow>
          (Some (qerror 500 [(''error'', GStr (''failed to check plan limits: '' @ Error err))]), w')
      | (Inr (reserved, usage, why), w') \<Rightarrow>
          if \<not> reserved
          then (Some (qerror 403 [(''error'', GStr (postScanLimitErrorMessage scanType usage why))]), w')
          else (None, w'))"

definition rollbackScanAccept ::
  "DiscoveryHandler \<Rightarrow> uuid \<Rightarrow> string \<Rightarrow> uuid \<Rightarrow> bool \<Rightarrow> world \<Rightarrow> world" where
  "rollbackScanAccept h userID tenantID scanID releaseQuota w =
     (let w = (case dh_scanUsageLedger h of
                 Some L \<Rightarrow> if releaseQuota then snd (run_db (lr_ReleaseSuccessUsageByScanID L scanID) w) else w
               | None \<Rightarrow> w)
      in call_out (ODelete userID scanID) w)"

definition walletScanEntityIsInFlight :: "ScanResultEntity option \<Rightarrow> bool" where
  "walletScanEntityIsInFlight e =
     (case e of None \<Rightarrow> False
      | Some e \<Rightarrow> let st = walletScanLifecycleStatusV1 (sr_Status e) in st = ''requested'' \<or> st = ''started'')"

text \<open>The result is \<open>(block, stale)\<close> or the error.\<close>

definition pendingWalletReservationState ::
  "DiscoveryHandler \<Rightarrow> uuid \<Rightarrow> string \<Rightarrow> PendingRecord \<Rightarrow> world \<Rightarrow> (queueScanError + bool \<times> bool) \<times> world" where
  "pendingWalletReservationState h userID address rec w =
     (let by_record =
        (if IsZero (pr_CreatedAt rec) then (False, True)
         else if pr_UserID rec = userID \<and> pr_Family rec = ''wallet'' \<and> EqualFold (pr_Address rec) address
         then (True, False)
         else (False, True)) in
      if pr_ScanID rec = uuid_Nil then (Inr (False, True), w)
      else if dh_scanResultRepo h
      then (case run_db (FindOwnedWalletScanByID userID (pr_ScanID rec)) w of
              (Inl err, w') \<Rightarrow> (Inl (qerror 500 [(''error'', GStr ''internal_error''),
                 (''message'', GStr (Error err))]), w')
            | (Inr (Some ent), w') \<Rightarrow>
                (Inr (walletScanEntityIsInFlight (Some ent), \<not> walletScanEntityIsInFlight (Some ent)), w')
            | (Inr None, w') \<Rightarrow> (Inr by_record, w'))
      else (Inr by_record, w))"

text \<open>The second half of \<open>checkWalletScanInFlight\<close>: the newest stored scan of the address.\<close>

definition check_stored_in_flight ::
  "DiscoveryHandler \<Rightarrow> uuid \<Rightarrow> string \<Rightarrow> world \<Rightarrow> queueScanError option \<times> world" where
  "check_stored_in_flight h userID address w =
     (if \<not> dh_scanResultRepo h then (None, w)
      else case run_db (ListOwnerWalletScansByAddress userID address) w of
        (Inl err, w') \<Rightarrow> (Some (qerror 500 [(''error'', GStr ''internal_error''),
           (''message'', GStr (Error err))]), w')
      | (Inr rows, w') \<Rightarrow>
          if length rows > 0 \<and> walletScanEntityIsInFlight (Some (rows ! 0))
          then (Some scanInProgressQueueError, w') else (None, w'))"

definition checkWalletScanInFlight ::
  "DiscoveryHandler \<Rightarrow> uuid \<Rightarrow> string \<Rightarrow> string \<Rightarrow> world \<Rightarrow> queueScanError option \<times> world" where
  "checkWalletScanInFlight h userID tenantID address w =
     (case ps_GetWalletByOwnerAddress (dh_scanPending h) userID tenantID address of
        Inl _ \<Rightarrow> (Some (qerror 503 [(''error'', GStr ''service_unavailable''),
           (''message'', GStr ''wallet scan queue state is temporarily unavailable'')]), w)
      | Inr None \<Rightarrow> check_stored_in_flight h userID address w
      | Inr (Some rec) \<Rightarrow>
          (case pendingWalletReservationState h userID address rec w of
             (Inl qe, w') \<Rightarrow> (Some qe, w')
           | (Inr (block, stale), w') \<Rightarrow>
               if block then (Some scanInProgressQueueError, w')
               else check_stored_in_flight h userID address
                 (if stale then call_out (ODeleteWalletReservation userID address (pr_ScanID rec)) w' else w')))"

definition checkWalletCPMContext :: "DiscoveryHandler \<Rightarrow> ctx \<Rightarrow> uuid \<Rightarrow> string \<Rightarrow> queueScanError option" where
  "checkWalletCPMContext h c userID normalizedAddress =
     (case dh_policyRef h of
        None \<Rightarrow> Some cpmContextCheckUnavailableQueueError
      | Some checker \<Rightarrow>
          (case pc_ActiveWalletCPMContextForTarget checker userID (tenantIDFromDiscoveryV1Request c) normalizedAddress of
             Inl _ \<Rightarrow> Some cpmContextCheckUnavailableQueueError
           | Inr active \<Rightarrow> if wt_PolicyCount active > 0 then Some cpmPolicyExistsForWalletTargetQueueError
                           else None))"

definition no_scanner :: "DiscoveryHandler \<Rightarrow> string \<Rightarrow> bool" where
  "no_scanner h kind = (case dh_scannerPresence h of None \<Rightarrow> False | Some p \<Rightarrow> \<not> sp_HasScanner p kind)"

type_synonym prepared = "(queueScanError + uuid \<times> uuid \<times> string) \<times> ctx \<times> world"

definition prepareWalletScanQueue ::
  "request_env \<Rightarrow> DiscoveryHandler \<Rightarrow> ctx \<Rightarrow> string \<Rightarrow> world \<Rightarrow> prepared" where
  "prepareWalletScanQueue E h c0 address w =
     (case getAuthenticatedUserID c0 of
        (_, Some err, c) \<Rightarrow> (Inl committed_error, c, w)
      | (userID, None, c) \<Rightarrow>
          if address = '''' then (Inl (qerror 400 [(''error'', GStr ''address is required'')]), c, w)
          else if no_scanner h ''wallet''
          then (Inl (qerror 503 [(''error'', GStr ''no wallet scanner available, please try again later'')]), c, w)
          else case ValidateAndNormalizeAddress address of
            Inl err \<Rightarrow> (Inl (qerror 400 [(''error'', GStr (Error err))]), c, w)
          | Inr normalized \<Rightarrow>
              (case checkWalletScanInFlight h userID (tenantIDFromDiscoveryV1Request c) normalized w of
                 (Some qe, w') \<Rightarrow> (Inl qe, c, w')
               | (None, w') \<Rightarrow>
                   (case checkWalletCPMContext h c userID normalized of
                      Some qe \<Rightarrow> (Inl qe, c, w')
                    | None \<Rightarrow> (Inr (re_fresh E, userID, normalized), c, w'))))"

definition schemeHTTP :: string where "schemeHTTP = ''http://''"
definition schemeHTTPS :: string where "schemeHTTPS = ''https://''"

definition prepareTLSScanQueue ::
  "request_env \<Rightarrow> DiscoveryHandler \<Rightarrow> ctx \<Rightarrow> string \<Rightarrow> world \<Rightarrow> prepared" where
  "prepareTLSScanQueue E h c0 endpointURL w =
     (case getAuthenticatedUserID c0 of
        (_, Some err, c) \<Rightarrow> (Inl committed_error, c, w)
      | (userID, None, c) \<Rightarrow>
          if no_scanner h ''tls''
          then (Inl (qerror 503 [(''error'', GStr ''no TLS scanner available, please try again later'')]), c, w)
          else if \<not> HasPrefix endpointURL schemeHTTPS \<and> \<not> HasPrefix endpointURL schemeHTTP
          then (Inl (qerror 400 [(''error'', GStr ''url must use http:// or https:// protocol'')]), c, w)
          else case re_url_Parse E endpointURL of
            Inl err \<Rightarrow> (Inl (qerror 400 [(''error'', GStr (''invalid URL format: '' @ Error err))]), c, w)
          | Inr (host, hostname) \<Rightarrow>
              if host = '''' then (Inl (qerror 400 [(''error'', GStr ''url must include a valid hostname'')]), c, w)
              else if hostname = ''''
              then (Inl (qerror 400 [(''error'', GStr ''url must include a valid hostname'')]), c, w)
              else (Inr (re_fresh E, userID, endpointURL), c, w))"

definition publish_message :: "DiscoveryHandler \<Rightarrow> scan_message \<Rightarrow> world \<Rightarrow> queueScanError option \<times> world" where
  "publish_message h m w =
     (case dh_publish h m of
        Inl _ \<Rightarrow> (Some (qerror 500 [(''error'', GStr ''failed to queue scan request'')]), call_out (OPublish m) w)
      | Inr _ \<Rightarrow> (None, call_out (OPublish m) w))"

definition publishWalletScanRequested ::
  "request_env \<Rightarrow> DiscoveryHandler \<Rightarrow> uuid \<Rightarrow> uuid \<Rightarrow> string \<Rightarrow> world \<Rightarrow> queueScanError option \<times> world" where
  "publishWalletScanRequested E h scanID userID normalized =
     publish_message h (WalletRequested (uuid_String (re_uuid E) scanID) (uuid_String (re_uuid E) userID) normalized)"

definition publishTLSScanRequested ::
  "request_env \<Rightarrow> DiscoveryHandler \<Rightarrow> uuid \<Rightarrow> uuid \<Rightarrow> string \<Rightarrow> world \<Rightarrow> queueScanError option \<times> world" where
  "publishTLSScanRequested E h scanID userID endpointURL =
     publish_message h (TLSRequested (uuid_String (re_uuid E) scanID) (uuid_String (re_uuid E) userID) endpointURL)"

section \<open>The endpoint\<close>

definition respond_error :: "queueScanError \<Rightarrow> ctx \<Rightarrow> goerr option \<times> ctx" where
  "respond_error qe c = status_json (qe_status qe) (v1ErrorBody (qe_body qe)) c"

definition not_accepted_body :: gmap where
  "not_accepted_body = [(''error'', GStr ''service_unavailable''),
     (''message'', GStr ''The scan could not be accepted; please try again.'')]"

text \<open>The part that both families share: quota, publication, answer.\<close>

definition finish_accept ::
  "request_env \<Rightarrow> DiscoveryHandler \<Rightarrow> ctx \<Rightarrow> uuid \<Rightarrow> uuid \<Rightarrow> string \<Rightarrow> string \<Rightarrow>
   (world \<Rightarrow> queueScanError option \<times> world) \<Rightarrow> world \<Rightarrow> (goerr option \<times> ctx) \<times> world" where
  "finish_accept E h c userID scanID scanType family publish w =
     (let tenantID = tenantIDFromDiscoveryV1Request c in
      case reserveScanQuota E h userID scanID scanType w of
        (Some qe, w') \<Rightarrow> (respond_error qe c, rollbackScanAccept h userID tenantID scanID False w')
      | (None, w') \<Rightarrow>
          (case publish w' of
             (Some qe, w'') \<Rightarrow> (respond_error qe c, rollbackScanAccept h userID tenantID scanID True w'')
           | (None, w'') \<Rightarrow> (ctx_JSON (GMap (postScanV1AcceptedJSON (re_uuid E) scanID family)) c, w'')))"

definition post_wallet ::
  "request_env \<Rightarrow> DiscoveryHandler \<Rightarrow> ctx \<Rightarrow> string \<Rightarrow> world \<Rightarrow> (goerr option \<times> ctx) \<times> world" where
  "post_wallet E h c0 address w =
     (case prepareWalletScanQueue E h c0 address w of
        (Inl qe, c, w') \<Rightarrow> if qe_committed qe then ((None, c), w') else (respond_error qe c, w')
      | (Inr (scanID, userID, normalized), c, w') \<Rightarrow>
          (let rec = \<lparr> pr_ScanID = scanID, pr_UserID = userID, pr_Family = ''wallet'',
                 pr_Address = normalized, pr_Endpoint = '''', pr_CreatedAt = re_now E \<rparr>;
               w'' = call_out (OReserveWallet rec) w' in
           case ps_ReserveWallet (dh_scanPending h) userID (tenantIDFromDiscoveryV1Request c) rec of
             Inl _ \<Rightarrow> (status_json 503 (v1ErrorBody not_accepted_body) c, w'')
           | Inr reserved \<Rightarrow>
               if \<not> reserved then (status_json 409 (v1ErrorBody scanInProgressErrorBody) c, w'')
               else finish_accept E h c userID scanID ''wallet'' ''wallet''
                      (publishWalletScanRequested E h scanID userID normalized) w''))"

definition post_tls ::
  "request_env \<Rightarrow> DiscoveryHandler \<Rightarrow> ctx \<Rightarrow> string \<Rightarrow> world \<Rightarrow> (goerr option \<times> ctx) \<times> world" where
  "post_tls E h c0 url w =
     (case prepareTLSScanQueue E h c0 url w of
        (Inl qe, c, w') \<Rightarrow> if qe_committed qe then ((None, c), w') else (respond_error qe c, w')
      | (Inr (scanID, userID, endpoint), c, w') \<Rightarrow>
          (let rec = \<lparr> pr_ScanID = scanID, pr_UserID = userID, pr_Family = ''tls'',
                 pr_Address = '''', pr_Endpoint = endpoint, pr_CreatedAt = re_now E \<rparr>;
               w'' = call_out (OPutTLS rec) w' in
           case ps_PutTLS (dh_scanPending h) userID (tenantIDFromDiscoveryV1Request c) rec of
             Inl _ \<Rightarrow> (status_json 503 (v1ErrorBody not_accepted_body) c, w'')
           | Inr _ \<Rightarrow> finish_accept E h c userID scanID ''endpoint'' ''tls''
                      (publishTLSScanRequested E h scanID userID endpoint) w''))"

definition PostDiscoveryScanV1 ::
  "request_env \<Rightarrow> DiscoveryHandler \<Rightarrow> ScanRequest result \<Rightarrow> ctx \<Rightarrow> world \<Rightarrow> (goerr option \<times> ctx) \<times> world" where
  "PostDiscoveryScanV1 E h body c w =
     (case body of
        Inl _ \<Rightarrow> (status_json 400 [(''error'', GStr ''invalid_request''),
           (''message'', GStr ''invalid request body'')] c, w)
      | Inr req \<Rightarrow>
          if sq_Address req \<noteq> '''' \<and> sq_URL req \<noteq> ''''
          then (status_json 400 [(''error'', GStr ''invalid_request''),
             (''message'', GStr ''cannot specify both address and url, please provide only one'')] c, w)
          else if sq_Address req = '''' \<and> sq_URL req = ''''
          then (status_json 400 [(''error'', GStr ''invalid_request''),
             (''message'', GStr ''either address (for wallet) or url (for TLS endpoint) is required'')] c, w)
          else if sq_Address req \<noteq> '''' then post_wallet E h c (sq_Address req) w
          else post_tls E h c (sq_URL req) w)"

section \<open>Small endpoints\<close>

definition ListAvailableScanners :: "DiscoveryHandler \<Rightarrow> ctx \<Rightarrow> goerr option \<times> ctx" where
  "ListAvailableScanners h c =
     ctx_JSON (GMap [(''scanners'', GList (case dh_scannerPresence h of None \<Rightarrow> [] | Some p \<Rightarrow> sp_ListScanners p))]) c"

definition GetOnchainScanner :: "DiscoveryHandler \<Rightarrow> ctx \<Rightarrow> goerr option \<times> ctx" where
  "GetOnchainScanner h c =
     ctx_JSON (GMap [(''scanner_available'',
       GBool (case dh_scannerPresence h of None \<Rightarrow> False | Some p \<Rightarrow> sp_HasScanner p ''wallet''))]) c"

definition ListRPCs :: "DiscoveryHandler \<Rightarrow> ctx \<Rightarrow> goerr option \<times> ctx" where
  "ListRPCs h c =
     (let rpcs = map (\<lambda>(name, rpc). GMap [(''name'', GStr name), (''rpc'', GStr rpc)]) (dh_Blockchains h) in
      ctx_JSON (GMap [(''blockchains'', GList rpcs), (''count'', GInt (int (length rpcs)))]) c)"

section \<open>Lemmas on the stages\<close>

lemma call_out_sel [simp]: "w_db (call_out x w) = w_db w" "w_out (call_out x w) = w_out w @ [x]"
  by (simp_all add: call_out_def)

lemma run_db_eq:
  "run_db m w = (r, w') \<longleftrightarrow> (\<exists>d. m (w_db w) = (r, d) \<and> w' = w\<lparr>w_db := d\<rparr>)"
  by (auto simp: run_db_def split: prod.splits)

text \<open>The handler's ledger is the repository's; the checks before the pending reservation are quiet.\<close>

definition uses_ledger :: "DiscoveryHandler \<Rightarrow> uuid \<Rightarrow> go_time \<Rightarrow> bool" where
  "uses_ledger h fresh now \<longleftrightarrow> dh_scanUsageLedger h = Some (NewScanUsageLedgerRepository fresh now)"

definition keeps_tables :: "world \<Rightarrow> world \<Rightarrow> bool" where
  "keeps_tables w w' \<longleftrightarrow> tables (w_db w') = tables (w_db w) \<and> (db_faults (w_db w) = [] \<longrightarrow> db_faults (w_db w') = [])"

lemma keeps_refl [simp]: "keeps_tables w w" "keeps_tables w (call_out x w)"
  by (simp_all add: keeps_tables_def)

lemma keeps_trans: "keeps_tables w w' \<Longrightarrow> keeps_tables w' w'' \<Longrightarrow> keeps_tables w w''"
  by (simp add: keeps_tables_def)

lemma keeps_call: "keeps_tables w w' \<Longrightarrow> keeps_tables w (call_out x w')"
  by (simp add: keeps_tables_def)

lemma keeps_run:
  "quiet m \<Longrightarrow> stays_calm m \<Longrightarrow> run_db m w = (r, w') \<Longrightarrow> keeps_tables w w' \<and> w_out w' = w_out w"
  by (auto simp: run_db_eq keeps_tables_def dest: quietD stays_calmD)

lemma check_stored_keeps:
  "check_stored_in_flight h u a w = (r, w') \<Longrightarrow> keeps_tables w w' \<and> w_out w' = w_out w"
proof -
  have q: "quiet (ListOwnerWalletScansByAddress u a)" "stays_calm (ListOwnerWalletScansByAddress u a)"
    by (simp_all add: ListOwnerWalletScansByAddress_def quiet_intros calm_intros)
  assume "check_stored_in_flight h u a w = (r, w')"
  then show ?thesis
    using keeps_run [OF q]
    by (auto simp: check_stored_in_flight_def split: if_splits prod.splits sum.splits)
qed

lemma pending_state_keeps:
  "pendingWalletReservationState h u a rec w = (r, w') \<Longrightarrow> keeps_tables w w' \<and> w_out w' = w_out w"
proof -
  have q: "quiet (FindOwnedWalletScanByID u i)" "stays_calm (FindOwnedWalletScanByID u i)" for i
    by (simp_all add: FindOwnedWalletScanByID_def quiet_first_or_nil calm_first_or_nil)
  assume "pendingWalletReservationState h u a rec w = (r, w')"
  then show ?thesis
    using keeps_run [OF q]
    by (auto simp: pendingWalletReservationState_def Let_def split: if_splits prod.splits sum.splits option.splits)
qed

lemma check_in_flight_keeps:
  assumes "checkWalletScanInFlight h u tenant a w = (r, w')"
  shows "keeps_tables w w'
    \<and> (w_out w' = w_out w \<or> (\<exists>i. w_out w' = w_out w @ [ODeleteWalletReservation u a i]))"
proof (cases "ps_GetWalletByOwnerAddress (dh_scanPending h) u tenant a")
  case (Inl e)
  then show ?thesis using assms by (simp add: checkWalletScanInFlight_def)
next
  case (Inr rec)
  show ?thesis
  proof (cases rec)
    case None
    then show ?thesis using assms Inr check_stored_keeps by (auto simp: checkWalletScanInFlight_def)
  next
    case (Some r0)
    obtain p w0 where p: "pendingWalletReservationState h u a r0 w = (p, w0)" by fastforce
    note k = pending_state_keeps [OF p]
    show ?thesis
    proof (cases p)
      case (Inl qe)
      then show ?thesis using assms p k Inr Some by (simp add: checkWalletScanInFlight_def)
    next
      case c: (Inr bs)
      obtain b st where bs: "bs = (b, st)" by fastforce
      let ?w = "if st then call_out (ODeleteWalletReservation u a (pr_ScanID r0)) w0 else w0"
      have w: "keeps_tables w ?w"
          "w_out ?w = w_out w \<or> (\<exists>i. w_out ?w = w_out w @ [ODeleteWalletReservation u a i])"
        using k keeps_call by auto
      have "r = Some scanInProgressQueueError \<and> w' = w0 \<or> check_stored_in_flight h u a ?w = (r, w')"
        using assms p c bs Inr Some by (auto simp: checkWalletScanInFlight_def split: if_splits)
      then show ?thesis
      proof
        assume s: "check_stored_in_flight h u a ?w = (r, w')"
        show ?thesis using check_stored_keeps [OF s] w keeps_trans [OF w(1)] by simp
      qed (use k in simp)
    qed
  qed
qed

lemma prepare_wallet_cases:
  assumes "prepareWalletScanQueue E h c0 a w = (r, c, w')"
  shows "keeps_tables w w' \<and> (w_out w' = w_out w \<or> (\<exists>u i n. w_out w' = w_out w @ [ODeleteWalletReservation u n i]))
    \<and> (\<forall>s u n. r = Inr (s, u, n) \<longrightarrow> s = re_fresh E \<and> u = fst (getAuthenticatedUserID c0)
        \<and> ValidateAndNormalizeAddress a = Inr n)"
proof -
  obtain u err c1 where g: "getAuthenticatedUserID c0 = (u, err, c1)" by (metis prod_cases3)
  show ?thesis
  proof (cases "\<exists>qe. prepareWalletScanQueue E h c0 a w = (Inl qe, c1, w)")
    case True
    then show ?thesis using assms by auto
  next
    case False
    then obtain n where n: "err = None" "ValidateAndNormalizeAddress a = Inr n"
      and eq: "prepareWalletScanQueue E h c0 a w =
        (case checkWalletScanInFlight h u (tenantIDFromDiscoveryV1Request c1) n w of
                 (Some qe, w') \<Rightarrow> (Inl qe, c1, w')
               | (None, w') \<Rightarrow>
                   (case checkWalletCPMContext h c1 u n of
                      Some qe \<Rightarrow> (Inl qe, c1, w')
                    | None \<Rightarrow> (Inr (re_fresh E, u, n), c1, w')))"
      using g by (auto simp: prepareWalletScanQueue_def split: option.splits if_splits sum.splits)
    obtain q w1 where k: "checkWalletScanInFlight h u (tenantIDFromDiscoveryV1Request c1) n w = (q, w1)"
      by fastforce
    show ?thesis
      using check_in_flight_keeps [OF k] assms k n g unfolding eq by (auto split: option.splits)
  qed
qed

lemma prepare_tls_cases:
  assumes "prepareTLSScanQueue E h c0 url w = (r, c, w')"
  shows "w' = w \<and> (\<forall>s u e. r = Inr (s, u, e) \<longrightarrow> s = re_fresh E \<and> u = fst (getAuthenticatedUserID c0) \<and> e = url)"
  using assms
  by (auto simp: prepareTLSScanQueue_def split: prod.splits option.splits if_splits sum.splits)

text \<open>The three ways in which an accepted pending reservation can end.\<close>

lemma reserve_quota_cases:
  assumes "uses_ledger h f now" and "reserveScanQuota E h u s t w = (r, w')"
  shows "w_out w' = w_out w \<and> (db_faults (w_db w) = [] \<longrightarrow> db_faults (w_db w') = [])
    \<and> (r \<noteq> None \<longrightarrow> tables (w_db w') = tables (w_db w))
    \<and> (r = None \<and> dh_planService h \<longrightarrow> (\<exists>usage why. ReservePostScanQuota (re_uuid E) u s t
         (Some (NewScanUsageLedgerRepository f now)) (w_db w) = (Inr (True, usage, why), w_db w')))
    \<and> (\<not> dh_planService h \<longrightarrow> r = None \<and> w' = w)"
proof (cases "dh_planService h")
  case True
  let ?m = "ReservePostScanQuota (re_uuid E) u s t (Some (NewScanUsageLedgerRepository f now))"
  obtain x d where m: "?m (w_db w) = (x, d)" by fastforce
  have c: "db_faults (w_db w) = [] \<longrightarrow> db_faults d = []"
    using stays_calmD [OF calm_ReservePostScanQuota m] by blast
  have e: "reserveScanQuota E h u s t w = (case x of
        Inl err \<Rightarrow> (Some (qerror 500 [(''error'', GStr (''failed to check plan limits: '' @ Error err))]), w\<lparr>w_db := d\<rparr>)
      | Inr (reserved, usage, why) \<Rightarrow>
          if \<not> reserved
          then (Some (qerror 403 [(''error'', GStr (postScanLimitErrorMessage t usage why))]), w\<lparr>w_db := d\<rparr>)
          else (None, w\<lparr>w_db := d\<rparr>))"
    using True assms(1) m by (simp add: reserveScanQuota_def uses_ledger_def run_db_def split: sum.split)
  show ?thesis
  proof (cases x)
    case (Inl err)
    then have "tables d = tables (w_db w)" using cleanD [OF ledger.clean_post_reserve] m by blast
    then show ?thesis using assms(2) e Inl c True by auto
  next
    case (Inr y)
    obtain ok usage why where y: "y = (ok, usage, why)" by (metis prod_cases3)
    have "\<not> ok \<Longrightarrow> tables d = tables (w_db w)"
      using post_quota_denied_tables m Inr y by blast
    then show ?thesis using assms(2) e Inr y c m True by (auto split: if_splits)
  qed
next
  case False
  then show ?thesis using assms(2) by (simp add: reserveScanQuota_def)
qed

lemma rollback_sel:
  assumes "uses_ledger h f now"
  shows "w_out (rollbackScanAccept h u tenant s b w) = w_out w @ [ODelete u s]"
    and "w_db (rollbackScanAccept h u tenant s False w) = w_db w"
    and "db_faults (w_db w) = [] \<Longrightarrow> tables (w_db (rollbackScanAccept h u tenant s True w)) =
      tables (release_usage s (w_db w)) \<and> db_faults (w_db (rollbackScanAccept h u tenant s True w)) = []"
proof -
  show "w_out (rollbackScanAccept h u tenant s b w) = w_out w @ [ODelete u s]"
    "w_db (rollbackScanAccept h u tenant s False w) = w_db w"
    using assms by (simp_all add: rollbackScanAccept_def uses_ledger_def run_db_def split: prod.split)
  assume "db_faults (w_db w) = []"
  then show "tables (w_db (rollbackScanAccept h u tenant s True w)) = tables (release_usage s (w_db w))
      \<and> db_faults (w_db (rollbackScanAccept h u tenant s True w)) = []"
    using assms
    by (simp add: rollbackScanAccept_def uses_ledger_def run_db_def NewScanUsageLedgerRepository_def
        ReleaseSuccessUsageByScanID_def release_usage_def)
qed

lemma release_fresh:
  assumes "s \<notin> ev_ScanID ` set (usage_events d)"
  shows "release_usage s d = d"
proof -
  have "filter (\<lambda>e. ev_ScanID e \<noteq> s) (usage_events d) = usage_events d"
    using assms by (intro filter_True) (metis imageI)
  then show ?thesis by (simp add: release_usage_def)
qed

lemma finish_cases:
  assumes L: "uses_ledger h f now" and s: "s \<notin> ev_ScanID ` set (usage_events (w_db w))"
    and calm: "db_faults (w_db w) = []"
    and fin: "finish_accept E h c u s t fam (publish_message h m) w = (r, w')"
  shows "(\<exists>qe. r = respond_error qe c \<and> w_out w' = w_out w @ [ODelete u s]
      \<and> tables (w_db w') = tables (w_db w))
    \<or> (\<exists>qe. r = respond_error qe c \<and> isl (dh_publish h m) \<and> w_out w' = w_out w @ [OPublish m, ODelete u s]
      \<and> tables (w_db w') = tables (w_db w))
    \<or> (r = ctx_JSON (GMap (postScanV1AcceptedJSON (re_uuid E) s fam)) c \<and> dh_publish h m = Inr ()
      \<and> w_out w' = w_out w @ [OPublish m]
      \<and> (dh_planService h \<longrightarrow> (\<exists>usage why. ReservePostScanQuota (re_uuid E) u s t
         (Some (NewScanUsageLedgerRepository f now)) (w_db w) = (Inr (True, usage, why), w_db w'))))"
proof -
  obtain q w1 where q: "reserveScanQuota E h u s t w = (q, w1)" by fastforce
  note R = reserve_quota_cases [OF L q]
  show ?thesis
  proof (cases q)
    case (Some qe)
    then show ?thesis using fin q R rollback_sel [OF L]
      by (intro disjI1 exI [of _ qe]) (auto simp: finish_accept_def Let_def)
  next
    case None
    have pub: "publish_message h m w1 = ((if isl (dh_publish h m)
        then Some (qerror 500 [(''error'', GStr ''failed to queue scan request'')]) else None),
        call_out (OPublish m) w1)"
      by (cases "dh_publish h m") (simp_all add: publish_message_def)
    have restore: "tables (release_usage s (w_db w1)) = tables (w_db w)"
    proof (cases "dh_planService h")
      case True
      then obtain usage why where p: "ReservePostScanQuota (re_uuid E) u s t
         (Some (NewScanUsageLedgerRepository f now)) (w_db w) = (Inr (True, usage, why), w_db w1)"
        using R None by blast
      show ?thesis by (rule post_quota_release [OF p s])
    next
      case False
      then show ?thesis using R s by (simp add: release_fresh)
    qed
    show ?thesis
    proof (cases "isl (dh_publish h m)")
      case True
      let ?qe = "qerror 500 [(''error'', GStr ''failed to queue scan request'')]"
      have "r = respond_error ?qe c"
          "w' = rollbackScanAccept h u (tenantIDFromDiscoveryV1Request c) s True (call_out (OPublish m) w1)"
        using fin q None pub True by (simp_all add: finish_accept_def Let_def)
      then show ?thesis
        using True R calm restore rollback_sel(1) [OF L] rollback_sel(3) [OF L, of "call_out (OPublish m) w1"]
        by (intro disjI2 disjI1 exI [of _ ?qe]) simp
    next
      case False
      have "dh_publish h m = Inr ()" using False by (cases "dh_publish h m") auto
      moreover have "r = ctx_JSON (GMap (postScanV1AcceptedJSON (re_uuid E) s fam)) c"
          "w' = call_out (OPublish m) w1"
        using fin q None pub False by (simp_all add: finish_accept_def Let_def)
      ultimately show ?thesis using R None by simp
    qed
  qed
qed

section \<open>Properties\<close>

text \<open>The calls a request has made, and the answer of an accepted one.\<close>

definition new_calls :: "world \<Rightarrow> world \<Rightarrow> outcall list" where
  "new_calls w w' = drop (length (w_out w)) (w_out w')"

definition accepted_answer :: "request_env \<Rightarrow> ctx \<Rightarrow> bool" where
  "accepted_answer E c \<longleftrightarrow> (\<exists>fam. resp_body c = Some (GMap (postScanV1AcceptedJSON (re_uuid E) (re_fresh E) fam)))"

lemma error_not_accepted:
  "\<not> accepted_answer E (snd (respond_error qe c))" "\<not> accepted_answer E (snd (status_json s (v1ErrorBody b) c))"
  "\<not> accepted_answer E (snd (status_json s ((''error'', x) # b) c))"
  by (auto simp: accepted_answer_def respond_error_def v1ErrorBody_def postScanV1AcceptedJSON_def Let_def)

text \<open>How a request can end, with the pending call that started it.\<close>

definition rejected_clean :: "request_env \<Rightarrow> DiscoveryHandler \<Rightarrow> world \<Rightarrow> ctx \<times> world \<Rightarrow> bool" where
  "rejected_clean E h w r = (case r of (c', w') \<Rightarrow>
     \<not> accepted_answer E c' \<and> tables (w_db w') = tables (w_db w)
     \<and> (\<forall>m. OPublish m \<in> set (new_calls w w') \<longrightarrow> isl (dh_publish h m)))"

definition accepted_whole ::
  "request_env \<Rightarrow> DiscoveryHandler \<Rightarrow> uuid \<Rightarrow> go_time \<Rightarrow> world \<Rightarrow> ctx \<times> world \<Rightarrow> bool" where
  "accepted_whole E h f now w r = (case r of (c', w') \<Rightarrow>
     accepted_answer E c'
     \<and> (\<exists>pre p m. new_calls w w' = pre @ [p, OPublish m] \<and> dh_publish h m = Inr ()
          \<and> (\<forall>m'. OPublish m' \<notin> set pre)
          \<and> (\<exists>rec. pr_ScanID rec = re_fresh E \<and> (p = OReserveWallet rec \<or> p = OPutTLS rec)))
     \<and> (dh_planService h \<longrightarrow> (\<exists>u t d0 usage why. tables d0 = tables (w_db w) \<and>
          ReservePostScanQuota (re_uuid E) u (re_fresh E) t (Some (NewScanUsageLedgerRepository f now)) d0
            = (Inr (True, usage, why), w_db w'))))"

lemma fresh_kept:
  "tables d = tables d' \<Longrightarrow> ev_ScanID ` set (usage_events d) = ev_ScanID ` set (usage_events d')"
  by (simp add: tables_eq_iff)

lemma accept_from_pending:
  assumes L: "uses_ledger h f now" and s: "re_fresh E \<notin> ev_ScanID ` set (usage_events (w_db w))"
    and calm: "db_faults (w_db w) = []"
    and k: "keeps_tables w w1" "w_out w1 = w_out w \<or> (\<exists>u i n. w_out w1 = w_out w @ [ODeleteWalletReservation u n i])"
    and p: "p = OReserveWallet rec \<or> p = OPutTLS rec" "pr_ScanID rec = re_fresh E"
    and fin: "finish_accept E h c u (re_fresh E) t fam (publish_message h m) (call_out p w1) = ((err, c'), w')"
  shows "rejected_clean E h w (c', w') \<or> accepted_whole E h f now w (c', w')"
proof -
  let ?w = "call_out p w1"
  have calm1: "db_faults (w_db ?w) = []" and t1: "tables (w_db ?w) = tables (w_db w)"
    using k(1) calm by (simp_all add: keeps_tables_def)
  have s1: "re_fresh E \<notin> ev_ScanID ` set (usage_events (w_db ?w))" using s fresh_kept [OF t1] by simp
  obtain pre where pre: "w_out w1 = w_out w @ pre" "\<forall>m'. OPublish m' \<notin> set pre" "p \<noteq> OPublish m'" for m'
    using k(2) p(1) by force
  consider (err) qe extra where "(err, c') = respond_error qe c" "w_out w' = w_out w1 @ [p] @ extra"
        "\<forall>m'. OPublish m' \<in> set extra \<longrightarrow> isl (dh_publish h m')" "tables (w_db w') = tables (w_db ?w)"
    | (ok) "(err, c') = ctx_JSON (GMap (postScanV1AcceptedJSON (re_uuid E) (re_fresh E) fam)) c"
        "dh_publish h m = Inr ()" "w_out w' = w_out w1 @ [p, OPublish m]"
        "dh_planService h \<longrightarrow> (\<exists>usage why. ReservePostScanQuota (re_uuid E) u (re_fresh E) t
         (Some (NewScanUsageLedgerRepository f now)) (w_db ?w) = (Inr (True, usage, why), w_db w'))"
    using finish_cases [OF L s1 calm1 fin] by (auto; force)
  then show ?thesis
  proof cases
    case err
    have "\<not> accepted_answer E c'" using err(1) error_not_accepted(1) by (metis snd_conv)
    then show ?thesis using err t1 pre by (intro disjI1) (auto simp: rejected_clean_def new_calls_def)
  next
    case ok
    have "accepted_answer E c'" using ok(1) by (auto simp: accepted_answer_def ctx_JSON_def)
    moreover have "new_calls w w' = pre @ [p, OPublish m]" using ok(3) pre(1) by (simp add: new_calls_def)
    ultimately show ?thesis using ok(2,4) t1 pre(2) p
      unfolding accepted_whole_def by (intro disjI2) (simp; blast)
  qed
qed

lemma qerror_uncommitted [simp]:
  "\<not> qe_committed (qerror s b)" "\<not> qe_committed scanInProgressQueueError"
  "\<not> qe_committed cpmPolicyExistsForWalletTargetQueueError"
  "\<not> qe_committed cpmContextCheckUnavailableQueueError"
  by (simp_all add: qerror_def scanInProgressQueueError_def cpmPolicyExistsForWalletTargetQueueError_def
      cpmContextCheckUnavailableQueueError_def)

lemma stored_uncommitted:
  "check_stored_in_flight h u a w = (Some qe, w') \<Longrightarrow> \<not> qe_committed qe"
  by (auto simp: check_stored_in_flight_def split: if_splits prod.splits sum.splits)

lemma pending_state_uncommitted:
  "pendingWalletReservationState h u a rec w = (Inl qe, w') \<Longrightarrow> \<not> qe_committed qe"
  by (auto simp: pendingWalletReservationState_def Let_def split: if_splits prod.splits sum.splits option.splits)

lemma in_flight_uncommitted:
  "checkWalletScanInFlight h u t a w = (Some qe, w') \<Longrightarrow> \<not> qe_committed qe"
  by (auto simp: checkWalletScanInFlight_def dest: stored_uncommitted pending_state_uncommitted
      split: if_splits prod.splits sum.splits option.splits)

text \<open>
  The \<open>committed\<close> result is never produced: \<open>getAuthenticatedUserID\<close> returns the nil
  error of \<open>c.JSON\<close> also when it wrote a refusal.
\<close>

lemma wallet_uncommitted:
  assumes "prepareWalletScanQueue E h c a w = (Inl qe, c', w')"
  shows "\<not> qe_committed qe"
proof -
  obtain u c1 where g: "getAuthenticatedUserID c = (u, None, c1)"
    using auth_error_nil(1) [of c] by (metis prod.collapse)
  show ?thesis using assms g
    by (auto simp: prepareWalletScanQueue_def checkWalletCPMContext_def dest: in_flight_uncommitted
        split: if_splits prod.splits sum.splits option.splits)
qed

lemma tls_uncommitted:
  assumes "prepareTLSScanQueue E h c a w = (Inl qe, c', w')"
  shows "\<not> qe_committed qe"
proof -
  obtain u c1 where g: "getAuthenticatedUserID c = (u, None, c1)"
    using auth_error_nil(1) [of c] by (metis prod.collapse)
  show ?thesis using assms g
    by (auto simp: prepareTLSScanQueue_def split: if_splits prod.splits sum.splits option.splits)
qed

lemma rejected_early:
  assumes "r = respond_error qe c \<or> r = status_json s (v1ErrorBody b) c \<or> r = status_json s ((''error'', x) # b) c"
    and "(err, c') = r" and "keeps_tables w w'" and "w_out w' = w_out w @ pre" and "\<forall>m. OPublish m \<notin> set pre"
  shows "rejected_clean E h w (c', w')"
proof -
  have "\<not> accepted_answer E c'" using assms(1,2) error_not_accepted by (metis snd_conv)
  then show ?thesis using assms(3-) by (simp add: rejected_clean_def keeps_tables_def new_calls_def)
qed

lemma post_wallet_ends:
  assumes L: "uses_ledger h f now" and s: "re_fresh E \<notin> ev_ScanID ` set (usage_events (w_db w))"
    and calm: "db_faults (w_db w) = []" and p: "post_wallet E h c a w = ((err, c'), w')"
  shows "rejected_clean E h w (c', w') \<or> accepted_whole E h f now w (c', w')"
proof -
  obtain r c1 w1 where q: "prepareWalletScanQueue E h c a w = (r, c1, w1)" by (metis prod_cases3)
  note Q = prepare_wallet_cases [OF q]
  then obtain pre where pre: "w_out w1 = w_out w @ pre" "\<forall>m. OPublish m \<notin> set pre" by force
  show ?thesis
  proof (cases r)
    case (Inl qe)
    then have "(err, c') = respond_error qe c1" "w' = w1"
      using p q wallet_uncommitted by (auto simp: post_wallet_def)
    then show ?thesis using rejected_early [OF disjI1 [OF refl], of err c' qe c1] Q pre by simp
  next
    case (Inr x)
    then obtain n where x: "x = (re_fresh E, fst (getAuthenticatedUserID c), n)" using Q by (cases x) auto
    let ?u = "fst (getAuthenticatedUserID c)"
    define rec where "rec = \<lparr> pr_ScanID = re_fresh E, pr_UserID = ?u, pr_Family = ''wallet'',
                 pr_Address = n, pr_Endpoint = '''', pr_CreatedAt = re_now E \<rparr>"
    let ?w = "call_out (OReserveWallet rec) w1"
    have k: "keeps_tables w ?w" using Q keeps_call by blast
    have o1: "w_out ?w = w_out w @ (pre @ [OReserveWallet rec])" "\<forall>m. OPublish m \<notin> set (pre @ [OReserveWallet rec])"
      using pre by simp_all
    consider (bad) s b where "status_json s (v1ErrorBody b) c1 = (err, c')" "w' = ?w"
      | (go) "finish_accept E h c1 ?u (re_fresh E) ''wallet'' ''wallet''
          (publishWalletScanRequested E h (re_fresh E) ?u n) ?w = ((err, c'), w')"
      using p q Inr x unfolding rec_def
      by (auto simp: post_wallet_def Let_def split: sum.splits if_splits)
    then show ?thesis
    proof cases
      case bad
      then show ?thesis using rejected_early [OF disjI2 [OF disjI1 [OF refl]] bad(1) [symmetric]] k o1 by blast
    next
      case go
      show ?thesis
        using accept_from_pending [OF L s calm, of w1 "OReserveWallet rec" rec] Q go
        unfolding publishWalletScanRequested_def by (simp add: rec_def)
    qed
  qed
qed

lemma post_tls_ends:
  assumes L: "uses_ledger h f now" and s: "re_fresh E \<notin> ev_ScanID ` set (usage_events (w_db w))"
    and calm: "db_faults (w_db w) = []" and p: "post_tls E h c a w = ((err, c'), w')"
  shows "rejected_clean E h w (c', w') \<or> accepted_whole E h f now w (c', w')"
proof -
  obtain r c1 w1 where q: "prepareTLSScanQueue E h c a w = (r, c1, w1)" by (metis prod_cases3)
  note Q = prepare_tls_cases [OF q]
  then have w1: "w1 = w" by simp
  show ?thesis
  proof (cases r)
    case (Inl qe)
    then have "(err, c') = respond_error qe c1" "w' = w"
      using p q w1 tls_uncommitted by (auto simp: post_tls_def)
    then show ?thesis using rejected_early [OF disjI1 [OF refl], of err c' qe c1 w w' "[]"] by simp
  next
    case (Inr x)
    then have x: "x = (re_fresh E, fst (getAuthenticatedUserID c), a)" using Q by (cases x) auto
    let ?u = "fst (getAuthenticatedUserID c)"
    define rec where "rec = \<lparr> pr_ScanID = re_fresh E, pr_UserID = ?u, pr_Family = ''tls'',
                 pr_Address = '''', pr_Endpoint = a, pr_CreatedAt = re_now E \<rparr>"
    let ?w = "call_out (OPutTLS rec) w"
    consider (bad) s b where "status_json s (v1ErrorBody b) c1 = (err, c')" "w' = ?w"
      | (go) "finish_accept E h c1 ?u (re_fresh E) ''endpoint'' ''tls''
          (publishTLSScanRequested E h (re_fresh E) ?u a) ?w = ((err, c'), w')"
      using p q w1 Inr x unfolding rec_def
      by (auto simp: post_tls_def Let_def split: sum.splits if_splits)
    then show ?thesis
    proof cases
      case bad
      then show ?thesis
        using rejected_early [OF disjI2 [OF disjI1 [OF refl]] bad(1) [symmetric], of w w' "[OPutTLS rec]"] by simp
    next
      case go
      show ?thesis
        using accept_from_pending [OF L s calm, of w "OPutTLS rec" rec] go
        unfolding publishTLSScanRequested_def by (simp add: rec_def)
    qed
  qed
qed


definition ex_pending :: PendingStore where
  "ex_pending = \<lparr> ps_PutTLS = (\<lambda>_ _ _. Inr ()), ps_ReserveWallet = (\<lambda>_ _ _. Inr True),
     ps_Get = (\<lambda>_ _ _. Inr None), ps_GetWalletByOwnerAddress = (\<lambda>_ _ _. Inr None),
     ps_Delete = (\<lambda>_ _ _. Inr ()), ps_DeleteWalletReservation = (\<lambda>_ _ _ _. Inr ()) \<rparr>"

definition ex_handler :: DiscoveryHandler where
  "ex_handler = \<lparr> dh_Blockchains = [], dh_publish = (\<lambda>_. Inr ()), dh_planService = True,
     dh_scannerPresence = None, dh_scanResultRepo = False,
     dh_scanUsageLedger = Some (NewScanUsageLedgerRepository 9 5), dh_scanPending = ex_pending,
     dh_policyRef = Some \<lparr> pc_PersistedPoliciesReferenceScan = (\<lambda>_ _ _. Inr False),
       pc_ActiveWalletCPMContextForTarget = (\<lambda>_ _ _. Inr \<lparr> wt_Exists = False, wt_PolicyCount = 0, wt_DraftCount = 0 \<rparr>) \<rparr> \<rparr>"

definition ex_request :: request_env where
  "ex_request = \<lparr> re_uuid = ex_uuid, re_url_Parse = (\<lambda>_. Inl (ErrNew ''parse'')), re_fresh = 2, re_now = 5 \<rparr>"

definition ex_ctx :: ctx where
  "ex_ctx = \<lparr> req_Get = (\<lambda>_. ''''), req_Params = (\<lambda>_. ''''), req_Query = (\<lambda>_. ''''),
     req_QueryInt = (\<lambda>_ n. n), req_QueryKeys = [], loc_user_id = Some (LUUID 1), loc_user_email = None,
     resp_status = 200, resp_body = None, resp_headers = [] \<rparr>"

abbreviation ex_address :: string where
  "ex_address \<equiv> ''0xd8dA6BF26964aF9D7eEd9e03E53415D37aA96045''"

lemma ex_post_scan:
  "\<exists>w'. PostDiscoveryScanV1 ex_request ex_handler (Inr \<lparr> sq_Address = ex_address, sq_URL = '''' \<rparr>) ex_ctx
     \<lparr> w_db = ex_plan_db, w_out = [] \<rparr>
   = (ctx_JSON (GMap (postScanV1AcceptedJSON ex_uuid 2 ''wallet'')) ex_ctx, w')"
proof -
  have a: "ValidateAndNormalizeAddress ex_address = Inr ''0xd8da6bf26964af9d7eed9e03e53415d37aa96045''"
    by code_simp
  have u: "getAuthenticatedUserID ex_ctx = (1, None, ex_ctx)"
    by (simp add: getAuthenticatedUserID_def ex_ctx_def)
  show ?thesis
    using ex_post_quota [unfolded go_consts]
    by (simp add: PostDiscoveryScanV1_def post_wallet_def prepareWalletScanQueue_def u a no_scanner_def
        checkWalletScanInFlight_def check_stored_in_flight_def checkWalletCPMContext_def ex_handler_def ex_pending_def
        ex_request_def Let_def finish_accept_def reserveScanQuota_def run_db_def publishWalletScanRequested_def
        publish_message_def call_out_def del: One_nat_def)
qed


end
