(* ===== verification/Chain_Config.thy ===== *)
theory Chain_Config
  imports Domain_Model
begin

text \<open>
  The chain configuration, \<open>src/internal/config/chain.go\<close>, and what is computed
  from it: the chain identifiers of the networks of a scan in the wallet
  observation, \<open>src/internal/walletobservation/export.go\<close>.  Reading the file and
  YAML decoding are parameters of \<open>LoadChainConfig\<close>; the constants of the shared
  contract \<open>observation/wallet/v01\<close> are a parameter of the exported event.
\<close>

section \<open>Configuration\<close>

record Blockchain =
  bc_Name :: string
  bc_RPC :: string
  bc_ChainID :: int

record ChainConfig =
  cc_Blockchains :: "Blockchain list"

text \<open>
  The verb \<open>%q\<close>, \<open>strconv.Quote\<close>: exact on ASCII; a byte of a longer UTF-8
  sequence is kept, which is what is printed for printable text.
\<close>

definition hex_digit :: "nat \<Rightarrow> char" where
  "hex_digit n = ''0123456789abcdef'' ! n"

definition quote_char :: "char \<Rightarrow> string" where
  "quote_char c =
     (let b = byte c in
      if b = 34 \<or> b = 92 then [char_of (92::nat), c]
      else if b = 7 then [char_of (92::nat), CHR ''a'']
      else if b = 8 then [char_of (92::nat), CHR ''b'']
      else if b = 9 then [char_of (92::nat), CHR ''t'']
      else if b = 10 then [char_of (92::nat), CHR ''n'']
      else if b = 11 then [char_of (92::nat), CHR ''v'']
      else if b = 12 then [char_of (92::nat), CHR ''f'']
      else if b = 13 then [char_of (92::nat), CHR ''r'']
      else if b < 32 \<or> b = 127
      then [char_of (92::nat), CHR ''x'', hex_digit (b div 16), hex_digit (b mod 16)]
      else [c])"

definition quoted :: "string \<Rightarrow> string" where
  "quoted s = [char_of (34::nat)] @ concat (map quote_char s) @ [char_of (34::nat)]"

text \<open>
  The loop of \<open>Validate\<close>: position, the names seen, and the names by chain
  identifier.
\<close>

fun Validate_loop :: "nat \<Rightarrow> Blockchain list \<Rightarrow> string set \<Rightarrow> (int \<rightharpoonup> string) \<Rightarrow> goerr option" where
  "Validate_loop i [] seenName seenChain = None"
| "Validate_loop i (b # bs) seenName seenChain =
     (let name = TrimSpace (bc_Name b) in
      if name = '''' then Some (ErrNew (''blockchains['' @ FormatUint i @ '']: name is required''))
      else if name \<in> seenName then Some (ErrNew (''blockchains: duplicate name '' @ quoted name))
      else if bc_ChainID b \<le> 0
      then Some (ErrNew (''blockchains['' @ FormatUint i @ ''] ('' @ name
                   @ ''): chain_id must be a positive EIP-155 id''))
      else case seenChain (bc_ChainID b) of
             Some prev \<Rightarrow> Some (ErrNew (''blockchains: duplicate chain_id '' @ FormatInt (bc_ChainID b)
                   @ '' for '' @ quoted prev @ '' and '' @ quoted name))
           | None \<Rightarrow> Validate_loop (Suc i) bs (insert name seenName) (seenChain(bc_ChainID b \<mapsto> name)))"

definition ChainConfig_Validate :: "ChainConfig \<Rightarrow> goerr option" where
  "ChainConfig_Validate c = Validate_loop 0 (cc_Blockchains c) {} Map.empty"

definition ChainIDByNetwork :: "ChainConfig \<Rightarrow> string \<rightharpoonup> int" where
  "ChainIDByNetwork c =
     fold (\<lambda>b m. if bc_ChainID b > 0 then m(bc_Name b \<mapsto> bc_ChainID b) else m) (cc_Blockchains c) Map.empty"

definition LoadChainConfig ::
  "(string \<Rightarrow> 'a result) \<Rightarrow> ('a \<Rightarrow> ChainConfig result) \<Rightarrow> string \<Rightarrow> ChainConfig result" where
  "LoadChainConfig ReadFile Unmarshal configPath =
     (case ReadFile configPath of
        Inl err \<Rightarrow> Inl (ErrWrap ''failed to read config file'' err)
      | Inr data \<Rightarrow>
          (case Unmarshal data of
             Inl err \<Rightarrow> Inl (ErrWrap ''failed to parse config file'' err)
           | Inr cfg \<Rightarrow> (case ChainConfig_Validate cfg of Some err \<Rightarrow> Inl err | None \<Rightarrow> Inr cfg)))"

section \<open>The wallet observation\<close>

record ExportMeta =
  em_EventID :: string
  em_CorrelationID :: string
  em_CausationID :: string
  em_OccurredAt :: go_time

definition ExportMetaForScanJob :: "uuid_pkg \<Rightarrow> uuid \<Rightarrow> ExportMeta" where
  "ExportMetaForScanJob U scanID =
     (let s = uuid_String U scanID in
      \<lparr> em_EventID = ''evt_disc_'' @ filter (\<lambda>c. c \<noteq> CHR ''-'') s, em_CorrelationID = s,
        em_CausationID = s, em_OccurredAt = 0 \<rparr>)"

text \<open>The constants and the event of the shared contract.\<close>

record observation_contract =
  oc_EventTypeWalletObserved :: string
  oc_EventVersion :: string
  oc_ProducerCafeDiscovery :: string
  oc_SubjectTypeWallet :: string
  oc_AccountKindEOA :: string
  oc_AccountKindERC4337SmartAccount :: string
  oc_AccountKindContractAccount :: string
  oc_AccountKindUnknown :: string
  oc_AlgorithmSecp256k1ECRecover :: string
  oc_PQPostureUnknown :: string
  oc_PQPostureClassicalOnly :: string
  oc_PQPostureHybrid :: string
  oc_PQPostureFullPQ :: string

record observation_event =
  oe_EventID :: string
  oe_EventType :: string
  oe_EventVersion :: string
  oe_OccurredAt :: go_time
  oe_CorrelationID :: string
  oe_CausationID :: string
  oe_Producer :: string
  oe_SubjectType :: string
  oe_SubjectID :: string
  oe_ChainIDs :: "int list"
  oe_AccountKind :: string
  oe_CurrentAlgorithm :: string
  oe_PublicKeyExposed :: bool
  oe_IsMultichain :: bool
  oe_ObservedAt :: go_time
  oe_CurrentPQPosture :: string

definition deriveCurrentPQPosture :: "observation_contract \<Rightarrow> ScanResult option \<Rightarrow> string" where
  "deriveCurrentPQPosture K scan =
     (case scan of
        None \<Rightarrow> oc_PQPostureUnknown K
      | Some s \<Rightarrow>
          if res_NISTLevel s = 1 then oc_PQPostureClassicalOnly K
          else if res_NISTLevel s = 2 \<or> res_NISTLevel s = 3 \<or> res_NISTLevel s = 4 then oc_PQPostureHybrid K
          else if res_NISTLevel s = 5 then oc_PQPostureFullPQ K
          else oc_PQPostureUnknown K)"

definition walletSubjectID :: "string \<Rightarrow> string" where
  "walletSubjectID normalizedAddress =
     (let a = TrimSpace (ToLower normalizedAddress);
          a = (if \<not> HasPrefix a ''0x'' then ''0x'' @ a else a)
      in ''wallet:'' @ a)"

definition mapAccountKind :: "observation_contract \<Rightarrow> ScanResult \<Rightarrow> string" where
  "mapAccountKind K scan =
     (let wt = DeriveWalletTypeV1 (res_Type scan) (res_IsEOA scan) (res_IsERC4337 scan) in
      if wt = WalletTypeEOA then oc_AccountKindEOA K
      else if wt = WalletTypeSmartAccount then oc_AccountKindERC4337SmartAccount K
      else if wt = WalletTypeContract then oc_AccountKindContractAccount K
      else oc_AccountKindUnknown K)"

definition mapAlgorithm :: "observation_contract \<Rightarrow> ScanResult \<Rightarrow> string" where
  "mapAlgorithm K scan =
     (if res_Algorithm scan = AlgorithmECDSAsecp256k1 then oc_AlgorithmSecp256k1ECRecover K
      else oc_AlgorithmSecp256k1ECRecover K)"

text \<open>The map \<open>chainIDsByNetwork\<close> is nil or empty exactly when it has no key.\<close>

definition resolveChainIDs :: "string list \<Rightarrow> (string \<rightharpoonup> int) \<Rightarrow> int list" where
  "resolveChainIDs networks byNetwork =
     sort (remdups (concat (map (\<lambda>n. case byNetwork n of
                                        None \<Rightarrow> [] | Some cid \<Rightarrow> if cid = 0 then [] else [cid]) networks)))"

definition isMultichain :: "int list \<Rightarrow> string list \<Rightarrow> bool" where
  "isMultichain chainIDs networkNames \<longleftrightarrow>
     length chainIDs > 1 \<or> length (remdups (filter (\<lambda>n. n \<noteq> '''') (map TrimSpace networkNames))) > 1"

definition ToWalletObservedEvent ::
  "observation_contract \<Rightarrow> ExportMeta \<Rightarrow> ScanResult option \<Rightarrow> (string \<rightharpoonup> int) \<Rightarrow> observation_event" where
  "ToWalletObservedEvent K meta scan byNetwork =
     (case scan of
        None \<Rightarrow> \<lparr> oe_EventID = '''', oe_EventType = '''', oe_EventVersion = '''', oe_OccurredAt = 0,
            oe_CorrelationID = '''', oe_CausationID = '''', oe_Producer = '''', oe_SubjectType = '''',
            oe_SubjectID = '''', oe_ChainIDs = [], oe_AccountKind = '''', oe_CurrentAlgorithm = '''',
            oe_PublicKeyExposed = False, oe_IsMultichain = False, oe_ObservedAt = 0,
            oe_CurrentPQPosture = '''' \<rparr>
      | Some s \<Rightarrow>
          (let occurred = (if IsZero (em_OccurredAt meta) then res_ScannedAt s else em_OccurredAt meta);
               networks = (case res_Networks s of None \<Rightarrow> [] | Some ns \<Rightarrow> ns);
               chainIDs = resolveChainIDs networks byNetwork;
               isMulti = isMultichain chainIDs networks
           in \<lparr> oe_EventID = em_EventID meta, oe_EventType = oc_EventTypeWalletObserved K,
                oe_EventVersion = oc_EventVersion K, oe_OccurredAt = occurred,
                oe_CorrelationID = em_CorrelationID meta, oe_CausationID = em_CausationID meta,
                oe_Producer = oc_ProducerCafeDiscovery K, oe_SubjectType = oc_SubjectTypeWallet K,
                oe_SubjectID = walletSubjectID (res_Address s), oe_ChainIDs = chainIDs,
                oe_AccountKind = mapAccountKind K s, oe_CurrentAlgorithm = mapAlgorithm K s,
                oe_PublicKeyExposed = res_KeyExposed s, oe_IsMultichain = isMulti,
                oe_ObservedAt = res_ScannedAt s,
                oe_CurrentPQPosture = deriveCurrentPQPosture K (Some s) \<rparr>))"

section \<open>Validation\<close>

definition chain_names :: "Blockchain list \<Rightarrow> string list" where
  "chain_names bs = map (\<lambda>b. TrimSpace (bc_Name b)) bs"

definition chain_ids :: "Blockchain list \<Rightarrow> int list" where
  "chain_ids bs = map bc_ChainID bs"

lemma Validate_loop_None_iff:
  "Validate_loop i bs names seen = None \<longleftrightarrow>
     distinct (chain_names bs) \<and> set (chain_names bs) \<inter> insert '''' names = {}
     \<and> distinct (chain_ids bs) \<and> set (chain_ids bs) \<inter> dom seen = {} \<and> list_all (\<lambda>i. 0 < i) (chain_ids bs)"
proof (induction bs arbitrary: i names seen)
  case (Cons b bs)
  show ?case
  proof (cases "TrimSpace (bc_Name b) = '''' \<or> TrimSpace (bc_Name b) \<in> names \<or> bc_ChainID b \<le> 0
      \<or> bc_ChainID b \<in> dom seen")
    case True
    then show ?thesis by (auto simp: chain_names_def chain_ids_def Let_def)
  next
    case False
    then have "seen (bc_ChainID b) = None" by blast
    then show ?thesis using False Cons
      by (auto simp: chain_names_def chain_ids_def Let_def)
  qed
qed (simp add: chain_names_def chain_ids_def)

lemma fold_network_ids:
  assumes "distinct (map bc_Name bs)" and "list_all (\<lambda>b. 0 < bc_ChainID b) bs"
  shows "fold (\<lambda>b m. if bc_ChainID b > 0 then m(bc_Name b \<mapsto> bc_ChainID b) else m) bs m n =
    (case map_of (map (\<lambda>b. (bc_Name b, bc_ChainID b)) bs) n of Some i \<Rightarrow> Some i | None \<Rightarrow> m n)"
  using assms
proof (induction bs arbitrary: m)
  case (Cons b bs)
  have "map_of (map (\<lambda>b. (bc_Name b, bc_ChainID b)) bs) (bc_Name b) = None"
    using Cons.prems(1) by (auto simp: map_of_eq_None_iff)
  then show ?case using Cons by (auto split: option.splits)
qed simp

lemma ChainIDByNetwork_valid:
  assumes "ChainConfig_Validate c = None"
  shows "ChainIDByNetwork c n = map_of (map (\<lambda>b. (bc_Name b, bc_ChainID b)) (cc_Blockchains c)) n"
    and "distinct (map bc_Name (cc_Blockchains c))" and "distinct (chain_ids (cc_Blockchains c))"
    and "list_all (\<lambda>b. 0 < bc_ChainID b) (cc_Blockchains c)"
proof -
  have v: "distinct (chain_names (cc_Blockchains c))" "distinct (chain_ids (cc_Blockchains c))"
      "list_all (\<lambda>i. 0 < i) (chain_ids (cc_Blockchains c))"
    using assms unfolding ChainConfig_Validate_def Validate_loop_None_iff by blast+
  have "chain_names (cc_Blockchains c) = map TrimSpace (map bc_Name (cc_Blockchains c))"
    by (simp add: chain_names_def)
  then show d: "distinct (map bc_Name (cc_Blockchains c))" using v(1) distinct_map by metis
  show p: "list_all (\<lambda>b. 0 < bc_ChainID b) (cc_Blockchains c)"
    using v(3) by (simp add: chain_ids_def list_all_iff)
  show "distinct (chain_ids (cc_Blockchains c))" by (rule v(2))
  show "ChainIDByNetwork c n = map_of (map (\<lambda>b. (bc_Name b, bc_ChainID b)) (cc_Blockchains c)) n"
    unfolding ChainIDByNetwork_def using fold_network_ids [OF d p, of Map.empty n]
    by (simp split: option.splits)
qed

text \<open>
  C39: a configuration is accepted exactly when every name is non-blank, every
  chain identifier is positive, and names and identifiers are pairwise different;
  the network map of an accepted configuration then gives every configured network
  its own identifier, knows no other network, and no two networks share one.
\<close>

theorem chain_config_valid:
  assumes "LoadChainConfig ReadFile Unmarshal path = Inr c"
  shows "(\<forall>n i. ChainIDByNetwork c n = Some i \<longleftrightarrow> (\<exists>b\<in>set (cc_Blockchains c). bc_Name b = n \<and> bc_ChainID b = i))
    \<and> inj_on (ChainIDByNetwork c) (dom (ChainIDByNetwork c)) \<and> (\<forall>i\<in>ran (ChainIDByNetwork c). 0 < i)
    \<and> distinct (chain_names (cc_Blockchains c)) \<and> '''' \<notin> set (chain_names (cc_Blockchains c))"
proof -
  have v: "ChainConfig_Validate c = None"
    using assms by (auto simp: LoadChainConfig_def split: sum.splits option.splits)
  note V = ChainIDByNetwork_valid [OF v]
  let ?l = "map (\<lambda>b. (bc_Name b, bc_ChainID b)) (cc_Blockchains c)"
  have d: "distinct (map fst ?l)" using V(2) by (simp add: comp_def)
  have iff: "ChainIDByNetwork c n = Some i \<longleftrightarrow> (\<exists>b\<in>set (cc_Blockchains c). bc_Name b = n \<and> bc_ChainID b = i)" for n i
    unfolding V(1) map_of_eq_Some_iff [OF d] by auto
  have inj: "inj_on bc_ChainID (set (cc_Blockchains c))"
    using V(3) by (simp add: chain_ids_def distinct_map)
  have "inj_on (ChainIDByNetwork c) (dom (ChainIDByNetwork c))"
  proof (rule inj_onI)
    fix n m assume "n \<in> dom (ChainIDByNetwork c)" "m \<in> dom (ChainIDByNetwork c)"
      and e: "ChainIDByNetwork c n = ChainIDByNetwork c m"
    then obtain i where "ChainIDByNetwork c n = Some i" "ChainIDByNetwork c m = Some i" by auto
    then show "n = m" using iff inj by (metis inj_onD)
  qed
  moreover have "\<forall>i\<in>ran (ChainIDByNetwork c). 0 < i"
    using V(4) iff by (auto simp: ran_def list_all_iff)
  moreover have "distinct (chain_names (cc_Blockchains c))" "'''' \<notin> set (chain_names (cc_Blockchains c))"
    using v unfolding ChainConfig_Validate_def Validate_loop_None_iff by blast+
  ultimately show ?thesis using iff by blast
qed

definition ex_chains :: ChainConfig where
  "ex_chains = \<lparr> cc_Blockchains = [\<lparr> bc_Name = ''ethereum'', bc_RPC = ''r1'', bc_ChainID = 1 \<rparr>,
     \<lparr> bc_Name = ''base'', bc_RPC = ''r2'', bc_ChainID = 8453 \<rparr>] \<rparr>"

lemma ex_chains_valid: "ChainConfig_Validate ex_chains = None"
  by code_simp

theorem chain_config_valid_witness:
  "LoadChainConfig (\<lambda>_. Inr ()) (\<lambda>_. Inr ex_chains) ''config.yaml'' = Inr ex_chains
   \<and> ChainIDByNetwork ex_chains ''base'' = Some 8453"
proof -
  have l: "LoadChainConfig (\<lambda>_. Inr ()) (\<lambda>_. Inr ex_chains) ''config.yaml'' = Inr ex_chains"
    by (simp add: LoadChainConfig_def ex_chains_valid)
  show ?thesis using l chain_config_valid [OF l] by (simp add: ex_chains_def)
qed

section \<open>The observation\<close>

lemma resolveChainIDs_props:
  "sorted (resolveChainIDs ns m)" "distinct (resolveChainIDs ns m)"
  "set (resolveChainIDs ns m) = {i. i \<noteq> 0 \<and> (\<exists>n\<in>set ns. m n = Some i)}"
proof -
  show "sorted (resolveChainIDs ns m)" "distinct (resolveChainIDs ns m)"
    by (simp_all add: resolveChainIDs_def)
  define f where "f n = (case m n of None \<Rightarrow> [] | Some cid \<Rightarrow> if cid = 0 then [] else [cid])" for n
  have f: "i \<in> set (f n) \<longleftrightarrow> i \<noteq> 0 \<and> m n = Some i" for n i
    by (cases "m n") (auto simp: f_def)
  have "set (resolveChainIDs ns m) = (\<Union>n\<in>set ns. set (f n))"
    by (simp add: resolveChainIDs_def f_def)
  then show "set (resolveChainIDs ns m) = {i. i \<noteq> 0 \<and> (\<exists>n\<in>set ns. m n = Some i)}"
    unfolding set_eq_iff UN_iff f by blast
qed

lemma length_remdups_one:
  "length (remdups xs) \<le> 1 \<longleftrightarrow> (\<forall>x\<in>set xs. \<forall>y\<in>set xs. x = y)"
proof -
  have "length (remdups xs) = card (set xs)" by (simp add: length_remdups_card_conv)
  then show ?thesis by (simp add: card_le_Suc0_iff_eq)
qed

lemma trimmed_names_inj:
  assumes "ChainConfig_Validate c = None" and "b \<in> set (cc_Blockchains c)" and "b' \<in> set (cc_Blockchains c)"
    and "bc_ChainID b \<noteq> bc_ChainID b'"
  shows "TrimSpace (bc_Name b) \<noteq> TrimSpace (bc_Name b') \<and> TrimSpace (bc_Name b) \<noteq> ''''"
proof -
  have d: "distinct (chain_names (cc_Blockchains c))" and n: "'''' \<notin> set (chain_names (cc_Blockchains c))"
    using assms(1) unfolding ChainConfig_Validate_def Validate_loop_None_iff by blast+
  have "inj_on (\<lambda>b. TrimSpace (bc_Name b)) (set (cc_Blockchains c))"
    using d by (simp add: chain_names_def distinct_map)
  moreover have "TrimSpace (bc_Name b) \<in> set (chain_names (cc_Blockchains c))"
    using assms(2) by (simp add: chain_names_def)
  ultimately show ?thesis using assms(2-4) n by (metis inj_onD)
qed

text \<open>
  The chain identifiers of an observation made with a valid configuration are
  those of the scan's known networks, each once, in increasing order and never
  zero; the scan counts as multichain exactly when it names two different networks.
\<close>

lemma observed_chains_exact:
  assumes "ChainConfig_Validate c = None" and "res_Networks s = Some ns"
    and "e = ToWalletObservedEvent K meta (Some s) (ChainIDByNetwork c)"
  shows "sorted (oe_ChainIDs e) \<and> distinct (oe_ChainIDs e) \<and> 0 \<notin> set (oe_ChainIDs e)
    \<and> set (oe_ChainIDs e) = bc_ChainID ` {b \<in> set (cc_Blockchains c). bc_Name b \<in> set ns}
    \<and> (oe_IsMultichain e \<longleftrightarrow> (\<exists>m\<in>set ns. \<exists>n\<in>set ns. TrimSpace m \<noteq> TrimSpace n
         \<and> TrimSpace m \<noteq> '''' \<and> TrimSpace n \<noteq> ''''))"
proof -
  have ids: "oe_ChainIDs e = resolveChainIDs ns (ChainIDByNetwork c)"
    and multi: "oe_IsMultichain e = isMultichain (oe_ChainIDs e) ns"
    using assms by (simp_all add: ToWalletObservedEvent_def Let_def)
  note V = ChainIDByNetwork_valid [OF assms(1)]
  have d: "distinct (map fst (map (\<lambda>b. (bc_Name b, bc_ChainID b)) (cc_Blockchains c)))"
    using V(2) by (simp add: comp_def)
  have iff: "ChainIDByNetwork c n = Some i \<longleftrightarrow> (\<exists>b\<in>set (cc_Blockchains c). bc_Name b = n \<and> bc_ChainID b = i)" for n i
    unfolding V(1) map_of_eq_Some_iff [OF d] by auto
  have ids_set: "set (oe_ChainIDs e) = bc_ChainID ` {b \<in> set (cc_Blockchains c). bc_Name b \<in> set ns}"
  proof (rule set_eqI)
    fix i
    have "i \<noteq> 0" if "b \<in> set (cc_Blockchains c)" "bc_ChainID b = i" for b
      using that V(4) by (auto simp: list_all_iff)
    then show "i \<in> set (oe_ChainIDs e) \<longleftrightarrow> i \<in> bc_ChainID ` {b \<in> set (cc_Blockchains c). bc_Name b \<in> set ns}"
      unfolding ids resolveChainIDs_props(3) mem_Collect_eq iff image_def by (safe; fastforce)
  qed
  have names: "length (remdups (filter (\<lambda>n. n \<noteq> '''') (map TrimSpace ns))) > 1 \<longleftrightarrow>
      (\<exists>m\<in>set ns. \<exists>n\<in>set ns. TrimSpace m \<noteq> TrimSpace n \<and> TrimSpace m \<noteq> '''' \<and> TrimSpace n \<noteq> '''')"
    unfolding not_le [symmetric] length_remdups_one set_filter set_map by blast
  have sub: "\<exists>m\<in>set ns. \<exists>n\<in>set ns. TrimSpace m \<noteq> TrimSpace n \<and> TrimSpace m \<noteq> '''' \<and> TrimSpace n \<noteq> ''''"
    if "length (oe_ChainIDs e) > 1"
  proof -
    have "\<not> length (remdups (oe_ChainIDs e)) \<le> 1"
      using that resolveChainIDs_props(2) [of ns "ChainIDByNetwork c"] by (simp add: ids distinct_remdups_id)
    then obtain i j where "i \<in> set (oe_ChainIDs e)" "j \<in> set (oe_ChainIDs e)" "i \<noteq> j"
      unfolding length_remdups_one by blast
    then obtain b b' where "b \<in> set (cc_Blockchains c)" "b' \<in> set (cc_Blockchains c)"
        "bc_ChainID b \<noteq> bc_ChainID b'" "bc_Name b \<in> set ns" "bc_Name b' \<in> set ns"
      unfolding ids_set by blast
    then show ?thesis using trimmed_names_inj [OF assms(1)] by (metis (no_types))
  qed
  have "0 \<notin> set (oe_ChainIDs e)" unfolding ids resolveChainIDs_props(3) by simp
  then show ?thesis
    using ids ids_set resolveChainIDs_props(1,2) names sub unfolding multi isMultichain_def by auto
qed

definition ex_observed :: ScanResult where
  "ex_observed = \<lparr> res_Address = ''0xAB'', res_Type = AccountTypeEOA, res_Algorithm = AlgorithmECDSAsecp256k1,
     res_NISTLevel = 1, res_KeyExposed = True, res_PublicKey = '''', res_TransactionHash = '''',
     res_ExposedNetwork = '''', res_PublicKeyRecovery = '''', res_IsEOA = True, res_IsERC4337 = False,
     res_RiskScore = 0, res_ScannedAt = 7, res_Networks = Some [''base'', ''ethereum'', ''base''],
     res_Delegations = None, res_Connections = None \<rparr>"

lemma observed_chains_exact_witness:
  "\<forall>K meta. oe_ChainIDs (ToWalletObservedEvent K meta (Some ex_observed) (ChainIDByNetwork ex_chains)) = [1, 8453]
     \<and> set (oe_ChainIDs (ToWalletObservedEvent K meta (Some ex_observed) (ChainIDByNetwork ex_chains)))
       = bc_ChainID ` {b \<in> set (cc_Blockchains ex_chains). bc_Name b \<in> set [''base'', ''ethereum'', ''base'']}"
proof (intro allI conjI)
  fix K meta
  have r: "resolveChainIDs [''base'', ''ethereum'', ''base''] (ChainIDByNetwork ex_chains) = [1, 8453]"
    by (simp add: resolveChainIDs_def ChainIDByNetwork_def ex_chains_def)
  show "oe_ChainIDs (ToWalletObservedEvent K meta (Some ex_observed) (ChainIDByNetwork ex_chains)) = [1, 8453]"
    using r by (simp add: ToWalletObservedEvent_def ex_observed_def Let_def)
  show "set (oe_ChainIDs (ToWalletObservedEvent K meta (Some ex_observed) (ChainIDByNetwork ex_chains)))
       = bc_ChainID ` {b \<in> set (cc_Blockchains ex_chains). bc_Name b \<in> set [''base'', ''ethereum'', ''base'']}"
    using observed_chains_exact [OF ex_chains_valid, of ex_observed "[''base'', ''ethereum'', ''base'']", OF _ refl]
    by (simp add: ex_observed_def)
qed

end
