(* ===== verification/Scan_Documents.thy ===== *)
theory Scan_Documents
  imports Chain_Config Http_Model Scan_Pending Scan_State Address
begin

text \<open>
  The documents the read endpoints answer with: the list items, details and
  results of \<open>src/internal/handler/discovery_v1_scans.go\<close> and
  \<open>discovery_v1_scan_result.go\<close>, and the cryptographic bills of materials of
  \<open>src/internal/cbom\<close>.

  A document is a \<open>gval\<close>.  A Go slice in a document is \<open>GNil\<close> when it is nil and a
  \<open>GList\<close> otherwise; a struct is the map of its JSON fields.  A map literal is an
  association list with the keys in the order of the source.
\<close>

section \<open>Go values in documents\<close>

definition gv_slice :: "('a \<Rightarrow> gval) \<Rightarrow> 'a list option \<Rightarrow> gval" where
  "gv_slice f xs = (case xs of None \<Rightarrow> GNil | Some ys \<Rightarrow> GList (map f ys))"

definition gv_delegation :: "Delegation \<Rightarrow> gval" where
  "gv_delegation d = GMap [(''chain_id'', GInt (dg_ChainID d)), (''delegated_address'', GStr (dg_DelegatedAddress d))]"

definition gv_certificate :: "CertificateInfo \<Rightarrow> gval" where
  "gv_certificate c = GMap
     [(''subject'', GStr (crt_Subject c)), (''issuer'', GStr (crt_Issuer c)),
      (''signature_algorithm'', GStr (crt_SignatureAlgorithm c)),
      (''public_key_algorithm'', GStr (crt_PublicKeyAlgorithm c)), (''key_size'', GInt (crt_KeySize c)),
      (''not_before'', GTime (crt_NotBefore c)), (''not_after'', GTime (crt_NotAfter c)),
      (''serial_number'', GStr (crt_SerialNumber c)), (''nist_level'', GInt (crt_NISTLevel c)),
      (''is_pqc_ready'', GBool (crt_IsPQCReady c))]"

definition gv_cipher_suite :: "CipherSuiteInfo \<Rightarrow> gval" where
  "gv_cipher_suite s = GMap
     [(''id'', GInt (uint (cs_ID s))), (''name'', GStr (cs_Name s)), (''key_exchange'', GStr (cs_KeyExchange s)),
      (''encryption'', GStr (cs_Encryption s)), (''mac'', GStr (cs_MAC s)),
      (''nist_level'', GInt (cs_NISTLevel s)), (''is_pqc_ready'', GBool (cs_IsPQCReady s))]"

definition gv_levels :: "(string \<times> int) list option \<Rightarrow> gval" where
  "gv_levels m = (case m of None \<Rightarrow> GNil | Some kvs \<Rightarrow> GMap (map (\<lambda>(k, v). (k, GInt v)) kvs))"

section \<open>Networks and chain identifiers\<close>

definition parseNetworksFromEntity :: "json_pkg \<Rightarrow> string \<Rightarrow> string list option" where
  "parseNetworksFromEntity J networksJSON =
     (if networksJSON = '''' \<or> networksJSON = ''[]'' then None
      else case unmarshal_strings J networksJSON of Inl _ \<Rightarrow> None | Inr arr \<Rightarrow> arr)"

definition networks_of :: "json_pkg \<Rightarrow> string \<Rightarrow> string list" where
  "networks_of J s = (case parseNetworksFromEntity J s of None \<Rightarrow> [] | Some ns \<Rightarrow> ns)"

text \<open>The chain identifier a network name stands for, if any: a decimal number or a configured name.\<close>

definition network_chain :: "(string \<rightharpoonup> int) \<Rightarrow> string \<Rightarrow> int option" where
  "network_chain byName n =
     (case ParseInt (TrimSpace n) of
        Some i \<Rightarrow> if i > 0 then Some i
                  else (case byName n of Some cid \<Rightarrow> if cid > 0 then Some cid else None | None \<Rightarrow> None)
      | None \<Rightarrow> (case byName n of Some cid \<Rightarrow> if cid > 0 then Some cid else None | None \<Rightarrow> None))"

text \<open>The loop: \<open>out\<close> starts as a nil slice; \<open>seen\<close> holds the members of \<open>out\<close>.\<close>

fun chain_ids_loop :: "(string \<rightharpoonup> int) \<Rightarrow> string list \<Rightarrow> int set \<Rightarrow> int list option \<Rightarrow> int list option" where
  "chain_ids_loop byName [] seen out = out"
| "chain_ids_loop byName (n # ns) seen out =
     (case network_chain byName n of
        None \<Rightarrow> chain_ids_loop byName ns seen out
      | Some i \<Rightarrow>
          if i \<in> seen then chain_ids_loop byName ns seen out
          else chain_ids_loop byName ns (insert i seen)
                 (Some ((case out of None \<Rightarrow> [] | Some xs \<Rightarrow> xs) @ [i])))"

definition chainIDsForNetworks :: "json_pkg \<Rightarrow> string \<Rightarrow> ChainConfig option \<Rightarrow> int list option" where
  "chainIDsForNetworks J networksJSON cfg =
     (let names = networks_of J networksJSON in
      case cfg of
        None \<Rightarrow> Some []
      | Some c \<Rightarrow> if names = [] then Some [] else chain_ids_loop (ChainIDByNetwork c) names {} None)"

definition walletEntityMatchesChainID ::
  "json_pkg \<Rightarrow> ScanResultEntity option \<Rightarrow> int \<Rightarrow> ChainConfig option \<Rightarrow> bool" where
  "walletEntityMatchesChainID J e want cfg =
     (case (e, cfg) of
        (Some e, Some c) \<Rightarrow>
          (let nets = networks_of J (sr_Networks e) in
           if nets = [] then False
           else list_ex (\<lambda>n. n = FormatInt want \<or> ChainIDByNetwork c n = Some want) nets)
      | _ \<Rightarrow> False)"

definition walletEntityIsCompleted :: "ScanResultEntity option \<Rightarrow> bool" where
  "walletEntityIsCompleted e =
     (case e of None \<Rightarrow> False | Some e \<Rightarrow> ToUpper (TrimSpace (sr_Status e)) = StateSUCCESS)"

text \<open>
  \<open>in[offset:end]\<close> panics for a negative offset or an end before it; the callers
  pass a non-negative offset and a positive limit.  The result of an offset past
  the end is nil.
\<close>

definition paginateWalletScanEntities :: "'a list \<Rightarrow> int \<Rightarrow> int \<Rightarrow> 'a list option" where
  "paginateWalletScanEntities xs limit offset =
     (if offset \<ge> int (length xs) then None
      else let e = offset + limit;
               e = (if e > int (length xs) then int (length xs) else e)
           in Some (take (nat (e - offset)) (drop (nat offset) xs)))"

section \<open>Items, details, results\<close>

definition formatTimeRFC3339Nano :: "time_pkg \<Rightarrow> go_time option \<Rightarrow> string" where
  "formatTimeRFC3339Nano T t =
     (case t of None \<Rightarrow> '''' | Some t \<Rightarrow> if IsZero t then '''' else Format_RFC3339Nano T t)"

definition nistLevelToPQPosture :: "NISTLevel \<Rightarrow> string" where
  "nistLevelToPQPosture l =
     (if l \<ge> 4 then ''pq_ready'' else if l \<ge> 2 then ''hybrid''
      else if l = 1 then ''not_pq_ready'' else ''unknown'')"

definition walletScanListItemV1 ::
  "uuid_pkg \<Rightarrow> time_pkg \<Rightarrow> json_pkg \<Rightarrow> ScanResultEntity \<Rightarrow> ChainConfig option \<Rightarrow> gmap" where
  "walletScanListItemV1 U T J e cfg =
     [(''scan_id'', GStr (uuid_String U (sr_ID e))),
      (''created_at'', GStr (Format_RFC3339Nano T (sr_CreatedAt e))),
      (''status'', GStr (walletScanLifecycleStatusV1 (sr_Status e))),
      (''target_address'', GStr (sr_Address e)),
      (''chain_ids'', gv_slice GInt (chainIDsForNetworks J (sr_Networks e) cfg))]"

definition walletScanResultV1 ::
  "time_pkg \<Rightarrow> json_pkg \<Rightarrow> ScanResultEntity \<Rightarrow> ChainConfig option \<Rightarrow> gmap" where
  "walletScanResultV1 T J e cfg =
     (case NormalizeWalletAccountKind (sr_Type e) (sr_IsEOA e) (sr_IsERC4337 e) of
        (accountType, _, _, walletType) \<Rightarrow>
     (let dto = ToScanResult J e;
          networks = networks_of J (sr_Networks e);
          delegations = (case res_Delegations dto of None \<Rightarrow> [] | Some ds \<Rightarrow> ds)
      in [(''target_address'', GStr (sr_Address e)),
          (''chain_ids'', gv_slice GInt (chainIDsForNetworks J (sr_Networks e) cfg)),
          (''wallet_type'', GStr walletType),
          (''current_pq_posture'', GStr (nistLevelToPQPosture (sr_NISTLevel e))),
          (''observations'', GList []),
          (''algorithm'', GStr (sr_Algorithm e)), (''nist_level'', GInt (sr_NISTLevel e)),
          (''risk_score'', GFloat (sr_RiskScore e)), (''key_exposed'', GBool (sr_KeyExposed e)),
          (''type'', GStr accountType), (''networks'', GList (map GStr networks)),
          (''delegations'', GList (map gv_delegation delegations)),
          (''public_key'', GStr (res_PublicKey dto)), (''transaction_hash'', GStr (res_TransactionHash dto)),
          (''exposed_network'', GStr (res_ExposedNetwork dto)),
          (''public_key_recovery'', GStr (res_PublicKeyRecovery dto)),
          (''scanned_at'', GStr (formatTimeRFC3339Nano T (Some (res_ScannedAt dto))))]))"

definition walletScanDetailV1 ::
  "uuid_pkg \<Rightarrow> time_pkg \<Rightarrow> json_pkg \<Rightarrow> ScanResultEntity \<Rightarrow> ChainConfig option \<Rightarrow> gmap" where
  "walletScanDetailV1 U T J e cfg =
     [(''scan_id'', GStr (uuid_String U (sr_ID e))),
      (''status'', GStr (walletScanLifecycleStatusV1 (sr_Status e)))]
     @ (if IsTerminal (sr_Status e) then [(''result'', GMap (walletScanResultV1 T J e cfg))] else [])"

definition tlsCertificateSummaryV1 :: "time_pkg \<Rightarrow> CertificateInfo \<Rightarrow> gmap" where
  "tlsCertificateSummaryV1 T cert =
     [(''subject'', GStr (crt_Subject cert)), (''issuer'', GStr (crt_Issuer cert)),
      (''signature_algorithm'', GStr (crt_SignatureAlgorithm cert)),
      (''not_after'', GStr (formatTimeRFC3339Nano T (Some (crt_NotAfter cert))))]"

definition tlsScanResultBodyV1 :: "time_pkg \<Rightarrow> json_pkg \<Rightarrow> TLSScanResultEntity \<Rightarrow> gmap" where
  "tlsScanResultBodyV1 T J ent =
     (let dto = ToTLSScanResult J ent;
          suites = (case tls_CipherSuites dto of None \<Rightarrow> [] | Some ss \<Rightarrow> ss);
          cipher = (case suites of [] \<Rightarrow> '''' | s # _ \<Rightarrow> cs_Name s);
          kex = (case suites of [] \<Rightarrow> '''' | s # _ \<Rightarrow> cs_KeyExchange s);
          supported = (case tls_SupportedPQCs dto of None \<Rightarrow> [] | Some ss \<Rightarrow> ss);
          recommendations = (case tls_Recommendations dto of None \<Rightarrow> [] | Some ss \<Rightarrow> ss);
          levels = (case tls_NISTLevels dto of None \<Rightarrow> [] | Some kvs \<Rightarrow> kvs)
      in [(''endpoint'', GStr (tls_URL dto)), (''tls_version'', GStr (tls_ProtocolVersion dto)),
          (''cipher_suite'', GStr cipher), (''key_exchange'', GStr kex),
          (''certificate_summary'', GMap (tlsCertificateSummaryV1 T (tls_Certificate dto))),
          (''current_pq_posture'', GStr (nistLevelToPQPosture (tls_NISTLevel dto))),
          (''observations'', GList []),
          (''url'', GStr (tls_URL dto)), (''host'', GStr (tls_Host dto)), (''port'', GInt (tls_Port dto)),
          (''protocol_version'', GStr (tls_ProtocolVersion dto)), (''nist_level'', GInt (tls_NISTLevel dto)),
          (''risk_score'', GFloat (tls_RiskScore dto)), (''pqc_risk'', GStr (tls_PQCRisk dto)),
          (''pqc_mode'', GStr (tls_PQCMode dto)), (''supported_pqc'', GList (map GStr supported)),
          (''recommendations'', GList (map GStr recommendations)),
          (''scanned_at'', GStr (formatTimeRFC3339Nano T (Some (tls_ScannedAt dto)))),
          (''default'', GBool (tls_Default dto)), (''certificate'', gv_certificate (tls_Certificate dto)),
          (''cipher_suites'', GList (map gv_cipher_suite suites)),
          (''kex_algorithm'', GStr (tls_KexAlgorithm dto)), (''kex_pqc_ready'', GBool (tls_KexPQCReady dto)),
          (''pfs'', GBool (tls_PFS dto)), (''ocsp_stapled'', GBool (tls_OCSPStapled dto)),
          (''nist_levels'', gv_levels (Some levels)), (''alpn'', GStr (tls_ALPN dto)),
          (''curve'', GStr (tls_Curve dto))])"

definition tlsScanListItemV1 :: "uuid_pkg \<Rightarrow> time_pkg \<Rightarrow> TLSScanResultEntity \<Rightarrow> gmap" where
  "tlsScanListItemV1 U T e =
     [(''scan_id'', GStr (uuid_String U (ts_ID e))), (''endpoint'', GStr (ts_URL e)),
      (''created_at'', GStr (Format_RFC3339Nano T (ts_CreatedAt e))),
      (''status'', GStr (walletScanLifecycleStatusV1 (ts_Status e)))]"

definition tlsScanDetailV1 :: "uuid_pkg \<Rightarrow> time_pkg \<Rightarrow> json_pkg \<Rightarrow> TLSScanResultEntity \<Rightarrow> gmap" where
  "tlsScanDetailV1 U T J e =
     [(''scan_id'', GStr (uuid_String U (ts_ID e))),
      (''status'', GStr (walletScanLifecycleStatusV1 (ts_Status e)))]
     @ (if ts_Default e then [(''is_default'', GBool True)] else [])
     @ (if IsTerminal (ts_Status e) then [(''result'', GMap (tlsScanResultBodyV1 T J e))] else [])"

section \<open>Bills of materials\<close>

definition quantumVulnerable :: "string \<Rightarrow> NISTLevel \<Rightarrow> bool" where
  "quantumVulnerable algorithm level \<longleftrightarrow> algorithm \<noteq> '''' \<and> level \<le> NISTLevel1"

text \<open>\<open>now\<close> is the value of \<open>time.Now()\<close>.\<close>

definition cbom_timestamp :: "time_pkg \<Rightarrow> go_time \<Rightarrow> go_time \<Rightarrow> string" where
  "cbom_timestamp T now scannedAt =
     (if IsZero scannedAt then Format_RFC3339 T now else Format_RFC3339 T scannedAt)"

definition wallet_component :: "ScanResult \<Rightarrow> gmap" where
  "wallet_component sr =
     (let qv = quantumVulnerable (res_Algorithm sr) (res_NISTLevel sr) in
      [(''type'', GStr ''cryptographic-primitive''), (''name'', GStr (res_Algorithm sr)),
       (''nist_level'', GInt (res_NISTLevel sr)), (''quantum_vulnerable'', GBool qv),
       (''key_exposed'', GBool (res_KeyExposed sr)), (''assetType'', GStr ''related-crypto-material''),
       (''state'', GStr ''active'')]
      @ (if qv then [(''customStates'', GList [GMap
            [(''name'', GStr ''quantum-vulnerable''),
             (''description'', GStr (''Key relies on cryptographic algorithms considered vulnerable ''
                @ ''to future cryptographic quantum attacks''))]])] else []))"

definition cbom_Wallet :: "time_pkg \<Rightarrow> go_time \<Rightarrow> ScanResult option \<Rightarrow> string \<Rightarrow> gmap option" where
  "cbom_Wallet T now sr address =
     (case sr of
        None \<Rightarrow> None
      | Some sr \<Rightarrow>
          (let address = (if address = '''' then res_Address sr else address);
               delegations = (case res_Delegations sr of None \<Rightarrow> [] | Some ds \<Rightarrow> ds)
           in Some
             [(''address'', GStr address), (''type'', GStr (res_Type sr)),
              (''algorithm'', GStr (res_Algorithm sr)), (''nist_level'', GInt (res_NISTLevel sr)),
              (''key_exposed'', GBool (res_KeyExposed sr)), (''risk_score'', GFloat (res_RiskScore sr)),
              (''public_key'', GStr (res_PublicKey sr)),
              (''transaction_hash'', GStr (res_TransactionHash sr)),
              (''exposed_network'', GStr (res_ExposedNetwork sr)),
              (''public_key_recovery'', GStr (res_PublicKeyRecovery sr)),
              (''networks'', gv_slice GStr (res_Networks sr)),
              (''delegations'', GList (map gv_delegation delegations)),
              (''scanned_at'', GTime (res_ScannedAt sr)),
              (''cbom'', GMap
                 [(''bomFormat'', GStr ''CycloneDX''), (''specVersion'', GStr ''1.7''), (''version'', GInt 1),
                  (''metadata'', GMap [(''timestamp'', GStr (cbom_timestamp T now (res_ScannedAt sr)))]),
                  (''type'', GStr ''wallet''), (''components'', GList [GMap (wallet_component sr)])])]))"

definition tls_components :: "TLSScanResult \<Rightarrow> gval list" where
  "tls_components sr =
     (let cert = tls_Certificate sr;
          level = (\<lambda>k d. case tls_NISTLevels sr of
                     None \<Rightarrow> d | Some kvs \<Rightarrow> (case map_of kvs k of Some l \<Rightarrow> l | None \<Rightarrow> d))
      in (if crt_Subject cert \<noteq> '''' \<or> crt_Issuer cert \<noteq> ''''
          then [GMap [(''type'', GStr ''certificate''), (''subject'', GStr (crt_Subject cert)),
                  (''issuer'', GStr (crt_Issuer cert)),
                  (''signature_algorithm'', GStr (crt_SignatureAlgorithm cert)),
                  (''public_key_algorithm'', GStr (crt_PublicKeyAlgorithm cert)),
                  (''key_size'', GInt (crt_KeySize cert)), (''nist_level'', GInt (crt_NISTLevel cert)),
                  (''quantum_vulnerable'', GBool (crt_NISTLevel cert \<le> 1)),
                  (''pqc_ready'', GBool (crt_IsPQCReady cert)),
                  (''not_before'', GTime (crt_NotBefore cert)), (''not_after'', GTime (crt_NotAfter cert))]]
          else [])
         @ (if tls_KexAlgorithm sr \<noteq> ''''
            then [GMap [(''type'', GStr ''key-exchange''), (''algorithm'', GStr (tls_KexAlgorithm sr)),
                    (''pqc_ready'', GBool (tls_KexPQCReady sr)), (''nist_level'', GInt (level ''kex'' 1)),
                    (''quantum_vulnerable'', GBool (level ''kex'' 1 \<le> 1))]]
            else [])
         @ (if crt_SignatureAlgorithm cert \<noteq> ''''
            then [GMap [(''type'', GStr ''signature-algorithm''), (''name'', GStr (crt_SignatureAlgorithm cert)),
                    (''nist_level'', GInt (level ''sig'' (crt_NISTLevel cert))),
                    (''quantum_vulnerable'', GBool (level ''sig'' (crt_NISTLevel cert) \<le> 1))]]
            else [])
         @ map (\<lambda>cs. GMap [(''type'', GStr ''cipher-suite''), (''name'', GStr (cs_Name cs)),
                  (''key_exchange'', GStr (cs_KeyExchange cs)), (''encryption'', GStr (cs_Encryption cs)),
                  (''mac'', GStr (cs_MAC cs)), (''nist_level'', GInt (cs_NISTLevel cs)),
                  (''quantum_vulnerable'', GBool (cs_NISTLevel cs \<le> 1)),
                  (''pqc_ready'', GBool (cs_IsPQCReady cs))])
             (case tls_CipherSuites sr of None \<Rightarrow> [] | Some ss \<Rightarrow> ss))"

definition cbom_TLS :: "time_pkg \<Rightarrow> go_time \<Rightarrow> TLSScanResult option \<Rightarrow> gmap option" where
  "cbom_TLS T now sr =
     (case sr of
        None \<Rightarrow> None
      | Some sr \<Rightarrow> Some
         [(''url'', GStr (tls_URL sr)), (''host'', GStr (tls_Host sr)), (''port'', GInt (tls_Port sr)),
          (''protocol_version'', GStr (tls_ProtocolVersion sr)), (''nist_level'', GInt (tls_NISTLevel sr)),
          (''risk_score'', GFloat (tls_RiskScore sr)), (''pqc_risk'', GStr (tls_PQCRisk sr)),
          (''pqc_mode'', GStr (tls_PQCMode sr)), (''supported_pqc'', gv_slice GStr (tls_SupportedPQCs sr)),
          (''recommendations'', gv_slice GStr (tls_Recommendations sr)),
          (''scanned_at'', GTime (tls_ScannedAt sr)), (''default'', GBool (tls_Default sr)),
          (''certificate'', gv_certificate (tls_Certificate sr)),
          (''cipher_suites'', gv_slice gv_cipher_suite (tls_CipherSuites sr)),
          (''kex_algorithm'', GStr (tls_KexAlgorithm sr)), (''kex_pqc_ready'', GBool (tls_KexPQCReady sr)),
          (''pfs'', GBool (tls_PFS sr)), (''ocsp_stapled'', GBool (tls_OCSPStapled sr)),
          (''nist_levels'', gv_levels (tls_NISTLevels sr)),
          (''cbom'', GMap
             [(''bomFormat'', GStr ''CycloneDX''), (''specVersion'', GStr ''1.7''), (''version'', GInt 1),
              (''metadata'', GMap
                 [(''timestamp'', GStr (cbom_timestamp T now (tls_ScannedAt sr))),
                  (''lifecycles'', GList [GMap [(''phase'', GStr ''discovery''),
                     (''description'', GStr (''Point-in-time cryptographic discovery of live TLS endpoints ''
                        @ ''observed over the network''))]])]),
              (''type'', GStr ''tls-endpoint''), (''components'', GList (tls_components sr))])])"

section \<open>Chain identifiers\<close>

text \<open>The reference: every name is resolved on its own, and each identifier is kept where it first appears.\<close>

definition first_of_each :: "'a list \<Rightarrow> 'a list" where
  "first_of_each xs = rev (remdups (rev xs))"

definition resolved_chains :: "(string \<rightharpoonup> int) \<Rightarrow> string list \<Rightarrow> int list" where
  "resolved_chains byName ns = first_of_each (List.map_filter (network_chain byName) ns)"

lemma first_of_each_simps [simp]:
  "set (first_of_each xs) = set xs" "distinct (first_of_each xs)" "first_of_each [] = []"
  by (simp_all add: first_of_each_def)

lemma remdups_snoc:
  "remdups (xs @ [x]) = remdups (filter (\<lambda>y. y \<noteq> x) xs) @ [x]"
  by (induction xs) auto

lemma remdups_filter_in:
  "filter P (remdups xs) = remdups (filter P xs)"
  by (rule remdups_filter [symmetric])

lemma first_of_each_Cons:
  "first_of_each (x # xs) = x # first_of_each (filter (\<lambda>y. y \<noteq> x) xs)"
  by (simp add: first_of_each_def remdups_snoc rev_filter)

lemma chain_ids_loop_resolved:
  "(case chain_ids_loop byName ns seen out of None \<Rightarrow> [] | Some xs \<Rightarrow> xs)
   = (case out of None \<Rightarrow> [] | Some xs \<Rightarrow> xs)
     @ first_of_each (filter (\<lambda>i. i \<notin> seen) (List.map_filter (network_chain byName) ns))"
proof (induction ns arbitrary: seen out)
  case (Cons n ns)
  show ?case
  proof (cases "network_chain byName n")
    case (Some i)
    have "filter (\<lambda>y. y \<noteq> i \<and> y \<notin> seen) ys = filter (\<lambda>y. y \<noteq> i) (filter (\<lambda>y. y \<notin> seen) ys)" for ys
      by (simp add: conj_commute)
    then show ?thesis using Some
      by (simp add: Cons.IH map_filter_simps first_of_each_Cons)
  qed (simp add: Cons.IH map_filter_simps)
qed (simp add: map_filter_simps)

lemma network_chain_pos: "network_chain byName n = Some i \<Longrightarrow> 0 < i"
  by (auto simp: network_chain_def split: option.splits if_splits)

lemma network_chain_number:
  assumes "in_int64 i" and "0 < i"
  shows "network_chain byName (FormatInt i) = Some i"
proof -
  have f: "FormatInt i = FormatUint (nat i)" using assms(2) by (simp add: FormatInt_def)
  note d = FormatUint_digits [of "nat i"]
  have p: "plain_char c" if "is_digit c" for c using that by (auto simp: is_digit_def plain_char_def)
  have "TrimSpace (FormatInt i) = FormatInt i"
    unfolding f by (rule TrimSpace_plain) (use d p in \<open>auto simp: list_all_iff\<close>)
  then show ?thesis using ParseInt_FormatInt [OF assms(1)] assms(2) by (simp add: network_chain_def)
qed

text \<open>A configured name that reads as a number would be taken for that chain.\<close>

definition no_numeric_names :: "ChainConfig \<Rightarrow> bool" where
  "no_numeric_names c \<longleftrightarrow> (\<forall>b\<in>set (cc_Blockchains c). ParseInt (TrimSpace (bc_Name b)) = None)"

lemma network_chain_name:
  assumes "ChainConfig_Validate c = None" and "no_numeric_names c" and "ChainIDByNetwork c n = Some i"
  shows "network_chain (ChainIDByNetwork c) n = Some i"
proof -
  note V = ChainIDByNetwork_valid [OF assms(1)]
  have "map_of (map (\<lambda>b. (bc_Name b, bc_ChainID b)) (cc_Blockchains c)) n = Some i"
    using assms(3) V(1) by simp
  from map_of_SomeD [OF this] obtain b where "b \<in> set (cc_Blockchains c)" "n = bc_Name b" "i = bc_ChainID b"
    by auto
  then show ?thesis using assms(2,3) V(4) by (auto simp: network_chain_def no_numeric_names_def list_all_iff)
qed

definition shown_chains :: "json_pkg \<Rightarrow> ScanResultEntity \<Rightarrow> ChainConfig \<Rightarrow> int list" where
  "shown_chains J e c = (case chainIDsForNetworks J (sr_Networks e) (Some c) of None \<Rightarrow> [] | Some xs \<Rightarrow> xs)"


section \<open>Details\<close>

lemma terminal_in_statuses: "IsTerminal st \<Longrightarrow> st \<in> set scan_statuses"
  by (auto simp: scan_statuses_def IsTerminal_iff TerminalStates_def)

lemma detail_result:
  "map_of (walletScanDetailV1 U T J e cfg) ''result'' =
     (if IsTerminal (sr_Status e) then Some (GMap (walletScanResultV1 T J e cfg)) else None)"
  "map_of (walletScanDetailV1 U T J e cfg) ''status'' = Some (GStr (walletScanLifecycleStatusV1 (sr_Status e)))"
  "map_of (tlsScanDetailV1 U T J t) ''result'' =
     (if IsTerminal (ts_Status t) then Some (GMap (tlsScanResultBodyV1 T J t)) else None)"
  "map_of (tlsScanDetailV1 U T J t) ''status'' = Some (GStr (walletScanLifecycleStatusV1 (ts_Status t)))"
  by (simp_all add: walletScanDetailV1_def tlsScanDetailV1_def)

text \<open>
  A detail carries a result only together with a final status, for wallets and
  endpoints alike; for the statuses the program stores it carries one exactly then.
\<close>

lemma detail_result_terminal:
  "(map_of (walletScanDetailV1 U T J e cfg) ''result'' \<noteq> None \<longrightarrow>
      map_of (walletScanDetailV1 U T J e cfg) ''status'' \<in> {Some (GStr ''completed''), Some (GStr ''failed'')})
   \<and> (map_of (tlsScanDetailV1 U T J t) ''result'' \<noteq> None \<longrightarrow>
      map_of (tlsScanDetailV1 U T J t) ''status'' \<in> {Some (GStr ''completed''), Some (GStr ''failed'')})
   \<and> (sr_Status e \<in> set scan_statuses \<longrightarrow>
      (map_of (walletScanDetailV1 U T J e cfg) ''result'' \<noteq> None \<longleftrightarrow>
       map_of (walletScanDetailV1 U T J e cfg) ''status'' \<in> {Some (GStr ''completed''), Some (GStr ''failed'')}))"
proof -
  have final: "walletScanLifecycleStatusV1 st \<in> {''completed'', ''failed''} \<longleftrightarrow> IsTerminal st"
    if st: "st \<in> set scan_statuses" for st
  proof -
    consider "st = ''''" | "st = StatePENDING" | "st = StateRUNNING" | "st = StateSUCCESS"
      | "st = StateFAILED" | "st = StateTIMEOUT" | "st = StateUNREACHABLE"
      using st by (auto simp: scan_statuses_def TerminalStates_def)
    then show ?thesis
      by cases (simp_all add: lifecycle_table IsTerminal_iff, simp_all add: go_consts)
  qed
  show ?thesis unfolding detail_result using final terminal_in_statuses by auto
qed

text \<open>
  The two posture scales of the program differ on level four: the result says
  \<open>pq_ready\<close>, the exported observation says hybrid.
\<close>

lemma posture_level4_differs:
  "res_NISTLevel s = 4 \<Longrightarrow>
     nistLevelToPQPosture (res_NISTLevel s) = ''pq_ready''
     \<and> deriveCurrentPQPosture K (Some s) = oc_PQPostureHybrid K"
  by (simp add: nistLevelToPQPosture_def deriveCurrentPQPosture_def)

text \<open>A status in another case is shown as final and has no result.\<close>

lemma lowercase_status_no_result:
  "sr_Status e = ''success'' \<Longrightarrow>
     map_of (walletScanDetailV1 U T J e cfg) ''status'' = Some (GStr ''completed'')
     \<and> map_of (walletScanDetailV1 U T J e cfg) ''result'' = None"
proof -
  have t: "TrimSpace ''success'' = ''success''" by (simp add: TrimSpace_plain plain_char_def byte_def)
  have u: "ToUpper ''success'' = ''SUCCESS''" by code_simp
  have "walletScanLifecycleStatusV1 ''success'' = ''completed''"
    unfolding walletScanLifecycleStatusV1_def t u by (simp add: go_consts)
  moreover have "\<not> IsTerminal ''success''" by (simp add: IsTerminal_iff go_consts)
  ultimately show "sr_Status e = ''success'' \<Longrightarrow> ?thesis" by (simp add: detail_result)
qed

definition ex_json :: json_pkg where
  "ex_json = \<lparr> unmarshal_strings = (\<lambda>s. Inr (Some [''base'', ''1'', ''base''])),
     unmarshal_delegations = (\<lambda>_. Inr None), decode_certificate = (\<lambda>_. zero_certificate),
     decode_cipher_suites = (\<lambda>_. None), decode_strings = (\<lambda>_. None), decode_levels = (\<lambda>_. None) \<rparr>"

definition ex_stored :: ScanResultEntity where
  "ex_stored = \<lparr> sr_ID = 2, sr_UserID = 1, sr_Address = ''0xab'', sr_Type = AccountTypeEOA,
     sr_Algorithm = AlgorithmECDSAsecp256k1, sr_NISTLevel = 1, sr_KeyExposed = True, sr_PublicKey = '''',
     sr_TransactionHash = '''', sr_ExposedNetwork = '''', sr_PublicKeyRecovery = '''', sr_IsEOA = True,
     sr_IsERC4337 = False, sr_RiskScore = 0, sr_Networks = ''[..]'', sr_Delegations = '''',
     sr_Connections = '''', sr_Status = StateSUCCESS, sr_Error = '''', sr_ScannedAt = None,
     sr_CreatedAt = 3, sr_UpdatedAt = 4, sr_DeletedAt = None \<rparr>"

lemma ex_no_numeric: "no_numeric_names ex_chains"
  unfolding no_numeric_names_def ex_chains_def by code_simp


lemma detail_result_terminal_witness:
  "\<forall>U T. map_of (walletScanDetailV1 U T ex_json ex_stored None) ''result'' \<noteq> None
     \<and> map_of (walletScanDetailV1 U T ex_json ex_stored None) ''status''
         \<in> {Some (GStr ''completed''), Some (GStr ''failed'')}"
proof (intro allI)
  fix U T
  have "IsTerminal (sr_Status ex_stored)" by (simp add: ex_stored_def IsTerminal_iff)
  then have "map_of (walletScanDetailV1 U T ex_json ex_stored None) ''result'' \<noteq> None"
    by (simp add: detail_result)
  then show "map_of (walletScanDetailV1 U T ex_json ex_stored None) ''result'' \<noteq> None
     \<and> map_of (walletScanDetailV1 U T ex_json ex_stored None) ''status''
         \<in> {Some (GStr ''completed''), Some (GStr ''failed'')}"
    using detail_result_terminal by blast
qed

section \<open>Consistency of the bills of materials\<close>

definition flag_follows_level :: "gval \<Rightarrow> bool" where
  "flag_follows_level v = (case v of
     GMap m \<Rightarrow> (case map_of m ''nist_level'' of
                  Some (GInt l) \<Rightarrow> map_of m ''quantum_vulnerable'' = Some (GBool (l \<le> 1)) | _ \<Rightarrow> False)
   | _ \<Rightarrow> False)"

text \<open>The list under a path of keys of a document.\<close>

fun doc_at :: "string list \<Rightarrow> gval \<Rightarrow> gval option" where
  "doc_at [] v = Some v"
| "doc_at (k # ks) (GMap m) = (case map_of m k of None \<Rightarrow> None | Some v \<Rightarrow> doc_at ks v)"
| "doc_at (k # ks) _ = None"

lemma tls_components_flags: "list_all flag_follows_level (tls_components sr)"
  by (auto simp: tls_components_def Let_def list_all_iff flag_follows_level_def split: if_splits option.splits)

lemma tls_components_length:
  "length (tls_components sr) =
     of_bool (\<not> (crt_Subject (tls_Certificate sr) = '''' \<and> crt_Issuer (tls_Certificate sr) = ''''))
     + of_bool (tls_KexAlgorithm sr \<noteq> '''') + of_bool (crt_SignatureAlgorithm (tls_Certificate sr) \<noteq> '''')
     + length (case tls_CipherSuites sr of None \<Rightarrow> [] | Some ss \<Rightarrow> ss)"
  by (simp add: tls_components_def Let_def)

text \<open>
  The bill of materials of an endpoint lists the certificate, the key exchange,
  the signature and every cipher suite, and each component is marked vulnerable
  exactly when its own level is at most one; the wallet's single component is marked
  exactly when the scan has an algorithm of such a level, and then says why.
\<close>

lemma cbom_flags_consistent:
  "(\<exists>doc comps. cbom_TLS T now (Some sr) = Some doc \<and> doc_at [''cbom'', ''components''] (GMap doc) = Some (GList comps)
      \<and> list_all flag_follows_level comps
      \<and> length comps = of_bool (\<not> (crt_Subject (tls_Certificate sr) = '''' \<and> crt_Issuer (tls_Certificate sr) = ''''))
         + of_bool (tls_KexAlgorithm sr \<noteq> '''') + of_bool (crt_SignatureAlgorithm (tls_Certificate sr) \<noteq> '''')
         + length (case tls_CipherSuites sr of None \<Rightarrow> [] | Some ss \<Rightarrow> ss))
   \<and> (\<exists>doc m. cbom_Wallet T now (Some w) a = Some doc
      \<and> doc_at [''cbom'', ''components''] (GMap doc) = Some (GList [GMap m])
      \<and> map_of m ''quantum_vulnerable'' = Some (GBool (res_Algorithm w \<noteq> '''' \<and> res_NISTLevel w \<le> 1))
      \<and> (map_of m ''customStates'' \<noteq> None \<longleftrightarrow> res_Algorithm w \<noteq> '''' \<and> res_NISTLevel w \<le> 1))"
  by (simp add: cbom_TLS_def cbom_Wallet_def wallet_component_def quantumVulnerable_def NISTLevel1_def Let_def
      tls_components_flags tls_components_length)

end
