(* ===== verification/Scan_Read.thy ===== *)
theory Scan_Read
  imports Post_Scan Scan_Documents
begin

text \<open>
  The store of scan reads and deletes, \<open>src/internal/persistence/scanread\<close>: its
  interface, the decoding of the rows of the persistence service, and the store
  over the repositories, \<open>src/internal/handler/scan_read_testsupport.go\<close>.

  An operation of a store takes a state to its answer and the next state.  The state
  is \<open>world\<close> (the database and the calls made) for the store over the repositories
  and the state of the network for the HTTP client.
\<close>

section \<open>The interface\<close>

definition scanread_ErrUnavailable :: goerr where
  "scanread_ErrUnavailable = ErrNew ''scan persistence unavailable''"

type_synonym ('w, 'a) op = "'w \<Rightarrow> 'a result \<times> 'w"

text \<open>\<open>url.Values\<close> with one value per key.\<close>

type_synonym url_values = "(string \<times> string) list"

definition values_Get :: "url_values \<Rightarrow> string \<Rightarrow> string" where
  "values_Get q k = (case map_of q k of Some v \<Rightarrow> v | None \<Rightarrow> '''')"

record 'w ScanReadStore =
  rs_ListWalletScans :: "uuid \<Rightarrow> string \<Rightarrow> url_values \<Rightarrow> ('w, ScanResultEntity list \<times> int \<times> int \<times> int) op"
  rs_GetWalletScan :: "uuid \<Rightarrow> string \<Rightarrow> uuid \<Rightarrow> ('w, ScanResultEntity option) op"
  rs_DeleteWalletScan :: "uuid \<Rightarrow> string \<Rightarrow> uuid \<Rightarrow> ('w, bool) op"
  rs_ListTLSScans :: "uuid \<Rightarrow> string \<Rightarrow> int \<Rightarrow> int \<Rightarrow> ('w, TLSScanResultEntity list \<times> int) op"
  rs_ListTLSDefaultScans :: "uuid \<Rightarrow> string \<Rightarrow> ('w, TLSScanResultEntity option list) op"
  rs_GetTLSScan :: "uuid \<Rightarrow> string \<Rightarrow> uuid \<Rightarrow> ('w, TLSScanResultEntity option) op"
  rs_DeleteTLSScan :: "uuid \<Rightarrow> string \<Rightarrow> uuid \<Rightarrow> ('w, bool) op"

text \<open>
  The operations of the pending store that the read endpoints use, on a state; and
  the store of \<open>Scan_Pending\<close> as such operations, whose deletes are recorded.
\<close>

record 'w pending_ops =
  pd_Get :: "uuid \<Rightarrow> string \<Rightarrow> uuid \<Rightarrow> ('w, PendingRecord option) op"
  pd_Delete :: "uuid \<Rightarrow> string \<Rightarrow> uuid \<Rightarrow> ('w, unit) op"
  pd_DeleteWalletReservation :: "uuid \<Rightarrow> string \<Rightarrow> string \<Rightarrow> uuid \<Rightarrow> ('w, unit) op"

definition recorded_pending :: "PendingStore \<Rightarrow> world pending_ops" where
  "recorded_pending S =
     \<lparr> pd_Get = (\<lambda>userID tenantID scanID w. (ps_Get S userID tenantID scanID, w)),
       pd_Delete = (\<lambda>userID tenantID scanID w.
         (ps_Delete S userID tenantID scanID, call_out (ODelete userID scanID) w)),
       pd_DeleteWalletReservation = (\<lambda>userID tenantID address scanID w.
         (ps_DeleteWalletReservation S userID tenantID address scanID,
          call_out (ODeleteWalletReservation userID address scanID) w)) \<rparr>"

section \<open>Rows of the persistence service\<close>

record WalletScanRowWire =
  ww_ID :: string
  ww_UserID :: string
  ww_Address :: string
  ww_Type :: string
  ww_Algorithm :: string
  ww_NISTLevel :: int
  ww_KeyExposed :: bool
  ww_PublicKey :: string
  ww_TransactionHash :: string
  ww_ExposedNetwork :: string
  ww_PublicKeyRecovery :: string
  ww_IsEOA :: bool
  ww_IsERC4337 :: bool
  ww_RiskScore :: float64
  ww_Networks :: string
  ww_Delegations :: string
  ww_Connections :: string
  ww_Status :: string
  ww_Error :: string
  ww_ScannedAt :: string
  ww_CreatedAt :: string
  ww_UpdatedAt :: string

record TLSScanRowWire =
  tw_ID :: string
  tw_UserID :: string
  tw_URL :: string
  tw_Host :: string
  tw_Port :: int
  tw_ProtocolVersion :: string
  tw_NISTLevel :: int
  tw_RiskScore :: float64
  tw_PQCRisk :: string
  tw_KexAlgorithm :: string
  tw_KexPQCReady :: bool
  tw_PQCMode :: string
  tw_PFS :: bool
  tw_ALPN :: string
  tw_OCSPStapled :: bool
  tw_Curve :: string
  tw_Certificate :: string
  tw_CipherSuites :: string
  tw_SupportedPQCs :: string
  tw_Recommendations :: string
  tw_NISTLevels :: string
  tw_Default :: bool
  tw_Status :: string
  tw_Error :: string
  tw_CreatedAt :: string
  tw_UpdatedAt :: string

record ListWalletScansWire =
  lw_Items :: "WalletScanRowWire list"
  lw_Total :: int
  lw_Limit :: int
  lw_Offset :: int

record ListTLSScansWire =
  lt_Items :: "TLSScanRowWire list"
  lt_Total :: int
  lt_Limit :: int
  lt_Offset :: int

record ListTLSDefaultsWire =
  ld_Items :: "TLSScanRowWire list"
  ld_Total :: int
  ld_Limit :: int
  ld_Offset :: int

definition scanread_parseTime :: "time_pkg \<Rightarrow> string \<Rightarrow> go_time result" where
  "scanread_parseTime T value =
     (let v = TrimSpace value in
      if v = '''' then Inr 0
      else case Parse_RFC3339Nano T v of
             Inr t \<Rightarrow> Inr t
           | Inl _ \<Rightarrow> Parse_RFC3339 T v)"

definition optionalTime :: "time_pkg \<Rightarrow> string \<Rightarrow> go_time option" where
  "optionalTime T value =
     (case scanread_parseTime T value of Inl _ \<Rightarrow> None | Inr t \<Rightarrow> if IsZero t then None else Some t)"

definition WalletRowToEntity :: "time_pkg \<Rightarrow> uuid_pkg \<Rightarrow> WalletScanRowWire \<Rightarrow> ScanResultEntity result" where
  "WalletRowToEntity T U w =
     rbind (uuid_Parse U (TrimSpace (ww_ID w))) (\<lambda>i.
     rbind (uuid_Parse U (TrimSpace (ww_UserID w))) (\<lambda>userID.
     rbind (scanread_parseTime T (ww_CreatedAt w)) (\<lambda>createdAt.
     rbind (scanread_parseTime T (ww_UpdatedAt w)) (\<lambda>updatedAt.
     Inr \<lparr> sr_ID = i, sr_UserID = userID, sr_Address = ww_Address w, sr_Type = ww_Type w,
           sr_Algorithm = ww_Algorithm w, sr_NISTLevel = ww_NISTLevel w, sr_KeyExposed = ww_KeyExposed w,
           sr_PublicKey = ww_PublicKey w, sr_TransactionHash = ww_TransactionHash w,
           sr_ExposedNetwork = ww_ExposedNetwork w, sr_PublicKeyRecovery = ww_PublicKeyRecovery w,
           sr_IsEOA = ww_IsEOA w, sr_IsERC4337 = ww_IsERC4337 w, sr_RiskScore = ww_RiskScore w,
           sr_Networks = ww_Networks w, sr_Delegations = ww_Delegations w,
           sr_Connections = ww_Connections w, sr_Status = ww_Status w, sr_Error = ww_Error w,
           sr_ScannedAt = optionalTime T (ww_ScannedAt w), sr_CreatedAt = createdAt,
           sr_UpdatedAt = updatedAt, sr_DeletedAt = None \<rparr>))))"

definition TLSRowToEntity :: "time_pkg \<Rightarrow> uuid_pkg \<Rightarrow> TLSScanRowWire \<Rightarrow> TLSScanResultEntity result" where
  "TLSRowToEntity T U w =
     rbind (uuid_Parse U (TrimSpace (tw_ID w))) (\<lambda>i.
     rbind (scanread_parseTime T (tw_CreatedAt w)) (\<lambda>createdAt.
     rbind (scanread_parseTime T (tw_UpdatedAt w)) (\<lambda>updatedAt.
     (let ent = \<lparr> ts_ID = i, ts_UserID = None, ts_URL = tw_URL w, ts_Host = tw_Host w, ts_Port = tw_Port w,
           ts_ProtocolVersion = tw_ProtocolVersion w, ts_NISTLevel = tw_NISTLevel w,
           ts_RiskScore = tw_RiskScore w, ts_PQCRisk = tw_PQCRisk w, ts_Certificate = tw_Certificate w,
           ts_CipherSuites = tw_CipherSuites w, ts_SupportedPQCs = tw_SupportedPQCs w,
           ts_Recommendations = tw_Recommendations w, ts_KexAlgorithm = tw_KexAlgorithm w,
           ts_KexPQCReady = tw_KexPQCReady w, ts_PQCMode = tw_PQCMode w, ts_PFS = tw_PFS w,
           ts_ALPN = tw_ALPN w, ts_OCSPStapled = tw_OCSPStapled w, ts_Curve = tw_Curve w,
           ts_NISTLevels = tw_NISTLevels w, ts_Default = tw_Default w, ts_Status = tw_Status w,
           ts_Error = tw_Error w, ts_CreatedAt = createdAt, ts_UpdatedAt = updatedAt,
           ts_DeletedAt = None \<rparr>;
          uid = TrimSpace (tw_UserID w)
      in if uid \<noteq> '''' then rbind (uuid_Parse U uid) (\<lambda>parsed. Inr (ent\<lparr>ts_UserID := Some parsed\<rparr>))
         else Inr ent))))"

section \<open>The store over the repositories\<close>

text \<open>
  The value that \<open>strconv.ParseInt\<close> and \<open>strconv.Atoi\<close> return beside an error: \<open>0\<close>
  on a syntax error, the nearest bound on a range error.
\<close>

definition ParseInt_value :: "string \<Rightarrow> int" where
  "ParseInt_value s =
     (case ParseInt s of
        Some v \<Rightarrow> v
      | None \<Rightarrow>
          (let neg = (s \<noteq> [] \<and> hd s = CHR ''-'');
               body = (if s \<noteq> [] \<and> (hd s = CHR ''-'' \<or> hd s = CHR ''+'') then tl s else s)
           in if ParseUint10 body = None then 0 else if neg then - (2 ^ 63) else 2 ^ 63 - 1))"

text \<open>The first completed scan of the chain, if a chain is asked for.\<close>

fun latest_completed :: "json_pkg \<Rightarrow> ChainConfig option \<Rightarrow> string \<Rightarrow> ScanResultEntity list \<Rightarrow> ScanResultEntity option" where
  "latest_completed J cfg chainQ [] = None"
| "latest_completed J cfg chainQ (ent # rest) =
     (if walletEntityIsCompleted (Some ent)
      then if chainQ \<noteq> '''' \<and> (case ParseInt chainQ of
                 Some chainID \<Rightarrow> \<not> walletEntityMatchesChainID J (Some ent) chainID cfg | None \<Rightarrow> False)
           then latest_completed J cfg chainQ rest
           else Some ent
      else latest_completed J cfg chainQ rest)"

definition stub_ListWalletScans ::
  "json_pkg \<Rightarrow> ChainConfig option \<Rightarrow> uuid \<Rightarrow> string \<Rightarrow> url_values \<Rightarrow>
     (world, ScanResultEntity list \<times> int \<times> int \<times> int) op" where
  "stub_ListWalletScans J cfg userID tenant query =
     (let limit = ParseInt_value (values_Get query ''limit'');
          offset = ParseInt_value (values_Get query ''offset'');
          limit = (if limit \<le> 0 then 20 else limit);
          addr = values_Get query ''address'';
          latest = (values_Get query ''latest'' = ''true'');
          chainQ = values_Get query ''chain_id''
      in if latest \<and> addr \<noteq> ''''
         then run_db (dbind (ListOwnerWalletScansByAddress userID addr) (\<lambda>all.
                case latest_completed J cfg chainQ all of
                  Some ent \<Rightarrow> dreturn ([ent], 1, limit, offset)
                | None \<Rightarrow> dreturn ([], 0, limit, offset)))
         else if addr \<noteq> '''' \<and> chainQ \<noteq> ''''
         then run_db (dbind (ListOwnerWalletScansByAddress userID addr) (\<lambda>all.
                let chainID = ParseInt_value chainQ;
                    filtered = filter (\<lambda>ent. walletEntityMatchesChainID J (Some ent) chainID cfg) all
                in dreturn ((case paginateWalletScanEntities filtered limit offset of
                               None \<Rightarrow> [] | Some page \<Rightarrow> page),
                            int (length filtered), limit, offset)))
         else run_db (dbind (ListOwnerWalletScansDiscoveryV1 userID addr limit offset) (\<lambda>(entities, total).
                dreturn (entities, total, limit, offset))))"

definition NewRepoScanReadStub :: "json_pkg \<Rightarrow> go_time \<Rightarrow> ChainConfig option \<Rightarrow> world ScanReadStore" where
  "NewRepoScanReadStub J now cfg =
     \<lparr> rs_ListWalletScans = stub_ListWalletScans J cfg,
       rs_GetWalletScan = (\<lambda>userID _ scanID. run_db (FindOwnedWalletScanByID userID scanID)),
       rs_DeleteWalletScan = (\<lambda>userID _ scanID. run_db (DeleteOwnedWalletScan now userID scanID)),
       rs_ListTLSScans = (\<lambda>_ _ _ _ w. (Inr ([], 0), w)),
       rs_ListTLSDefaultScans = (\<lambda>_ _ w. (Inr [], w)),
       rs_GetTLSScan = (\<lambda>_ _ _ w. (Inr None, w)),
       rs_DeleteTLSScan = (\<lambda>_ _ _ w. (Inr False, w)) \<rparr>"

end
