(* ===== verification/Scan_Handlers.thy ===== *)
theory Scan_Handlers
  imports Scan_Read
begin

text \<open>
  The read and delete endpoints of \<open>src/internal/handler/discovery_v1_scans.go\<close>,
  \<open>discovery_v1_cbom.go\<close>, \<open>tls.go\<close> and \<open>scan_read_errors.go\<close>.  A handler works on
  any state \<open>'w\<close> that its stores work on.
\<close>

section \<open>Handlers\<close>

record 'w TLSHandler =
  th_scanRead :: "'w ScanReadStore option"
  th_scanPending :: "'w pending_ops option"
  th_policyRef :: "PolicyChecker option"

definition NewTLSHandler ::
  "'w ScanReadStore option \<Rightarrow> 'w pending_ops option \<Rightarrow> PolicyChecker option \<Rightarrow> 'w TLSHandler" where
  "NewTLSHandler scanRead scanPending policyRef =
     \<lparr> th_scanRead = scanRead, th_scanPending = scanPending, th_policyRef = policyRef \<rparr>"

text \<open>The fields of \<open>DiscoveryHandler\<close> that its read endpoints use: the same three and the chains.\<close>

record 'w DiscoveryReads = "'w TLSHandler" +
  dr_cfgChain :: "ChainConfig option"

record doc_env =
  de_uuid :: uuid_pkg
  de_time :: time_pkg
  de_json :: json_pkg
  de_now :: go_time

type_synonym 'w endpoint = "ctx \<Rightarrow> 'w \<Rightarrow> (goerr option \<times> ctx) \<times> 'w"

definition v1_error :: "int \<Rightarrow> string \<Rightarrow> string \<Rightarrow> ctx \<Rightarrow> goerr option \<times> ctx" where
  "v1_error status code message c =
     status_json status (v1ErrorBody [(''error'', GStr code), (''message'', GStr message)]) c"

definition respondScanReadUnavailable :: "ctx \<Rightarrow> string \<Rightarrow> goerr option \<times> ctx" where
  "respondScanReadUnavailable c message = v1_error 503 ''service_unavailable'' message c"

definition respondScanReadError :: "ctx \<Rightarrow> goerr \<Rightarrow> string \<Rightarrow> goerr option \<times> ctx" where
  "respondScanReadError c err message =
     (if errors_Is err scanread_ErrUnavailable then respondScanReadUnavailable c message
      else v1_error 500 ''internal_error'' (Error err) c)"

definition respondScanPendingError :: "ctx \<Rightarrow> goerr \<Rightarrow> string \<Rightarrow> goerr option \<times> ctx" where
  "respondScanPendingError c err message =
     (if errors_Is err scanpending_ErrUnavailable then respondScanReadUnavailable c message
      else v1_error 500 ''internal_error'' (Error err) c)"

definition respondPolicyReferenceCheckUnavailable :: "ctx \<Rightarrow> goerr option \<times> ctx" where
  "respondPolicyReferenceCheckUnavailable c =
     v1_error 503 ''POLICY_REFERENCE_CHECK_UNAVAILABLE''
       ''The scan cannot be deleted because policy references could not be verified.'' c"

definition scanCBOMNotFound :: "ctx \<Rightarrow> goerr option \<times> ctx" where
  "scanCBOMNotFound c = v1_error 404 ''not_found'' ''scan not found'' c"

definition scan_id_error :: "ctx \<Rightarrow> goerr option \<times> ctx" where
  "scan_id_error c = v1_error 400 ''invalid_request'' ''scan_id must be a UUID'' c"

section \<open>Lists\<close>

definition parseWalletScansLatestQuery :: "string \<Rightarrow> bool result" where
  "parseWalletScansLatestQuery raw =
     (let raw = TrimSpace raw in
      if raw = '''' then Inr False
      else case ParseBool raw of None \<Rightarrow> Inl (ErrNew ''latest must be a boolean'') | Some v \<Rightarrow> Inr v)"

text \<open>
  The checks on the query of the wallet list: the message of the refusal, or the
  chain, the address and \<open>latest\<close>.
\<close>

definition wallet_list_query :: "ctx \<Rightarrow> string + int option \<times> string \<times> bool" where
  "wallet_list_query c =
     (let chainQ = TrimSpace (req_Query c ''chain_id'');
          addrQ = TrimSpace (req_Query c ''address'')
      in case parseWalletScansLatestQuery (req_Query c ''latest'') of
           Inl latestErr \<Rightarrow> Inl (Error latestErr)
         | Inr latest \<Rightarrow>
             if latest \<and> addrQ = '''' then Inl ''latest requires address''
             else if chainQ \<noteq> '''' \<and> addrQ = '''' then Inl ''chain_id requires address''
             else
               (let chain = (if chainQ \<noteq> ''''
                             then case ParseInt chainQ of
                                    Some v \<Rightarrow> if v \<le> 0 then Inl ''chain_id must be a positive integer''
                                              else Inr (Some v)
                                  | None \<Rightarrow> Inl ''chain_id must be a positive integer''
                             else Inr None)
                in case chain of
                     Inl msg \<Rightarrow> Inl msg
                   | Inr chainID \<Rightarrow>
                       if addrQ \<noteq> ''''
                       then case ValidateAndNormalizeAddress addrQ of
                              Inl verr \<Rightarrow> Inl (Error verr)
                            | Inr n \<Rightarrow> Inr (chainID, n, latest)
                       else Inr (chainID, '''', latest)))"

definition list_query_values :: "int option \<Rightarrow> string \<Rightarrow> bool \<Rightarrow> int \<Rightarrow> int \<Rightarrow> url_values" where
  "list_query_values chainID normalizedAddr latest limit offset =
     (if normalizedAddr \<noteq> '''' then [(''address'', normalizedAddr)] else [])
     @ (case chainID of Some i \<Rightarrow> [(''chain_id'', FormatInt i)] | None \<Rightarrow> [])
     @ (if latest then [(''latest'', ''true'')] else [])
     @ [(''limit'', FormatInt limit), (''offset'', FormatInt offset)]"

definition ListDiscoveryV1WalletScans :: "doc_env \<Rightarrow> 'w DiscoveryReads \<Rightarrow> 'w endpoint" where
  "ListDiscoveryV1WalletScans D h c0 w =
     (case getAuthenticatedUserID c0 of
        (_, Some err, c) \<Rightarrow> ((Some err, c), w)
      | (userID, None, c) \<Rightarrow>
          (case wallet_list_query c of
             Inl msg \<Rightarrow> (v1_error 400 ''invalid_request'' msg c, w)
           | Inr (chainID, normalizedAddr, latest) \<Rightarrow>
               (case th_scanRead h of
                  None \<Rightarrow> (respondScanReadUnavailable c ''wallet scan history is temporarily unavailable'', w)
                | Some R \<Rightarrow>
                    (case parsePaginationParams c of (limit, offset) \<Rightarrow>
                    (case rs_ListWalletScans R userID (tenantIDFromDiscoveryV1Request c)
                            (list_query_values chainID normalizedAddr latest limit offset) w of
                       (Inl qerr, w') \<Rightarrow>
                         (respondScanReadError c qerr ''wallet scan history is temporarily unavailable'', w')
                     | (Inr (entities, totalCount, respLimit, respOffset), w') \<Rightarrow>
                         (ctx_JSON (GMap
                            [(''items'', GList (map (\<lambda>e. GMap (walletScanListItemV1 (de_uuid D) (de_time D)
                                                         (de_json D) e (dr_cfgChain h))) entities)),
                             (''total'', GInt totalCount), (''limit'', GInt respLimit),
                             (''offset'', GInt respOffset)]) c, w'))))))"

definition discoveryV1TLSForbiddenQueryKeys :: "ctx \<Rightarrow> bool" where
  "discoveryV1TLSForbiddenQueryKeys c =
     list_ex (\<lambda>k. let kl = ToLower (TrimSpace k) in kl = ''address'' \<or> kl = ''chain_id'') (req_QueryKeys c)"

definition ListDiscoveryV1TLSDefaultScans :: "doc_env \<Rightarrow> 'w TLSHandler \<Rightarrow> 'w endpoint" where
  "ListDiscoveryV1TLSDefaultScans D h c0 w =
     (case requireAuthenticatedUserID c0 of
        (_, Some err, c) \<Rightarrow> ((Some err, c), w)
      | (userID, None, c) \<Rightarrow>
          (case th_scanRead h of
             None \<Rightarrow> (respondScanReadUnavailable c ''TLS default scan catalog is temporarily unavailable'', w)
           | Some R \<Rightarrow>
               (case rs_ListTLSDefaultScans R userID (tenantIDFromDiscoveryV1Request c) w of
                  (Inl err, w') \<Rightarrow>
                    (respondScanReadError c err ''TLS default scan catalog is temporarily unavailable'', w')
                | (Inr entities, w') \<Rightarrow>
                    (let items = map (\<lambda>e. GMap (tlsScanListItemV1 (de_uuid D) (de_time D) e
                                                  @ [(''is_default'', GBool True)]))
                                   (List.map_filter (\<lambda>e. e) entities)
                     in (ctx_JSON (GMap [(''items'', GList items), (''total'', GInt (int (length items))),
                           (''limit'', GInt (int (length items))), (''offset'', GInt 0)]) c, w')))))"

definition ListDiscoveryV1TLSScans :: "doc_env \<Rightarrow> 'w TLSHandler \<Rightarrow> 'w endpoint" where
  "ListDiscoveryV1TLSScans D h c0 w =
     (case requireAuthenticatedUserID c0 of
        (_, Some err, c) \<Rightarrow> ((Some err, c), w)
      | (userID, None, c) \<Rightarrow>
          if discoveryV1TLSForbiddenQueryKeys c
          then (v1_error 400 ''invalid_request'' ''address and chain_id are not applicable to TLS scan list'' c, w)
          else case th_scanRead h of
             None \<Rightarrow> (respondScanReadUnavailable c ''TLS scan history is temporarily unavailable'', w)
           | Some R \<Rightarrow>
               (case parsePaginationParams c of (limit, offset) \<Rightarrow>
               (case rs_ListTLSScans R userID (tenantIDFromDiscoveryV1Request c) limit offset w of
                  (Inl qerr, w') \<Rightarrow>
                    (respondScanReadError c qerr ''TLS scan history is temporarily unavailable'', w')
                | (Inr (entities, totalCount), w') \<Rightarrow>
                    (ctx_JSON (GMap
                       [(''items'', GList (map (\<lambda>e. GMap (tlsScanListItemV1 (de_uuid D) (de_time D) e)) entities)),
                        (''total'', GInt totalCount), (''limit'', GInt limit), (''offset'', GInt offset)]) c, w'))))"

section \<open>Details\<close>

text \<open>The tail of the detail endpoints: a scan without a row may be pending.\<close>

definition pending_detail ::
  "doc_env \<Rightarrow> 'w pending_ops option \<Rightarrow> uuid \<Rightarrow> uuid \<Rightarrow> string \<Rightarrow> 'w endpoint" where
  "pending_detail D P userID scanID family c w =
     (case P of
        None \<Rightarrow> (v1_error 404 ''not_found'' ''scan not found'' c, w)
      | Some P \<Rightarrow>
          (case pd_Get P userID (tenantIDFromDiscoveryV1Request c) scanID w of
             (Inl perr, w') \<Rightarrow> (respondScanPendingError c perr ''scan detail is temporarily unavailable'', w')
           | (Inr (Some rec), w') \<Rightarrow>
               if pr_UserID rec = userID \<and> pr_Family rec = family
               then (ctx_JSON (GMap [(''scan_id'', GStr (uuid_String (de_uuid D) (pr_ScanID rec))),
                                     (''status'', GStr ''requested'')]) c, w')
               else (v1_error 404 ''not_found'' ''scan not found'' c, w')
           | (Inr None, w') \<Rightarrow> (v1_error 404 ''not_found'' ''scan not found'' c, w')))"

definition GetDiscoveryV1WalletScan :: "doc_env \<Rightarrow> 'w DiscoveryReads \<Rightarrow> 'w endpoint" where
  "GetDiscoveryV1WalletScan D h c0 w =
     (case getAuthenticatedUserID c0 of
        (_, Some err, c) \<Rightarrow> ((Some err, c), w)
      | (userID, None, c) \<Rightarrow>
          (case uuid_Parse (de_uuid D) (TrimSpace (req_Params c ''scan_id'')) of
             Inl _ \<Rightarrow> (scan_id_error c, w)
           | Inr scanID \<Rightarrow>
               (case th_scanRead h of
                  None \<Rightarrow> pending_detail D (th_scanPending h) userID scanID ''wallet'' c w
                | Some R \<Rightarrow>
                    (case rs_GetWalletScan R userID (tenantIDFromDiscoveryV1Request c) scanID w of
                       (Inl qerr, w') \<Rightarrow> (respondScanReadError c qerr ''scan detail is temporarily unavailable'', w')
                     | (Inr (Some ent), w') \<Rightarrow>
                         (ctx_JSON (GMap (walletScanDetailV1 (de_uuid D) (de_time D) (de_json D) ent
                                            (dr_cfgChain h))) c, w')
                     | (Inr None, w') \<Rightarrow> pending_detail D (th_scanPending h) userID scanID ''wallet'' c w'))))"

definition GetDiscoveryV1TLSScan :: "doc_env \<Rightarrow> 'w TLSHandler \<Rightarrow> 'w endpoint" where
  "GetDiscoveryV1TLSScan D h c0 w =
     (case requireAuthenticatedUserID c0 of
        (_, Some err, c) \<Rightarrow> ((Some err, c), w)
      | (userID, None, c) \<Rightarrow>
          (case uuid_Parse (de_uuid D) (TrimSpace (req_Params c ''scan_id'')) of
             Inl _ \<Rightarrow> (scan_id_error c, w)
           | Inr scanID \<Rightarrow>
               (case th_scanRead h of
                  None \<Rightarrow> pending_detail D (th_scanPending h) userID scanID ''tls'' c w
                | Some R \<Rightarrow>
                    (case rs_GetTLSScan R userID (tenantIDFromDiscoveryV1Request c) scanID w of
                       (Inl qerr, w') \<Rightarrow> (respondScanReadError c qerr ''scan detail is temporarily unavailable'', w')
                     | (Inr (Some ent), w') \<Rightarrow>
                         (ctx_JSON (GMap (tlsScanDetailV1 (de_uuid D) (de_time D) (de_json D) ent)) c, w')
                     | (Inr None, w') \<Rightarrow> pending_detail D (th_scanPending h) userID scanID ''tls'' c w'))))"

section \<open>Bills of materials\<close>

text \<open>The tail of the CBOM endpoints: pending or absent, the answer is the same.\<close>

definition pending_cbom :: "'w pending_ops option \<Rightarrow> uuid \<Rightarrow> uuid \<Rightarrow> string \<Rightarrow> 'w endpoint" where
  "pending_cbom P userID scanID family c w =
     (case P of
        None \<Rightarrow> (scanCBOMNotFound c, w)
      | Some P \<Rightarrow>
          (case pd_Get P userID (tenantIDFromDiscoveryV1Request c) scanID w of
             (Inl perr, w') \<Rightarrow> (respondScanPendingError c perr ''scan CBOM is temporarily unavailable'', w')
           | (Inr _, w') \<Rightarrow> (scanCBOMNotFound c, w')))"

definition walletCBOMFromEntity :: "doc_env \<Rightarrow> ScanResultEntity \<Rightarrow> gmap option" where
  "walletCBOMFromEntity D ent =
     (let sr = ToScanResult (de_json D) ent;
          normalizedAddr = (case ValidateAndNormalizeAddress (res_Address sr) of
                              Inr normalized \<Rightarrow> normalized | Inl _ \<Rightarrow> res_Address sr)
      in cbom_Wallet (de_time D) (de_now D) (Some sr) normalizedAddr)"

definition json_map :: "gmap option \<Rightarrow> gval" where
  "json_map m = (case m of None \<Rightarrow> GNil | Some m \<Rightarrow> GMap m)"

definition GetDiscoveryV1WalletScanCBOM :: "doc_env \<Rightarrow> 'w DiscoveryReads \<Rightarrow> 'w endpoint" where
  "GetDiscoveryV1WalletScanCBOM D h c0 w =
     (case getAuthenticatedUserID c0 of
        (_, Some err, c) \<Rightarrow> ((Some err, c), w)
      | (userID, None, c) \<Rightarrow>
          (case uuid_Parse (de_uuid D) (TrimSpace (req_Params c ''scan_id'')) of
             Inl _ \<Rightarrow> (scan_id_error c, w)
           | Inr scanID \<Rightarrow>
               (case th_scanRead h of
                  None \<Rightarrow> pending_cbom (th_scanPending h) userID scanID ''wallet'' c w
                | Some R \<Rightarrow>
                    (case rs_GetWalletScan R userID (tenantIDFromDiscoveryV1Request c) scanID w of
                       (Inl qerr, w') \<Rightarrow> (respondScanReadError c qerr ''scan CBOM is temporarily unavailable'', w')
                     | (Inr (Some ent), w') \<Rightarrow>
                         if \<not> IsSuccess (sr_Status ent) then (scanCBOMNotFound c, w')
                         else (ctx_JSON (json_map (walletCBOMFromEntity D ent)) c, w')
                     | (Inr None, w') \<Rightarrow> pending_cbom (th_scanPending h) userID scanID ''wallet'' c w'))))"

definition GetDiscoveryV1TLSScanCBOM :: "doc_env \<Rightarrow> 'w TLSHandler \<Rightarrow> 'w endpoint" where
  "GetDiscoveryV1TLSScanCBOM D h c0 w =
     (case requireAuthenticatedUserID c0 of
        (_, Some err, c) \<Rightarrow> ((Some err, c), w)
      | (userID, None, c) \<Rightarrow>
          (case uuid_Parse (de_uuid D) (TrimSpace (req_Params c ''scan_id'')) of
             Inl _ \<Rightarrow> (scan_id_error c, w)
           | Inr scanID \<Rightarrow>
               (case th_scanRead h of
                  None \<Rightarrow> pending_cbom (th_scanPending h) userID scanID ''tls'' c w
                | Some R \<Rightarrow>
                    (case rs_GetTLSScan R userID (tenantIDFromDiscoveryV1Request c) scanID w of
                       (Inl qerr, w') \<Rightarrow> (respondScanReadError c qerr ''scan CBOM is temporarily unavailable'', w')
                     | (Inr (Some ent), w') \<Rightarrow>
                         if \<not> IsSuccess (ts_Status ent) then (scanCBOMNotFound c, w')
                         else (ctx_JSON (json_map (cbom_TLS (de_time D) (de_now D)
                                 (Some (ToTLSScanResult (de_json D) ent)))) c, w')
                     | (Inr None, w') \<Rightarrow> pending_cbom (th_scanPending h) userID scanID ''tls'' c w'))))"

section \<open>Deletes\<close>

definition clearPendingV1ScanCorrelation_wallet ::
  "'w DiscoveryReads \<Rightarrow> ctx \<Rightarrow> uuid \<Rightarrow> uuid \<Rightarrow> string \<Rightarrow> ('w, unit) op" where
  "clearPendingV1ScanCorrelation_wallet h c userID scanID walletAddress w =
     (case th_scanPending h of
        None \<Rightarrow> (Inr (), w)
      | Some P \<Rightarrow>
          (let tenantID = tenantIDFromDiscoveryV1Request c in
           case pd_Delete P userID tenantID scanID w of
             (Inl err, w') \<Rightarrow> (Inl err, w')
           | (Inr _, w') \<Rightarrow>
               (let addr = TrimSpace walletAddress in
                if addr \<noteq> '''' then (Inr (), snd (pd_DeleteWalletReservation P userID tenantID addr scanID w'))
                else (Inr (), w'))))"

definition clearPendingV1ScanCorrelation_tls ::
  "'w TLSHandler \<Rightarrow> ctx \<Rightarrow> uuid \<Rightarrow> uuid \<Rightarrow> ('w, unit) op" where
  "clearPendingV1ScanCorrelation_tls h c userID scanID w =
     (case th_scanPending h of
        None \<Rightarrow> (Inr (), w)
      | Some P \<Rightarrow> pd_Delete P userID (tenantIDFromDiscoveryV1Request c) scanID w)"

text \<open>
  The pending record that the delete endpoints look up when there is no row:
  \<open>Inl ()\<close> stands for the refusal.
\<close>

definition pending_lookup ::
  "'w pending_ops option \<Rightarrow> uuid \<Rightarrow> string \<Rightarrow> uuid \<Rightarrow> string \<Rightarrow> 'w \<Rightarrow> (unit + PendingRecord option) \<times> 'w" where
  "pending_lookup P userID tenantID scanID family w =
     (case P of
        None \<Rightarrow> (Inr None, w)
      | Some P \<Rightarrow>
          (case pd_Get P userID tenantID scanID w of
             (Inl perr, w') \<Rightarrow> (Inl (), w')
           | (Inr (Some rec), w') \<Rightarrow>
               (if pr_UserID rec = userID \<and> pr_Family rec = family then (Inr (Some rec), w') else (Inr None, w'))
           | (Inr None, w') \<Rightarrow> (Inr None, w')))"

text \<open>The check on policies: \<open>Some\<close> is the refusal.\<close>

definition policy_check :: "PolicyChecker option \<Rightarrow> uuid \<Rightarrow> string \<Rightarrow> uuid \<Rightarrow> ctx \<Rightarrow> (goerr option \<times> ctx) option" where
  "policy_check policyRef userID tenantID scanID c =
     (case policyRef of
        None \<Rightarrow> Some (respondPolicyReferenceCheckUnavailable c)
      | Some checker \<Rightarrow>
          (case pc_PersistedPoliciesReferenceScan checker userID tenantID scanID of
             Inl _ \<Rightarrow> Some (respondPolicyReferenceCheckUnavailable c)
           | Inr ref \<Rightarrow>
               if ref then Some (v1_error 409 ''SCAN_REFERENCED_BY_POLICY''
                     ''This scan is referenced by one or more persisted crypto policies.'' c)
               else None))"

text \<open>The end of a delete of a scan that has only a pending record.\<close>

definition delete_pending :: "'w pending_ops option \<Rightarrow> uuid \<Rightarrow> string \<Rightarrow> uuid \<Rightarrow> 'w endpoint" where
  "delete_pending P userID tenantID scanID c w =
     (case P of
        None \<Rightarrow> (respondPolicyReferenceCheckUnavailable c, w)
      | Some P \<Rightarrow>
          (case pd_Delete P userID tenantID scanID w of
             (Inl _, w') \<Rightarrow> (respondPolicyReferenceCheckUnavailable c, w')
           | (Inr _, w') \<Rightarrow> (ctx_SendStatus 204 c, w')))"

definition delete_wallet_row ::
  "'w ScanReadStore \<Rightarrow> 'w DiscoveryReads \<Rightarrow> uuid \<Rightarrow> uuid \<Rightarrow> ScanResultEntity \<Rightarrow> 'w endpoint" where
  "delete_wallet_row R h userID scanID ent c w =
     (case rs_DeleteWalletScan R userID (tenantIDFromDiscoveryV1Request c) scanID w of
        (Inl derr, w') \<Rightarrow> (respondScanReadError c derr ''wallet scan delete is temporarily unavailable'', w')
      | (Inr deleted, w') \<Rightarrow>
          if \<not> deleted then (v1_error 404 ''not_found'' ''scan not found'' c, w')
          else case clearPendingV1ScanCorrelation_wallet h c userID scanID (sr_Address ent) w' of
                 (Inl _, w'') \<Rightarrow> (respondPolicyReferenceCheckUnavailable c, w'')
               | (Inr _, w'') \<Rightarrow> (ctx_SendStatus 204 c, w''))"

definition delete_tls_row ::
  "'w ScanReadStore \<Rightarrow> 'w TLSHandler \<Rightarrow> uuid \<Rightarrow> uuid \<Rightarrow> 'w endpoint" where
  "delete_tls_row R h userID scanID c w =
     (case rs_DeleteTLSScan R userID (tenantIDFromDiscoveryV1Request c) scanID w of
        (Inl derr, w') \<Rightarrow> (respondScanReadError c derr ''TLS scan delete is temporarily unavailable'', w')
      | (Inr deleted, w') \<Rightarrow>
          if \<not> deleted then (v1_error 404 ''not_found'' ''scan not found'' c, w')
          else case clearPendingV1ScanCorrelation_tls h c userID scanID w' of
                 (Inl _, w'') \<Rightarrow> (respondPolicyReferenceCheckUnavailable c, w'')
               | (Inr _, w'') \<Rightarrow> (ctx_SendStatus 204 c, w''))"

definition DeleteDiscoveryV1WalletScan :: "doc_env \<Rightarrow> 'w DiscoveryReads \<Rightarrow> 'w endpoint" where
  "DeleteDiscoveryV1WalletScan D h c0 w =
     (case getAuthenticatedUserID c0 of
        (_, Some err, c) \<Rightarrow> ((Some err, c), w)
      | (userID, None, c) \<Rightarrow>
          (case uuid_Parse (de_uuid D) (TrimSpace (req_Params c ''scan_id'')) of
             Inl _ \<Rightarrow> (scan_id_error c, w)
           | Inr scanID \<Rightarrow>
               (let tenantID = tenantIDFromDiscoveryV1Request c in
               case th_scanRead h of
                  None \<Rightarrow> (respondScanReadUnavailable c ''wallet scan delete is temporarily unavailable'', w)
                | Some R \<Rightarrow>
                    (case rs_GetWalletScan R userID tenantID scanID w of
                       (Inl qerr, w') \<Rightarrow>
                         (respondScanReadError c qerr ''wallet scan delete is temporarily unavailable'', w')
                     | (Inr (Some walletEnt), w') \<Rightarrow>
                         (case policy_check (th_policyRef h) userID tenantID scanID c of
                            Some refusal \<Rightarrow> (refusal, w')
                          | None \<Rightarrow> delete_wallet_row R h userID scanID walletEnt c w')
                     | (Inr None, w') \<Rightarrow>
                         (case pending_lookup (th_scanPending h) userID tenantID scanID ''wallet'' w' of
                            (Inl _, w'') \<Rightarrow> (respondPolicyReferenceCheckUnavailable c, w'')
                          | (Inr None, w'') \<Rightarrow> (v1_error 404 ''not_found'' ''scan not found'' c, w'')
                          | (Inr (Some pendingRec), w'') \<Rightarrow>
                              (case policy_check (th_policyRef h) userID tenantID scanID c of
                                 Some refusal \<Rightarrow> (refusal, w'')
                               | None \<Rightarrow> delete_pending (th_scanPending h) userID tenantID scanID c w''))))))"

definition DeleteDiscoveryV1TLSScan :: "doc_env \<Rightarrow> 'w TLSHandler \<Rightarrow> 'w endpoint" where
  "DeleteDiscoveryV1TLSScan D h c0 w =
     (case requireAuthenticatedUserID c0 of
        (_, Some err, c) \<Rightarrow> ((Some err, c), w)
      | (userID, None, c) \<Rightarrow>
          (case uuid_Parse (de_uuid D) (TrimSpace (req_Params c ''scan_id'')) of
             Inl _ \<Rightarrow> (scan_id_error c, w)
           | Inr scanID \<Rightarrow>
               (let tenantID = tenantIDFromDiscoveryV1Request c in
               case th_scanRead h of
                  None \<Rightarrow> (respondScanReadUnavailable c ''TLS scan delete is temporarily unavailable'', w)
                | Some R \<Rightarrow>
                    (case rs_GetTLSScan R userID tenantID scanID w of
                       (Inl qerr, w') \<Rightarrow>
                         (respondScanReadError c qerr ''TLS scan delete is temporarily unavailable'', w')
                     | (Inr ent, w') \<Rightarrow>
                         if (case ent of Some e \<Rightarrow> \<not> ts_Default e | None \<Rightarrow> False)
                         then (case policy_check (th_policyRef h) userID tenantID scanID c of
                                 Some refusal \<Rightarrow> (refusal, w')
                               | None \<Rightarrow> delete_tls_row R h userID scanID c w')
                         else
                         (case pending_lookup (th_scanPending h) userID tenantID scanID ''tls'' w' of
                            (Inl _, w'') \<Rightarrow> (respondPolicyReferenceCheckUnavailable c, w'')
                          | (Inr None, w'') \<Rightarrow> (v1_error 404 ''not_found'' ''scan not found'' c, w'')
                          | (Inr (Some pendingRec), w'') \<Rightarrow>
                              (case policy_check (th_policyRef h) userID tenantID scanID c of
                                 Some refusal \<Rightarrow> (refusal, w'')
                               | None \<Rightarrow> delete_pending (th_scanPending h) userID tenantID scanID c w''))))))"

section \<open>The statuses of the answers\<close>

lemma answer_status [simp]:
  "resp_status (snd (v1_error s k m c)) = s"
  "resp_status (snd (respondScanReadUnavailable c m)) = 503"
  "resp_status (snd (respondPolicyReferenceCheckUnavailable c)) = 503"
  "resp_status (snd (scanCBOMNotFound c)) = 404"
  "resp_status (snd (scan_id_error c)) = 400"
  "resp_status (snd (ctx_SendStatus s c)) = s"
  by (simp_all add: v1_error_def respondScanReadUnavailable_def respondPolicyReferenceCheckUnavailable_def
      scanCBOMNotFound_def scan_id_error_def ctx_SendStatus_def)

lemma read_error_status:
  "resp_status (snd (respondScanReadError c e m)) \<noteq> 204" "resp_status (snd (respondScanPendingError c e m)) \<noteq> 204"
  by (simp_all add: respondScanReadError_def respondScanPendingError_def)

lemma policy_refusal_status: "policy_check p u t s c = Some r \<Longrightarrow> resp_status (snd r) \<noteq> 204"
  by (auto simp: policy_check_def split: option.splits sum.splits if_splits)

section \<open>What the delete endpoint relies on\<close>

text \<open>
  A store of wallet scans beside a pending store: \<open>view\<close> is what a request must
  leave alone when it is refused, \<open>ok\<close> says that the store is available, and
  \<open>gone u s\<close> that user \<open>u\<close> has no live scan \<open>s\<close>.
\<close>

locale wallet_scan_store =
  fixes R :: "'w ScanReadStore" and P :: "'w pending_ops"
    and view :: "'w \<Rightarrow> 'v" and ok :: "'w \<Rightarrow> bool" and gone :: "uuid \<Rightarrow> uuid \<Rightarrow> 'w \<Rightarrow> bool"
  assumes get_keeps: "rs_GetWalletScan R u t s w = (r, w') \<Longrightarrow> view w' = view w \<and> (ok w \<longrightarrow> ok w')"
    and get_owned: "rs_GetWalletScan R u t s w = (Inr (Some e), w') \<Longrightarrow> sr_ID e = s \<and> sr_UserID e = u"
    and get_none: "rs_GetWalletScan R u t s w = (Inr None, w') \<Longrightarrow> ok w \<Longrightarrow> gone u s w'"
    and gone_get: "rs_GetWalletScan R u t s w = (Inr x, w') \<Longrightarrow> gone u s w \<Longrightarrow> x = None"
    and pending_keeps: "pd_Get P u t s w = (p, w') \<Longrightarrow> view w' = view w \<and> (gone u s w \<longrightarrow> gone u s w')"
    and pending_delete: "pd_Delete P u t s w = (d, w') \<Longrightarrow> gone u s w \<Longrightarrow> gone u s w'"
    and reservation_delete: "pd_DeleteWalletReservation P u t a s w = (d, w') \<Longrightarrow> gone u s w \<Longrightarrow> gone u s w'"
    and delete_refused: "rs_DeleteWalletScan R u t s w = (b, w') \<Longrightarrow> b \<noteq> Inr True \<Longrightarrow> view w' = view w"
    and deleted_gone: "rs_DeleteWalletScan R u t s w = (Inr True, w') \<Longrightarrow> gone u s w'"
begin

lemma lookup_keeps:
  assumes "pending_lookup (Some P) u t s f w = (r, w')"
  shows "view w' = view w \<and> (gone u s w \<longrightarrow> gone u s w')"
  using assms pending_keeps
  by (auto simp: pending_lookup_def split: prod.splits sum.splits option.splits if_splits)

lemma clear_keeps:
  assumes "clearPendingV1ScanCorrelation_wallet h c u s a w = (r, w')" and "th_scanPending h = Some P" and "gone u s w"
  shows "gone u s w'"
proof -
  obtain d w1 where d: "pd_Delete P u (tenantIDFromDiscoveryV1Request c) s w = (d, w1)" by fastforce
  note g = pending_delete [OF d assms(3)]
  obtain x w2 where x: "pd_DeleteWalletReservation P u (tenantIDFromDiscoveryV1Request c) (TrimSpace a) s w1 = (x, w2)"
    by fastforce
  show ?thesis
    using assms(1,2) d g x reservation_delete [OF x g]
    by (auto simp: clearPendingV1ScanCorrelation_wallet_def Let_def split: sum.splits if_splits)
qed

lemma delete_row_done:
  assumes "delete_wallet_row R h u s e c w = (a, w')" and "th_scanPending h = Some P"
  shows "resp_status (snd a) = 204 \<Longrightarrow> gone u s w'"
proof -
  assume 204: "resp_status (snd a) = 204"
  obtain b w1 where b: "rs_DeleteWalletScan R u (tenantIDFromDiscoveryV1Request c) s w = (b, w1)" by fastforce
  obtain x w2 where x: "clearPendingV1ScanCorrelation_wallet h c u s (sr_Address e) w1 = (x, w2)" by fastforce
  have "b = Inr True \<and> w' = w2"
    using 204 assms b x read_error_status
    by (auto simp: delete_wallet_row_def split: sum.splits if_splits)
  then show "gone u s w'" using deleted_gone b clear_keeps [OF x assms(2)] by blast
qed

lemma delete_pending_done:
  assumes "delete_pending (Some P) u t s c w = (a, w')" and "gone u s w"
  shows "gone u s w'"
  using assms pending_delete
  by (auto simp: delete_pending_def split: prod.splits sum.splits)

lemma delete_cases:
  assumes h: "th_scanRead h = Some R" "th_scanPending h = Some P"
    and c: "getAuthenticatedUserID c0 = (u, None, c)" "uuid_Parse (de_uuid D) (TrimSpace (req_Params c ''scan_id'')) = Inr s"
    and d: "DeleteDiscoveryV1WalletScan D h c0 w = (a, w')"
  shows "(policy_check (th_policyRef h) u (tenantIDFromDiscoveryV1Request c) s c \<noteq> None \<longrightarrow> view w' = view w)
    \<and> (resp_status (snd a) = 204 \<longrightarrow>
        policy_check (th_policyRef h) u (tenantIDFromDiscoveryV1Request c) s c = None \<and> (ok w \<longrightarrow> gone u s w'))"
proof -
  let ?t = "tenantIDFromDiscoveryV1Request c"
  let ?p = "policy_check (th_policyRef h) u ?t s c"
  obtain r w1 where r: "rs_GetWalletScan R u ?t s w = (r, w1)" by fastforce
  note k = get_keeps [OF r]
  note eq = d [unfolded DeleteDiscoveryV1WalletScan_def, simplified c h Let_def r prod.case option.case sum.case]
  consider (err) e where "r = Inl e" | (row) e where "r = Inr (Some e)" | (none) "r = Inr None"
    by (metis old.sum.exhaust option.exhaust)
  then show ?thesis
  proof cases
    case err
    then show ?thesis using eq k read_error_status by (auto simp: h c)
  next
    case row
    show ?thesis
    proof (cases ?p)
      case None
      then show ?thesis using eq row delete_row_done [OF _ h(2)] by (auto simp: h c)
    next
      case (Some x)
      then show ?thesis using eq row k policy_refusal_status [OF Some] by (auto simp: h c)
    qed
  next
    case none
    obtain q w2 where q: "pending_lookup (Some P) u ?t s ''wallet'' w1 = (q, w2)" by fastforce
    note l = lookup_keeps [OF q]
    show ?thesis
    proof (cases "\<exists>rec. q = Inr (Some rec) \<and> ?p = None")
      case True
      then have "delete_pending (Some P) u ?t s c w2 = (a, w')" using eq none q by (auto simp: h c)
      then show ?thesis
        using delete_pending_done get_none [OF r [unfolded none]] l True by auto
    next
      case False
      then have "w' = w2 \<and> resp_status (snd a) \<noteq> 204"
        using eq none q policy_refusal_status [of "th_policyRef h" u ?t s c]
        by (auto simp: h c split: sum.splits option.splits)
      then show ?thesis using k l by simp
    qed
  qed
qed

lemma get_after_delete:
  assumes h: "th_scanRead h = Some R" "th_scanPending h = Some P"
    and c: "getAuthenticatedUserID c0 = (u, None, c)" "uuid_Parse (de_uuid D) (TrimSpace (req_Params c ''scan_id'')) = Inr s"
    and g: "gone u s w" and d: "GetDiscoveryV1WalletScan D h c0 w = (a, w')"
    and p: "\<And>w. fst (pd_Get P u (tenantIDFromDiscoveryV1Request c) s w) = Inr None"
  shows "resp_status (snd a) \<in> {404, 500, 503}"
proof -
  obtain r w1 where r: "rs_GetWalletScan R u (tenantIDFromDiscoveryV1Request c) s w = (r, w1)" by fastforce
  obtain w2 where p1: "pd_Get P u (tenantIDFromDiscoveryV1Request c) s w1 = (Inr None, w2)"
    using p [of w1] by (metis prod.collapse)
  show ?thesis
  proof (cases r)
    case (Inl e)
    then show ?thesis using d c h r
      by (auto simp: GetDiscoveryV1WalletScan_def respondScanReadError_def split: if_splits)
  next
    case (Inr x)
    then have "x = None" using gone_get [OF r [unfolded Inr] g] by simp
    then show ?thesis using d c h r Inr p1 by (auto simp: GetDiscoveryV1WalletScan_def pending_detail_def)
  qed
qed

end

section \<open>The store over the repositories provides it\<close>

definition wallet_scan_gone :: "uuid \<Rightarrow> uuid \<Rightarrow> world \<Rightarrow> bool" where
  "wallet_scan_gone u s w \<longleftrightarrow> \<not> (\<exists>x\<in>set (scan_results (w_db w)). owned_wallet_scan u s x)"

definition request_view :: "world \<Rightarrow> db \<times> outcall list" where
  "request_view w = (tables (w_db w), w_out w)"

lemma gone_tables:
  "tables (w_db w) = tables (w_db w') \<Longrightarrow> wallet_scan_gone u s w = wallet_scan_gone u s w'"
  by (simp add: wallet_scan_gone_def tables_eq_iff)

lemma find_owned_rows:
  "filter (\<lambda>x. sr_ID x = s \<and> sr_UserID x = u) (live scan_entity d) = filter (owned_wallet_scan u s) (scan_results d)"
  by (auto simp: live_def entity_sel owned_wallet_scan_def intro: filter_cong)

lemma find_owned_Some:
  assumes "FindOwnedWalletScanByID u s d = (Inr (Some e), d')"
  shows "e \<in> set (scan_results d) \<and> owned_wallet_scan u s e"
  using first_or_nil_filter [OF assms [unfolded FindOwnedWalletScanByID_def by_id_def]]
  by (auto simp: live_def entity_sel owned_wallet_scan_def)

lemma find_owned_None:
  assumes "FindOwnedWalletScanByID u s d = (Inr None, d')" and "db_faults d = []"
  shows "filter (owned_wallet_scan u s) (scan_results d) = []"
proof -
  have "first_of (by_id scan_entity (filter (owned_wallet_scan u s) (scan_results d))) = None"
    using assms by (auto simp: FindOwnedWalletScanByID_def find_owned_rows)
  then have "length (filter (owned_wallet_scan u s) (scan_results d)) = 0"
    unfolding first_of_None by_id_def by (metis length_sort list.size(3))
  then show ?thesis by simp
qed

lemma delete_owned_rows:
  assumes "DeleteOwnedWalletScan now u s d = (b, d')"
  shows "b = Inr True \<Longrightarrow> \<not> (\<exists>x\<in>set (scan_results d'). owned_wallet_scan u s x)"
    and "b \<noteq> Inr True \<Longrightarrow> tables d' = tables d"
proof -
  assume b: "b = Inr True"
  obtain d0 where "d' = d0\<lparr>scan_results := map (mark_wallet_scan now u s) (scan_results d0)\<rparr>"
    using sql_exec_Inr [OF assms [unfolded DeleteOwnedWalletScan_def b]] by auto
  then show "\<not> (\<exists>x\<in>set (scan_results d'). owned_wallet_scan u s x)"
    using mark_not_owned by auto
next
  assume nb: "b \<noteq> Inr True"
  show "tables d' = tables d"
  proof (cases b)
    case (Inl e)
    then show ?thesis using assms
      by (auto simp: DeleteOwnedWalletScan_def sql_exec_def split: prod.splits option.splits dest: next_fault_tables)
  next
    case (Inr x)
    with nb have b: "b = Inr False" by simp
    obtain d0 where d0: "tables d0 = tables d"
        "d' = d0\<lparr>scan_results := map (mark_wallet_scan now u s) (scan_results d0)\<rparr>"
        "filter (owned_wallet_scan u s) (scan_results d0) = []"
      using sql_exec_Inr [OF assms [unfolded DeleteOwnedWalletScan_def b]] by auto
    have "map (mark_wallet_scan now u s) (scan_results d0) = scan_results d0"
      using d0(3) by (intro map_idI) (auto simp: mark_wallet_scan_def filter_empty_conv)
    then show ?thesis using d0(1,2) by simp
  qed
qed

lemma stub_get_eq:
  "rs_GetWalletScan (NewRepoScanReadStub J now cfg) u t s w = (r, w') \<longleftrightarrow>
     (\<exists>d. FindOwnedWalletScanByID u s (w_db w) = (r, d) \<and> w' = w\<lparr>w_db := d\<rparr>)"
  "rs_DeleteWalletScan (NewRepoScanReadStub J now cfg) u t s w = (b, w') \<longleftrightarrow>
     (\<exists>d. DeleteOwnedWalletScan now u s (w_db w) = (b, d) \<and> w' = w\<lparr>w_db := d\<rparr>)"
  by (simp_all add: NewRepoScanReadStub_def run_db_eq)

lemma find_owned_keeps:
  assumes "FindOwnedWalletScanByID u s d = (r, d')"
  shows "tables d' = tables d" and "db_faults d = [] \<Longrightarrow> db_faults d' = []"
proof -
  have q: "quiet (FindOwnedWalletScanByID u s)" "stays_calm (FindOwnedWalletScanByID u s)"
    by (simp_all add: FindOwnedWalletScanByID_def quiet_first_or_nil calm_first_or_nil)
  show "tables d' = tables d" by (rule quietD [OF q(1) assms])
  show "db_faults d = [] \<Longrightarrow> db_faults d' = []" using stays_calmD [OF q(2) assms] by blast
qed

interpretation repo_scans: wallet_scan_store
  "NewRepoScanReadStub J now cfg" "recorded_pending S" request_view
  "\<lambda>w. db_faults (w_db w) = []" wallet_scan_gone
  for J now cfg S
proof
  fix u s t w r w' e x p d b a
  show "rs_GetWalletScan (NewRepoScanReadStub J now cfg) u t s w = (r, w') \<Longrightarrow>
      request_view w' = request_view w \<and> (db_faults (w_db w) = [] \<longrightarrow> db_faults (w_db w') = [])"
    using find_owned_keeps by (auto simp: stub_get_eq request_view_def)
  show "rs_GetWalletScan (NewRepoScanReadStub J now cfg) u t s w = (Inr (Some e), w') \<Longrightarrow> sr_ID e = s \<and> sr_UserID e = u"
    using find_owned_Some by (auto simp: stub_get_eq owned_wallet_scan_def)
  show "rs_GetWalletScan (NewRepoScanReadStub J now cfg) u t s w = (Inr None, w') \<Longrightarrow> db_faults (w_db w) = [] \<Longrightarrow>
      wallet_scan_gone u s w'"
  proof -
    assume "rs_GetWalletScan (NewRepoScanReadStub J now cfg) u t s w = (Inr None, w')" and f: "db_faults (w_db w) = []"
    then obtain d where g: "FindOwnedWalletScanByID u s (w_db w) = (Inr None, d)" "w' = w\<lparr>w_db := d\<rparr>"
      by (auto simp: stub_get_eq)
    have "wallet_scan_gone u s w"
      using find_owned_None [OF g(1) f] by (auto simp: wallet_scan_gone_def filter_empty_conv)
    then show "wallet_scan_gone u s w'" using gone_tables [of w w'] find_owned_keeps(1) [OF g(1)] g(2) by simp
  qed
  show "rs_GetWalletScan (NewRepoScanReadStub J now cfg) u t s w = (Inr x, w') \<Longrightarrow> wallet_scan_gone u s w \<Longrightarrow> x = None"
    using find_owned_Some [of u s "w_db w"] by (cases x) (force simp: stub_get_eq wallet_scan_gone_def)+
  show "pd_Get (recorded_pending S) u t s w = (p, w') \<Longrightarrow> request_view w' = request_view w
      \<and> (wallet_scan_gone u s w \<longrightarrow> wallet_scan_gone u s w')"
    by (auto simp: recorded_pending_def)
  show "pd_Delete (recorded_pending S) u t s w = (d, w') \<Longrightarrow> wallet_scan_gone u s w \<Longrightarrow> wallet_scan_gone u s w'"
    by (auto simp: recorded_pending_def wallet_scan_gone_def)
  show "pd_DeleteWalletReservation (recorded_pending S) u t a s w = (d, w') \<Longrightarrow> wallet_scan_gone u s w \<Longrightarrow>
      wallet_scan_gone u s w'"
    by (auto simp: recorded_pending_def wallet_scan_gone_def)
  show "rs_DeleteWalletScan (NewRepoScanReadStub J now cfg) u t s w = (b, w') \<Longrightarrow> b \<noteq> Inr True \<Longrightarrow>
      request_view w' = request_view w"
    using delete_owned_rows(2) by (auto simp: stub_get_eq request_view_def)
  show "rs_DeleteWalletScan (NewRepoScanReadStub J now cfg) u t s w = (Inr True, w') \<Longrightarrow> wallet_scan_gone u s w'"
    using delete_owned_rows(1) by (auto simp: stub_get_eq wallet_scan_gone_def)
qed

section \<open>Properties\<close>

text \<open>The policy service has confirmed that no policy refers to the scan.\<close>

definition unreferenced :: "PolicyChecker option \<Rightarrow> uuid \<Rightarrow> string \<Rightarrow> uuid \<Rightarrow> bool" where
  "unreferenced policyRef u t s = (case policyRef of
     None \<Rightarrow> False | Some checker \<Rightarrow> pc_PersistedPoliciesReferenceScan checker u t s = Inr False)"

lemma policy_check_None: "policy_check p u t s c = None \<longleftrightarrow> unreferenced p u t s"
  by (auto simp: policy_check_def unreferenced_def split: option.splits sum.splits if_splits)


definition ex_reads :: "bool \<Rightarrow> world DiscoveryReads" where
  "ex_reads ref = \<lparr> th_scanRead = Some (NewRepoScanReadStub ex_json 30 None),
     th_scanPending = Some (recorded_pending ex_pending),
     th_policyRef = Some \<lparr> pc_PersistedPoliciesReferenceScan = (\<lambda>_ _ _. Inr ref),
       pc_ActiveWalletCPMContextForTarget = (\<lambda>_ _ _. Inr \<lparr> wt_Exists = False, wt_PolicyCount = 0, wt_DraftCount = 0 \<rparr>) \<rparr>,
     dr_cfgChain = None \<rparr>"

definition ex_docs :: doc_env where
  "ex_docs = \<lparr> de_uuid = ex_uuid, de_time = ex_time_pkg, de_json = ex_json, de_now = 1 \<rparr>"

abbreviation ex_scan_ctx :: ctx where
  "ex_scan_ctx \<equiv> ex_ctx\<lparr>req_Params := (\<lambda>_. ''11'')\<rparr>"

abbreviation ex_scan_world :: world where
  "ex_scan_world \<equiv> \<lparr> w_db = ex_scan_db, w_out = [] \<rparr>"

lemma ex_scan_id: "uuid_Parse (de_uuid ex_docs) (TrimSpace (req_Params ex_scan_ctx ''scan_id'')) = Inr 2"
proof -
  have "TrimSpace ''11'' = ''11''" by (simp add: TrimSpace_plain plain_char_def byte_def)
  then show ?thesis by (simp add: ex_docs_def ex_uuid_def)
qed

lemma ex_delete_status:
  "resp_status (snd (fst (DeleteDiscoveryV1WalletScan ex_docs (ex_reads False) ex_scan_ctx ex_scan_world))) = 204"
proof -
  have g: "getAuthenticatedUserID ex_scan_ctx = (1, None, ex_scan_ctx)"
    by (simp add: getAuthenticatedUserID_def ex_ctx_def)
  have t: "TrimSpace '''' = ''''" by simp
  show ?thesis
    using ex_scan_id
    by (simp add: DeleteDiscoveryV1WalletScan_def g ex_reads_def NewRepoScanReadStub_def run_db_def
        FindOwnedWalletScanByID_def ex_scan_db_def live_def entity_sel ex_scan_def by_id_def policy_check_def
        delete_wallet_row_def DeleteOwnedWalletScan_def owned_wallet_scan_def
        clearPendingV1ScanCorrelation_wallet_def recorded_pending_def ex_pending_def Let_def)
qed



text \<open>A store of one endpoint scan, whose state is the scan.\<close>

definition ex_endpoint :: TLSScanResultEntity where
  "ex_endpoint = \<lparr> ts_ID = 2, ts_UserID = None, ts_URL = ''https://a'', ts_Host = ''a'', ts_Port = 443,
     ts_ProtocolVersion = '''', ts_NISTLevel = 1, ts_RiskScore = 0, ts_PQCRisk = '''', ts_Certificate = '''',
     ts_CipherSuites = '''', ts_SupportedPQCs = '''', ts_Recommendations = '''', ts_KexAlgorithm = '''',
     ts_KexPQCReady = False, ts_PQCMode = '''', ts_PFS = False, ts_ALPN = '''', ts_OCSPStapled = False,
     ts_Curve = '''', ts_NISTLevels = '''', ts_Default = True, ts_Status = StateSUCCESS, ts_Error = '''',
     ts_CreatedAt = 1, ts_UpdatedAt = 1, ts_DeletedAt = None \<rparr>"

definition ex_tls_store :: "TLSScanResultEntity option ScanReadStore" where
  "ex_tls_store = \<lparr> rs_ListWalletScans = (\<lambda>_ _ _ w. (Inr ([], 0, 20, 0), w)),
     rs_GetWalletScan = (\<lambda>_ _ _ w. (Inr None, w)), rs_DeleteWalletScan = (\<lambda>_ _ _ w. (Inr False, w)),
     rs_ListTLSScans = (\<lambda>_ _ _ _ w. (Inr ([], 0), w)), rs_ListTLSDefaultScans = (\<lambda>_ _ w. (Inr [w], w)),
     rs_GetTLSScan = (\<lambda>_ _ _ w. (Inr w, w)), rs_DeleteTLSScan = (\<lambda>_ _ _ w. (Inr (w \<noteq> None), None)) \<rparr>"

definition ex_tls_handler :: "TLSScanResultEntity option TLSHandler" where
  "ex_tls_handler = NewTLSHandler (Some ex_tls_store)
     (Some \<lparr> pd_Get = (\<lambda>_ _ _ w. (Inr None, w)), pd_Delete = (\<lambda>_ _ _ w. (Inr (), w)),
             pd_DeleteWalletReservation = (\<lambda>_ _ _ _ w. (Inr (), w)) \<rparr>) None"


section \<open>The wallet list\<close>

definition live_wallet_scans :: "uuid \<Rightarrow> db \<Rightarrow> ScanResultEntity set" where
  "live_wallet_scans u d = {e \<in> set (scan_results d). sr_UserID e = u \<and> sr_DeletedAt e = None}"

lemma latest_completed_in:
  "latest_completed J cfg q es = Some e \<Longrightarrow> e \<in> set es \<and> walletEntityIsCompleted (Some e)"
  by (induction es) (auto split: if_splits)

lemma paginate_in: "paginateWalletScanEntities xs l k = Some ys \<Longrightarrow> set ys \<subseteq> set xs"
  by (auto simp: paginateWalletScanEntities_def Let_def split: if_splits dest: in_set_takeD in_set_dropD)

lemma list_by_address_rows:
  assumes "ListOwnerWalletScansByAddress u a d = (Inr es, d')"
  shows "tables d' = tables d \<and> set es \<subseteq> live_wallet_scans u d"
  using sql_query_Inr [OF assms [unfolded ListOwnerWalletScansByAddress_def]]
  by (auto simp: live_wallet_scans_def live_def entity_sel)

lemma gorm_page_in: "set (gorm_Limit l (gorm_Offset k xs)) \<subseteq> set xs"
  by (auto simp: gorm_Limit_def gorm_Offset_def dest: in_set_takeD in_set_dropD)

lemma list_discovery_rows:
  assumes "ListOwnerWalletScansDiscoveryV1 u a l k d = (Inr (es, n), d')"
  shows "tables d' = tables d \<and> set es \<subseteq> live_wallet_scans u d"
proof -
  obtain d1 where d1: "tables d1 = tables d" "tables d' = tables d1"
      and es: "es = gorm_Limit l (gorm_Offset k (newest_by_id_desc scan_entity
         (filter (wallet_scan_matches u a) (live scan_entity d1))))"
    using assms by (auto simp: ListOwnerWalletScansDiscoveryV1_def dreturn_def dest!: dbind_Inr sql_query_Inr)
  have "set es \<subseteq> set (filter (wallet_scan_matches u a) (live scan_entity d1))"
    unfolding es using gorm_page_in [of l k "newest_by_id_desc scan_entity (filter (wallet_scan_matches u a) (live scan_entity d1))"] by simp
  then show ?thesis using d1
    by (auto simp: live_wallet_scans_def live_def entity_sel wallet_scan_matches_def tables_eq_iff)
qed

lemma run_db_bind:
  assumes "run_db (dbind m f) w = (Inr y, w')"
  obtains x d0 where "m (w_db w) = (Inr x, d0)" and "f x d0 = (Inr y, w_db w')" and "w_out w' = w_out w"
proof -
  obtain d where d: "dbind m f (w_db w) = (Inr y, d)" "w' = w\<lparr>w_db := d\<rparr>" using assms by (auto simp: run_db_eq)
  then show thesis using that dbind_Inr [OF d(1)] by auto
qed

lemma stub_list_rows:
  assumes "stub_ListWalletScans J cfg u t q w = (Inr (es, n, l, k), w')"
  shows "set es \<subseteq> live_wallet_scans u (w_db w) \<and> request_view w' = request_view w"
proof -
  let ?a = "values_Get q ''address''"
  consider (addr) f where "stub_ListWalletScans J cfg u t q w = run_db (dbind (ListOwnerWalletScansByAddress u ?a) f) w"
      "\<And>all d r d'. f all d = (Inr r, d') \<Longrightarrow> d' = d \<and> set (fst r) \<subseteq> set all"
    | (page) l k where "stub_ListWalletScans J cfg u t q w =
        run_db (dbind (ListOwnerWalletScansDiscoveryV1 u ?a l k) (\<lambda>(es, n). dreturn (es, n, l, k))) w"
  proof (cases "values_Get q ''latest'' = ''true'' \<and> ?a \<noteq> ''''")
    case True
    let ?l = "ParseInt_value (values_Get q ''limit'')"
    show ?thesis
      by (rule addr [of "\<lambda>all. case latest_completed J cfg (values_Get q ''chain_id'') all of
                  Some ent \<Rightarrow> dreturn ([ent], 1, if ?l \<le> 0 then 20 else ?l, ParseInt_value (values_Get q ''offset''))
                | None \<Rightarrow> dreturn ([], 0, if ?l \<le> 0 then 20 else ?l, ParseInt_value (values_Get q ''offset''))"])
        (use True in \<open>auto simp: stub_ListWalletScans_def Let_def dreturn_def dest: latest_completed_in split: option.splits\<close>)
  next
    case F: False
    show ?thesis
    proof (cases "?a \<noteq> '''' \<and> values_Get q ''chain_id'' \<noteq> ''''")
      case True
      have pg: "paginateWalletScanEntities (filter p all) l k = Some ys \<Longrightarrow> x \<in> set ys \<Longrightarrow> x \<in> set all"
        for p l k ys and x :: ScanResultEntity and all
        using paginate_in [of "filter p all" l k ys] by auto
      show ?thesis using True F
        by (intro addr) (auto simp: stub_ListWalletScans_def Let_def dreturn_def dest: pg split: option.splits)
    next
      case False
      show ?thesis
        by (rule page [of "if ParseInt_value (values_Get q ''limit'') \<le> 0 then 20 else ParseInt_value (values_Get q ''limit'')"
              "ParseInt_value (values_Get q ''offset'')"])
          (simp only: stub_ListWalletScans_def Let_def False F if_False)
    qed
  qed
  then show ?thesis
  proof cases
    case addr
    from assms [unfolded addr(1)] obtain all d0 where x: "ListOwnerWalletScansByAddress u ?a (w_db w) = (Inr all, d0)"
        "f all d0 = (Inr (es, n, l, k), w_db w')" "w_out w' = w_out w"
      by (rule run_db_bind)
    then show ?thesis using addr(2) [OF x(2)] list_by_address_rows [OF x(1)] by (auto simp: request_view_def)
  next
    case page
    from assms [unfolded page] obtain y d0 where x: "ListOwnerWalletScansDiscoveryV1 u ?a l k (w_db w) = (Inr y, d0)"
        "(\<lambda>(es, n). dreturn (es, n, l, k)) y d0 = (Inr (es, n, l, k), w_db w')" "w_out w' = w_out w"
      by (rule run_db_bind) (auto split: prod.splits simp: dreturn_def)
    then have "y = (es, n)" "w_db w' = d0" by (auto simp: dreturn_def split: prod.splits)
    then show ?thesis using list_discovery_rows x by (auto simp: request_view_def)
  qed
qed

lemma stub_list_keeps:
  "stub_ListWalletScans J cfg u t q w = (r, w') \<Longrightarrow> request_view w' = request_view w"
proof -
  have q: "quiet (ListOwnerWalletScansByAddress u a)" "quiet (ListOwnerWalletScansDiscoveryV1 u a l k)" for a l k
    by (simp_all add: ListOwnerWalletScansByAddress_def ListOwnerWalletScansDiscoveryV1_def quiet_intros)
  have r: "run_db m w = (r, w') \<Longrightarrow> quiet m \<Longrightarrow> request_view w' = request_view w" for m :: "'b stm" and r
    by (auto simp: run_db_eq request_view_def dest: quietD)
  assume "stub_ListWalletScans J cfg u t q w = (r, w')"
  then show ?thesis
    using r by (auto simp: stub_ListWalletScans_def Let_def intro!: q quiet_intros split: if_splits option.splits prod.splits)
qed



end
