(* ===== verification/Scan_Http.thy ===== *)
theory Scan_Http
  imports Scan_Handlers
begin

text \<open>
  The HTTP clients of the persistence service: \<open>src/internal/persistence/scanhttp\<close>
  (scans, pending scans, transitions) and \<open>src/internal/persistence/cphttp\<close>
  (references of policies).

  The network is a state \<open>'n\<close>: \<open>http_Do\<close> takes a request to the reply, a status and
  the body that was read, or to an error; whether a request can be built is
  \<open>http_NewRequest\<close>.  Decoding writes into a variable: a decoder takes the body and
  the old value to an error and the new value, also when it fails.  The pause before
  a second attempt is not part of the result.
\<close>

section \<open>Requests\<close>

record http_request =
  hq_Method :: string
  hq_URL :: string
  hq_Headers :: "(string \<times> string) list"
  hq_Body :: string

record 'n http_pkg =
  http_NewRequest :: "string \<Rightarrow> string \<Rightarrow> goerr option"
  http_Do :: "http_request \<Rightarrow> 'n \<Rightarrow> (int \<times> string result) result \<times> 'n"

type_synonym 'a decoder = "string \<Rightarrow> 'a \<Rightarrow> goerr option \<times> 'a"

text \<open>\<open>url.Values.Encode\<close>: sorted by key, \<open>url.QueryEscape\<close> on keys and values.\<close>

definition query_char :: "char \<Rightarrow> string" where
  "query_char c =
     (let b = byte c in
      if is_digit c \<or> 65 \<le> b \<and> b \<le> 90 \<or> 97 \<le> b \<and> b \<le> 122 \<or> b = 45 \<or> b = 95 \<or> b = 46 \<or> b = 126 then [c]
      else if b = 32 then ''+''
      else [CHR ''%'', ''0123456789ABCDEF'' ! (b div 16), ''0123456789ABCDEF'' ! (b mod 16)])"

definition QueryEscape :: "string \<Rightarrow> string" where
  "QueryEscape s = concat (map query_char s)"

text \<open>Keys are compared byte by byte.\<close>

fun bytes_le :: "string \<Rightarrow> string \<Rightarrow> bool" where
  "bytes_le [] _ = True"
| "bytes_le (c # s) [] = False"
| "bytes_le (c # s) (d # t) = (byte c < byte d \<or> c = d \<and> bytes_le s t)"

fun insert_value :: "string \<times> string \<Rightarrow> url_values \<Rightarrow> url_values" where
  "insert_value kv [] = [kv]"
| "insert_value kv (x # xs) = (if bytes_le (fst kv) (fst x) then kv # x # xs else x # insert_value kv xs)"

definition join_amp :: "string list \<Rightarrow> string" where
  "join_amp xs = (case xs of [] \<Rightarrow> '''' | y # ys \<Rightarrow> y @ concat (map (\<lambda>z. ''&'' @ z) ys))"

definition Encode :: "url_values \<Rightarrow> string" where
  "Encode q = join_amp (map (\<lambda>(k, v). QueryEscape k @ ''='' @ QueryEscape v) (fold insert_value q []))"

section \<open>The scan client\<close>

definition V1Base :: string where "V1Base = ''/internal/scan/v1''"
definition PendingWallet :: string where "PendingWallet = ''/pending/wallet''"
definition PendingTLS :: string where "PendingTLS = ''/pending/tls''"
definition PendingByScanID :: string where "PendingByScanID = ''/pending/{scan_id}''"
definition WalletScans :: string where "WalletScans = ''/wallets/scans''"
definition WalletScanByID :: string where "WalletScanByID = ''/wallets/scans/{scan_id}''"
definition TLSScans :: string where "TLSScans = ''/tls/scans''"
definition TLSScansDefaults :: string where "TLSScansDefaults = ''/tls/scans/defaults''"
definition TLSScanByID :: string where "TLSScanByID = ''/tls/scans/{scan_id}''"
definition WalletScanTransition :: string where
  "WalletScanTransition = ''/wallets/scans/{scan_id}/transition''"
definition headerAuthorization :: string where "headerAuthorization = ''Authorization''"
definition headerUserID :: string where "headerUserID = ''X-User-Id''"
definition headerTenantID :: string where "headerTenantID = ''X-Tenant-Id''"

definition errNotFound :: goerr where "errNotFound = ErrNew ''scan not found''"
definition errConflict :: goerr where "errConflict = ErrNew ''scan reservation conflict''"

record Config =
  cfg_BaseURL :: string
  cfg_Token :: string

record Client =
  cl_baseURL :: string
  cl_token :: string

definition NewClient :: "Config \<Rightarrow> Client" where
  "NewClient cfg = \<lparr> cl_baseURL = TrimRight (TrimSpace (cfg_BaseURL cfg)) CHR ''/'',
     cl_token = TrimSpace (cfg_Token cfg) \<rparr>"

definition mapHTTPError :: "int \<Rightarrow> goerr" where
  "mapHTTPError status =
     (if status = 404 then errNotFound
      else if status = 409 then errConflict
      else if status = 503 \<or> status \<ge> 500 then scanread_ErrUnavailable
      else if status = 401 \<or> status = 400 then scanread_ErrUnavailable
      else ErrNew (''scan persistence request failed with status '' @ FormatInt status))"

text \<open>What every call is made with: the packages and the client.\<close>

record 'n net =
  net_uuid :: uuid_pkg
  net_http :: "'n http_pkg"
  net_client :: Client

definition client_request :: "'n net \<Rightarrow> string \<Rightarrow> string \<Rightarrow> uuid \<Rightarrow> string \<Rightarrow> string \<Rightarrow> http_request" where
  "client_request N method requestURL userID tenantID body =
     \<lparr> hq_Method = method, hq_URL = requestURL,
       hq_Headers =
         [(headerAuthorization, ''Bearer '' @ cl_token (net_client N)),
          (headerUserID, uuid_String (net_uuid N) userID)]
         @ (let tenant = TrimSpace tenantID in if tenant \<noteq> '''' then [(headerTenantID, tenant)] else [])
         @ (if length body > 0 then [(''Content-Type'', ''application/json'')] else []),
       hq_Body = body \<rparr>"

definition doJSONOnce ::
  "'n net \<Rightarrow> string \<Rightarrow> string \<Rightarrow> uuid \<Rightarrow> string \<Rightarrow> string \<Rightarrow> 'a decoder option \<Rightarrow> 'a \<Rightarrow> 'n
     \<Rightarrow> (goerr option \<times> 'a) \<times> 'n" where
  "doJSONOnce N method requestURL userID tenantID body dec dst n =
     (case http_NewRequest (net_http N) method requestURL of
        Some err \<Rightarrow> ((Some err, dst), n)
      | None \<Rightarrow>
          (case http_Do (net_http N) (client_request N method requestURL userID tenantID body) n of
             (Inl _, n') \<Rightarrow> ((Some scanread_ErrUnavailable, dst), n')
           | (Inr (status, Inl _), n') \<Rightarrow> ((Some scanread_ErrUnavailable, dst), n')
           | (Inr (status, Inr raw), n') \<Rightarrow>
               if status \<ge> 200 \<and> status < 300
               then (case dec of
                       None \<Rightarrow> ((None, dst), n')
                     | Some f \<Rightarrow>
                         if length raw = 0 then ((None, dst), n')
                         else (case f raw dst of
                                 (Some _, dst') \<Rightarrow> ((Some scanread_ErrUnavailable, dst'), n')
                               | (None, dst') \<Rightarrow> ((None, dst'), n')))
               else ((Some (mapHTTPError status), dst), n')))"

text \<open>The attempts that are left, the call of one attempt, the variable, the last error.\<close>

fun attempts_loop ::
  "nat \<Rightarrow> bool \<Rightarrow> ('a \<Rightarrow> 'n \<Rightarrow> (goerr option \<times> 'a) \<times> 'n) \<Rightarrow> goerr option \<Rightarrow> 'a \<Rightarrow> 'n
     \<Rightarrow> (goerr option \<times> 'a) \<times> 'n" where
  "attempts_loop 0 idempotent call lastErr dst n = ((lastErr, dst), n)"
| "attempts_loop (Suc k) idempotent call lastErr dst n =
     (case call dst n of
        ((None, dst'), n') \<Rightarrow> ((None, dst'), n')
      | ((Some err, dst'), n') \<Rightarrow>
          if \<not> idempotent \<or> \<not> errors_Is err scanread_ErrUnavailable then ((Some err, dst'), n')
          else attempts_loop k idempotent call (Some err) dst' n')"

definition doJSON ::
  "'n net \<Rightarrow> string \<Rightarrow> string \<Rightarrow> uuid \<Rightarrow> string \<Rightarrow> bool \<Rightarrow> string \<Rightarrow> 'a decoder option \<Rightarrow> 'a \<Rightarrow> 'n
     \<Rightarrow> (goerr option \<times> 'a) \<times> 'n" where
  "doJSON N method requestURL userID tenantID idempotent body dec dst n =
     (let attempts = (if idempotent then 2 else 1) in
      attempts_loop attempts idempotent (doJSONOnce N method requestURL userID tenantID body dec) None dst n)"

definition scan_url :: "'n net \<Rightarrow> string \<Rightarrow> uuid \<Rightarrow> string" where
  "scan_url N route scanID =
     cl_baseURL (net_client N) @ V1Base @ ReplaceAll route ''{scan_id}'' (uuid_String (net_uuid N) scanID)"

text \<open>The decoders of the wire types with their zero values, and the time package of the rows.\<close>

record wire_pkg =
  wp_time :: time_pkg
  wp_wallet_list :: "ListWalletScansWire decoder \<times> ListWalletScansWire"
  wp_wallet :: "WalletScanRowWire decoder \<times> WalletScanRowWire"
  wp_tls_list :: "ListTLSScansWire decoder \<times> ListTLSScansWire"
  wp_tls_defaults :: "ListTLSDefaultsWire decoder \<times> ListTLSDefaultsWire"
  wp_tls :: "TLSScanRowWire decoder \<times> TLSScanRowWire"
  wp_pending :: "PendingScanRecordWire decoder \<times> PendingScanRecordWire"
  wp_reserved :: "ReserveWalletPendingResponseWire decoder \<times> ReserveWalletPendingResponseWire"
  wp_put_tls :: "PutTLSPendingRequestWire \<Rightarrow> string result"
  wp_reserve :: "ReserveWalletPendingRequestWire \<Rightarrow> string result"

definition call_json ::
  "'n net \<Rightarrow> string \<Rightarrow> string \<Rightarrow> uuid \<Rightarrow> string \<Rightarrow> bool \<Rightarrow> string \<Rightarrow> 'a decoder \<times> 'a \<Rightarrow> ('n, 'a) op" where
  "call_json N method requestURL userID tenantID idempotent body codec n =
     (case doJSON N method requestURL userID tenantID idempotent body (Some (fst codec)) (snd codec) n of
        ((Some err, _), n') \<Rightarrow> (Inl err, n')
      | ((None, wire), n') \<Rightarrow> (Inr wire, n'))"

definition call_plain :: "'n net \<Rightarrow> string \<Rightarrow> string \<Rightarrow> uuid \<Rightarrow> string \<Rightarrow> bool \<Rightarrow> ('n, unit) op" where
  "call_plain N method requestURL userID tenantID idempotent n =
     (case doJSON N method requestURL userID tenantID idempotent '''' None () n of
        ((Some err, _), n') \<Rightarrow> (Inl err, n')
      | ((None, _), n') \<Rightarrow> (Inr (), n'))"

text \<open>Converting the rows of a list: any row that fails makes the whole answer unavailable.\<close>

fun rows_to_entities :: "('r \<Rightarrow> 'e result) \<Rightarrow> 'r list \<Rightarrow> 'e list result" where
  "rows_to_entities f [] = Inr []"
| "rows_to_entities f (row # rows) =
     (case f row of
        Inl _ \<Rightarrow> Inl scanread_ErrUnavailable
      | Inr ent \<Rightarrow> rbind (rows_to_entities f rows) (\<lambda>ents. Inr (ent # ents)))"

definition ListWalletScans ::
  "wire_pkg \<Rightarrow> 'n net \<Rightarrow> uuid \<Rightarrow> string \<Rightarrow> url_values \<Rightarrow> ('n, ScanResultEntity list \<times> int \<times> int \<times> int) op" where
  "ListWalletScans W N userID tenantID query n =
     (let u = cl_baseURL (net_client N) @ V1Base @ WalletScans;
          u = (if length query > 0 then u @ ''?'' @ Encode query else u)
      in case call_json N ''GET'' u userID tenantID True '''' (wp_wallet_list W) n of
           (Inl err, n') \<Rightarrow> (Inl err, n')
         | (Inr wire, n') \<Rightarrow>
             (rbind (rows_to_entities (WalletRowToEntity (wp_time W) (net_uuid N)) (lw_Items wire))
                (\<lambda>out. Inr (out, lw_Total wire, lw_Limit wire, lw_Offset wire)), n'))"

text \<open>A missing scan is no error but nil.\<close>

definition found_or_nil :: "('w \<Rightarrow> 'e result) \<Rightarrow> 'w result \<Rightarrow> 'e option result" where
  "found_or_nil f r =
     (case r of
        Inl err \<Rightarrow> if errors_Is err errNotFound then Inr None else Inl err
      | Inr wire \<Rightarrow> (case f wire of Inl err \<Rightarrow> Inl err | Inr ent \<Rightarrow> Inr (Some ent)))"

definition GetWalletScan :: "wire_pkg \<Rightarrow> 'n net \<Rightarrow> uuid \<Rightarrow> string \<Rightarrow> uuid \<Rightarrow> ('n, ScanResultEntity option) op" where
  "GetWalletScan W N userID tenantID scanID n =
     (case call_json N ''GET'' (scan_url N WalletScanByID scanID) userID tenantID True '''' (wp_wallet W) n of
        (r, n') \<Rightarrow> (found_or_nil (WalletRowToEntity (wp_time W) (net_uuid N)) r, n'))"

definition ListTLSScans ::
  "wire_pkg \<Rightarrow> 'n net \<Rightarrow> uuid \<Rightarrow> string \<Rightarrow> int \<Rightarrow> int \<Rightarrow> ('n, TLSScanResultEntity list \<times> int) op" where
  "ListTLSScans W N userID tenantID limit offset n =
     (let q = (if limit > 0 then [(''limit'', FormatInt limit)] else [])
              @ (if offset > 0 then [(''offset'', FormatInt offset)] else []);
          u = cl_baseURL (net_client N) @ V1Base @ TLSScans;
          enc = Encode q;
          u = (if enc \<noteq> '''' then u @ ''?'' @ enc else u)
      in case call_json N ''GET'' u userID tenantID True '''' (wp_tls_list W) n of
           (Inl err, n') \<Rightarrow> (Inl err, n')
         | (Inr wire, n') \<Rightarrow>
             (rbind (rows_to_entities (TLSRowToEntity (wp_time W) (net_uuid N)) (lt_Items wire))
                (\<lambda>out. Inr (out, lt_Total wire)), n'))"

definition ListTLSDefaultScans ::
  "wire_pkg \<Rightarrow> 'n net \<Rightarrow> uuid \<Rightarrow> string \<Rightarrow> ('n, TLSScanResultEntity option list) op" where
  "ListTLSDefaultScans W N userID tenantID n =
     (case call_json N ''GET'' (cl_baseURL (net_client N) @ V1Base @ TLSScansDefaults) userID tenantID True ''''
             (wp_tls_defaults W) n of
        (Inl err, n') \<Rightarrow> (Inl err, n')
      | (Inr wire, n') \<Rightarrow>
          (rbind (rows_to_entities (TLSRowToEntity (wp_time W) (net_uuid N)) (ld_Items wire))
             (\<lambda>out. Inr (map Some out)), n'))"

definition GetTLSScan :: "wire_pkg \<Rightarrow> 'n net \<Rightarrow> uuid \<Rightarrow> string \<Rightarrow> uuid \<Rightarrow> ('n, TLSScanResultEntity option) op" where
  "GetTLSScan W N userID tenantID scanID n =
     (case call_json N ''GET'' (scan_url N TLSScanByID scanID) userID tenantID True '''' (wp_tls W) n of
        (r, n') \<Rightarrow> (found_or_nil (TLSRowToEntity (wp_time W) (net_uuid N)) r, n'))"

definition deleted_or_absent :: "unit result \<Rightarrow> bool result" where
  "deleted_or_absent r =
     (case r of
        Inl err \<Rightarrow> if errors_Is err errNotFound then Inr False else Inl err
      | Inr _ \<Rightarrow> Inr True)"

definition DeleteWalletScan :: "'n net \<Rightarrow> uuid \<Rightarrow> string \<Rightarrow> uuid \<Rightarrow> ('n, bool) op" where
  "DeleteWalletScan N userID tenantID scanID n =
     (case call_plain N ''DELETE'' (scan_url N WalletScanByID scanID) userID tenantID True n of
        (r, n') \<Rightarrow> (deleted_or_absent r, n'))"

definition DeleteTLSScan :: "'n net \<Rightarrow> uuid \<Rightarrow> string \<Rightarrow> uuid \<Rightarrow> ('n, bool) op" where
  "DeleteTLSScan N userID tenantID scanID n =
     (case call_plain N ''DELETE'' (scan_url N TLSScanByID scanID) userID tenantID True n of
        (r, n') \<Rightarrow> (deleted_or_absent r, n'))"

definition client_store :: "wire_pkg \<Rightarrow> 'n net \<Rightarrow> 'n ScanReadStore" where
  "client_store W N =
     \<lparr> rs_ListWalletScans = ListWalletScans W N, rs_GetWalletScan = GetWalletScan W N,
       rs_DeleteWalletScan = DeleteWalletScan N, rs_ListTLSScans = ListTLSScans W N,
       rs_ListTLSDefaultScans = ListTLSDefaultScans W N, rs_GetTLSScan = GetTLSScan W N,
       rs_DeleteTLSScan = DeleteTLSScan N \<rparr>"

section \<open>Pending scans and transitions\<close>

definition pendingUnavailable :: "goerr \<Rightarrow> goerr" where
  "pendingUnavailable err = (if errors_Is err scanread_ErrUnavailable then scanpending_ErrUnavailable else err)"

definition PutTLS :: "wire_pkg \<Rightarrow> 'n net \<Rightarrow> uuid \<Rightarrow> string \<Rightarrow> PendingRecord option \<Rightarrow> ('n, unit) op" where
  "PutTLS W N userID tenantID rec n =
     (case rec of
        None \<Rightarrow> (Inl (ErrNew ''pending scan record is required''), n)
      | Some rec \<Rightarrow>
          (let body = \<lparr> pt_ScanID = uuid_String (net_uuid N) (pr_ScanID rec),
                 pt_Endpoint = TrimSpace (pr_Endpoint rec),
                 pt_CreatedAt = (if \<not> IsZero (pr_CreatedAt rec)
                                 then Format_RFC3339Nano (wp_time W) (pr_CreatedAt rec) else '''') \<rparr>
           in case wp_put_tls W body of
                Inl err \<Rightarrow> (Inl err, n)
              | Inr payload \<Rightarrow>
                  (case call_json N ''POST'' (cl_baseURL (net_client N) @ V1Base @ PendingTLS) userID tenantID
                          False payload (wp_pending W) n of
                     (Inl err, n') \<Rightarrow> (Inl (pendingUnavailable err), n')
                   | (Inr _, n') \<Rightarrow> (Inr (), n'))))"

definition reserve_body :: "wire_pkg \<Rightarrow> 'n net \<Rightarrow> PendingRecord \<Rightarrow> ReserveWalletPendingRequestWire" where
  "reserve_body W N rec =
     \<lparr> rw_ScanID = uuid_String (net_uuid N) (pr_ScanID rec),
       rw_Address = TrimSpace (pr_Address rec),
       rw_CreatedAt = (if \<not> IsZero (pr_CreatedAt rec)
                       then Format_RFC3339Nano (wp_time W) (pr_CreatedAt rec) else '''') \<rparr>"

definition ReserveWallet :: "wire_pkg \<Rightarrow> 'n net \<Rightarrow> uuid \<Rightarrow> string \<Rightarrow> PendingRecord option \<Rightarrow> ('n, bool) op" where
  "ReserveWallet W N userID tenantID rec n =
     (case rec of
        None \<Rightarrow> (Inl (ErrNew ''pending scan record is required''), n)
      | Some rec \<Rightarrow>
          (case wp_reserve W (reserve_body W N rec) of
                Inl err \<Rightarrow> (Inl err, n)
              | Inr payload \<Rightarrow>
                  (case call_json N ''POST'' (cl_baseURL (net_client N) @ V1Base @ PendingWallet) userID tenantID
                          False payload (wp_reserved W) n of
                     (Inl err, n') \<Rightarrow>
                       (if errors_Is err errConflict then Inr False else Inl (pendingUnavailable err), n')
                   | (Inr wire, n') \<Rightarrow> (Inr (rr_Reserved wire), n'))))"

definition pending_answer :: "wire_pkg \<Rightarrow> 'n net \<Rightarrow> PendingScanRecordWire result \<Rightarrow> PendingRecord option result" where
  "pending_answer W N r =
     (case r of
        Inl err \<Rightarrow> if errors_Is err errNotFound then Inr None else Inl (pendingUnavailable err)
      | Inr wire \<Rightarrow> (case RecordFromWire (wp_time W) (net_uuid N) wire of Inl err \<Rightarrow> Inl err | Inr rec \<Rightarrow> Inr (Some rec)))"

definition client_Get :: "wire_pkg \<Rightarrow> 'n net \<Rightarrow> uuid \<Rightarrow> string \<Rightarrow> uuid \<Rightarrow> ('n, PendingRecord option) op" where
  "client_Get W N userID tenantID scanID n =
     (case call_json N ''GET'' (scan_url N PendingByScanID scanID) userID tenantID True '''' (wp_pending W) n of
        (r, n') \<Rightarrow> (pending_answer W N r, n'))"

definition GetWalletByOwnerAddress ::
  "wire_pkg \<Rightarrow> 'n net \<Rightarrow> uuid \<Rightarrow> string \<Rightarrow> string \<Rightarrow> ('n, PendingRecord option) op" where
  "GetWalletByOwnerAddress W N userID tenantID address n =
     (case call_json N ''GET'' (cl_baseURL (net_client N) @ V1Base @ PendingWallet @ ''?''
               @ Encode [(''address'', TrimSpace address)]) userID tenantID True '''' (wp_pending W) n of
        (r, n') \<Rightarrow> (pending_answer W N r, n'))"

definition pending_done :: "unit result \<Rightarrow> unit result" where
  "pending_done r = (case r of Inl err \<Rightarrow> Inl (pendingUnavailable err) | Inr _ \<Rightarrow> Inr ())"

definition client_Delete :: "'n net \<Rightarrow> uuid \<Rightarrow> string \<Rightarrow> uuid \<Rightarrow> ('n, unit) op" where
  "client_Delete N userID tenantID scanID n =
     (case call_plain N ''DELETE'' (scan_url N PendingByScanID scanID) userID tenantID False n of
        (r, n') \<Rightarrow> (pending_done r, n'))"

definition DeleteWalletReservation :: "'n net \<Rightarrow> uuid \<Rightarrow> string \<Rightarrow> string \<Rightarrow> uuid \<Rightarrow> ('n, unit) op" where
  "DeleteWalletReservation N userID tenantID address scanID n =
     (case call_plain N ''DELETE'' (cl_baseURL (net_client N) @ V1Base @ PendingWallet @ ''?''
               @ Encode [(''address'', TrimSpace address), (''scan_id'', uuid_String (net_uuid N) scanID)])
             userID tenantID False n of
        (r, n') \<Rightarrow> (pending_done r, n'))"

definition client_pending :: "wire_pkg \<Rightarrow> 'n net \<Rightarrow> 'n pending_ops" where
  "client_pending W N = \<lparr> pd_Get = client_Get W N, pd_Delete = client_Delete N,
     pd_DeleteWalletReservation = DeleteWalletReservation N \<rparr>"

record walletTransitionResponse =
  wt_Outcome :: string
  wt_Status :: string
  wt_ProjectionReady :: bool

definition ApplyWalletTransition ::
  "walletTransitionResponse decoder \<Rightarrow> 'n net \<Rightarrow> uuid \<Rightarrow> uuid \<Rightarrow> string \<Rightarrow> ('n, string \<times> string \<times> bool) op" where
  "ApplyWalletTransition dec N userID scanID body n =
     (case doJSONOnce N ''POST'' (scan_url N WalletScanTransition scanID) userID '''' body (Some dec)
             \<lparr> wt_Outcome = '''', wt_Status = '''', wt_ProjectionReady = False \<rparr> n of
        ((Some err, _), n') \<Rightarrow> (Inl err, n')
      | ((None, out), n') \<Rightarrow> (Inr (wt_Outcome out, wt_Status out, wt_ProjectionReady out), n'))"

section \<open>The policy client\<close>

definition cp_V1Base :: string where "cp_V1Base = ''/internal/cp/v1''"
definition ReferenceWallet :: string where "ReferenceWallet = ''/references/wallet''"
definition ReferenceScan :: string where "ReferenceScan = ''/references/scan''"

definition cp_NewClient :: "Config \<Rightarrow> Client" where
  "cp_NewClient cfg = \<lparr> cl_baseURL = TrimRight (TrimSpace (cfg_BaseURL cfg)) CHR ''/'',
     cl_token = TrimSpace (cfg_Token cfg) \<rparr>"

record scanReferenceWire =
  sw_Referenced :: bool
  sw_Count :: int

record walletReferenceWire =
  wr_Exists :: bool
  wr_PolicyCount :: int
  wr_DraftCount :: int

definition cp_doJSONOnce ::
  "'n net \<Rightarrow> string \<Rightarrow> string \<Rightarrow> uuid \<Rightarrow> string \<Rightarrow> 'a decoder option \<Rightarrow> 'a \<Rightarrow> 'n \<Rightarrow> (goerr option \<times> 'a) \<times> 'n" where
  "cp_doJSONOnce N method requestURL userID tenantID dec dst n =
     (case http_NewRequest (net_http N) method requestURL of
        Some err \<Rightarrow> ((Some err, dst), n)
      | None \<Rightarrow>
          (case http_Do (net_http N) (client_request N method requestURL userID tenantID '''') n of
             (Inl err, n') \<Rightarrow> ((Some err, dst), n')
           | (Inr (status, Inl err), n') \<Rightarrow> ((Some err, dst), n')
           | (Inr (status, Inr raw), n') \<Rightarrow>
               if status \<noteq> 200
               then ((Some (ErrNew (''cp persistence reference: unexpected status '' @ FormatInt status)), dst), n')
               else (case dec of
                       None \<Rightarrow> ((None, dst), n')
                     | Some f \<Rightarrow>
                         (case f raw dst of
                            (Some err, dst') \<Rightarrow>
                              ((Some (ErrWrap ''cp persistence reference: invalid response json'' err), dst'), n')
                          | (None, dst') \<Rightarrow> ((None, dst'), n')))))"

definition cp_doJSON ::
  "'n net \<Rightarrow> string \<Rightarrow> string \<Rightarrow> uuid \<Rightarrow> string \<Rightarrow> 'a decoder option \<Rightarrow> 'a \<Rightarrow> 'n \<Rightarrow> (goerr option \<times> 'a) \<times> 'n" where
  "cp_doJSON N method requestURL userID tenantID dec dst n = cp_doJSONOnce N method requestURL userID tenantID dec dst n"

definition cp_not_configured :: goerr where
  "cp_not_configured = ErrNew ''cp persistence reference client: base URL or token not configured''"

definition PersistedPoliciesReferenceScan ::
  "scanReferenceWire decoder \<Rightarrow> 'n net \<Rightarrow> uuid \<Rightarrow> string \<Rightarrow> uuid \<Rightarrow> ('n, bool) op" where
  "PersistedPoliciesReferenceScan dec N userID tenantID scanID n =
     (if cl_baseURL (net_client N) = '''' \<or> cl_token (net_client N) = '''' then (Inl cp_not_configured, n)
      else case cp_doJSON N ''GET'' (cl_baseURL (net_client N) @ cp_V1Base @ ReferenceScan @ ''?''
                   @ Encode [(''scan_id'', ToLower (uuid_String (net_uuid N) scanID))]) userID tenantID
                   (Some dec) \<lparr> sw_Referenced = False, sw_Count = 0 \<rparr> n of
             ((Some err, _), n') \<Rightarrow> (Inl err, n')
           | ((None, wire), n') \<Rightarrow> (Inr (sw_Referenced wire), n'))"

definition ActiveWalletCPMContextForTarget ::
  "walletReferenceWire decoder \<Rightarrow> 'n net \<Rightarrow> uuid \<Rightarrow> string \<Rightarrow> string \<Rightarrow> ('n, WalletTargetContext) op" where
  "ActiveWalletCPMContextForTarget dec N userID tenantID normalizedTargetAddress n =
     (if cl_baseURL (net_client N) = '''' \<or> cl_token (net_client N) = '''' then (Inl cp_not_configured, n)
      else case cp_doJSON N ''GET'' (cl_baseURL (net_client N) @ cp_V1Base @ ReferenceWallet @ ''?''
                   @ Encode [(''wallet_address'', TrimSpace normalizedTargetAddress)]) userID tenantID
                   (Some dec) \<lparr> wr_Exists = False, wr_PolicyCount = 0, wr_DraftCount = 0 \<rparr> n of
             ((Some err, _), n') \<Rightarrow> (Inl err, n')
           | ((None, wire), n') \<Rightarrow>
               (Inr \<lparr> wt_Exists = wr_Exists wire, wt_PolicyCount = wr_PolicyCount wire,
                      wt_DraftCount = wr_DraftCount wire \<rparr>, n'))"

section \<open>What an answer says about the replies\<close>

text \<open>Building a request never fails with the error that stands for a missing scan.\<close>

definition requests_honest :: "'n net \<Rightarrow> bool" where
  "requests_honest N \<longleftrightarrow> (\<forall>m u e. http_NewRequest (net_http N) m u = Some e \<longrightarrow> \<not> errors_Is e errNotFound)"

lemma http_errors [simp]:
  "\<not> errors_Is scanread_ErrUnavailable errNotFound" "\<not> errors_Is scanread_ErrUnavailable errConflict"
  "\<not> errors_Is errNotFound scanread_ErrUnavailable" "\<not> errors_Is errConflict scanread_ErrUnavailable"
  "\<not> errors_Is errConflict errNotFound" "\<not> errors_Is errNotFound errConflict"
  "errors_Is (mapHTTPError st) errNotFound \<longleftrightarrow> st = 404"
  "errors_Is (mapHTTPError st) errConflict \<longleftrightarrow> st = 409"
  by (simp_all add: scanread_ErrUnavailable_def errNotFound_def errConflict_def mapHTTPError_def)

lemma once_not_found:
  assumes "requests_honest N" and "doJSONOnce N m url u t body dec dst n = ((Some e, dst'), n')"
    and "errors_Is e errNotFound"
  shows "\<exists>raw. http_Do (net_http N) (client_request N m url u t body) n = (Inr (404, Inr raw), n')"
  using assms
  by (auto simp: doJSONOnce_def requests_honest_def split: option.splits prod.splits sum.splits if_splits)

lemma doJSON_once: "doJSON N m url u t False body dec dst n = doJSONOnce N m url u t body dec dst n"
  by (simp add: doJSON_def split: prod.split option.split)

lemma doJSON_not_found:
  assumes "requests_honest N" and d: "doJSON N m url u t b body dec dst n = ((Some e, dst'), n')"
    and "errors_Is e errNotFound"
  shows "\<exists>n0 raw. http_Do (net_http N) (client_request N m url u t body) n0 = (Inr (404, Inr raw), n')"
proof -
  let ?call = "doJSONOnce N m url u t body dec"
  have "attempts_loop k b ?call lastErr dst n = ((Some e, dst'), n') \<Longrightarrow> (lastErr \<noteq> None \<longrightarrow> \<not> errors_Is (the lastErr) errNotFound)
      \<Longrightarrow> \<exists>n0 raw. http_Do (net_http N) (client_request N m url u t body) n0 = (Inr (404, Inr raw), n')" for k lastErr dst n
  proof (induction k arbitrary: lastErr dst n)
    case 0
    then show ?case using assms(3) by auto
  next
    case (Suc k)
    obtain r d1 n1 where c: "?call dst n = ((r, d1), n1)" by (metis prod.collapse)
    show ?case
    proof (cases r)
      case None
      then show ?thesis using Suc.prems(1) c by simp
    next
      case (Some x)
      show ?thesis
      proof (cases "errors_Is x errNotFound")
        case True
        obtain raw where r404: "http_Do (net_http N) (client_request N m url u t body) n = (Inr (404, Inr raw), n1)"
          using once_not_found [OF assms(1) c [unfolded Some] True] by blast
        have "x = errNotFound"
          using c Some r404 True assms(1)
          by (auto simp: doJSONOnce_def requests_honest_def mapHTTPError_def split: option.splits)
        then show ?thesis using r404 Suc.prems(1) c Some by auto
      next
        case False
        then show ?thesis
          using Suc.prems(1) c Some assms(3) Suc.IH [of "Some x" d1 n1] by (auto split: if_splits)
      qed
    qed
  qed
  then show ?thesis using d by (simp add: doJSON_def)
qed

lemma call_json_not_found:
  assumes "requests_honest N" and "call_json N m url u t b body codec n = (Inl e, n')" and "errors_Is e errNotFound"
  shows "\<exists>n0 raw. http_Do (net_http N) (client_request N m url u t body) n0 = (Inr (404, Inr raw), n')"
  using assms doJSON_not_found [OF assms(1)]
  by (auto simp: call_json_def split: prod.splits option.splits)

lemma call_plain_not_found:
  assumes "requests_honest N" and "call_plain N m url u t b n = (Inl e, n')" and "errors_Is e errNotFound"
  shows "\<exists>n0 raw. http_Do (net_http N) (client_request N m url u t '''') n0 = (Inr (404, Inr raw), n')"
  using assms doJSON_not_found [OF assms(1)]
  by (auto simp: call_plain_def split: prod.splits option.splits)

lemma absent_scan_404:
  assumes "requests_honest N"
  shows "GetWalletScan W N u t s n = (Inr None, n') \<Longrightarrow>
      \<exists>n0 raw. http_Do (net_http N) (client_request N ''GET'' (scan_url N WalletScanByID s) u t '''') n0 = (Inr (404, Inr raw), n')"
    and "DeleteWalletScan N u t s n = (Inr False, n') \<Longrightarrow>
      \<exists>n0 raw. http_Do (net_http N) (client_request N ''DELETE'' (scan_url N WalletScanByID s) u t '''') n0 = (Inr (404, Inr raw), n')"
    and "client_Get W N u t s n = (Inr None, n') \<Longrightarrow>
      \<exists>n0 raw. http_Do (net_http N) (client_request N ''GET'' (scan_url N PendingByScanID s) u t '''') n0 = (Inr (404, Inr raw), n')"
  by (auto simp: GetWalletScan_def DeleteWalletScan_def client_Get_def found_or_nil_def deleted_or_absent_def
      pending_answer_def split: prod.splits sum.splits if_splits
      dest: call_json_not_found [OF assms] call_plain_not_found [OF assms])

text \<open>
  A lost reply to a delete: the second attempt finds nothing, and the answer is that
  there was nothing to delete.
\<close>

lemma delete_reply_lost:
  assumes "http_NewRequest (net_http N) ''DELETE'' (scan_url N WalletScanByID s) = None"
    and "http_Do (net_http N) (client_request N ''DELETE'' (scan_url N WalletScanByID s) u t '''') n = (Inl e, n1)"
    and "http_Do (net_http N) (client_request N ''DELETE'' (scan_url N WalletScanByID s) u t '''') n1 = (Inr (404, Inr raw), n2)"
  shows "DeleteWalletScan N u t s n = (Inr False, n2)"
  using assms
  by (simp add: DeleteWalletScan_def call_plain_def doJSON_def doJSONOnce_def numeral_2_eq_2 deleted_or_absent_def
      mapHTTPError_def)

text \<open>
  A wallet reservation is asked for with exactly one request, made in the name
  of the user, and its answer is the service's: granted only after a successful reply
  that says so, refused after a conflict, and the error of an unavailable service
  when the reply is lost, broken, or a server error.
\<close>

lemma reserve_wallet_answer:
  assumes m: "wp_reserve W (reserve_body W N rec) = Inr payload"
    and q: "http_NewRequest (net_http N) ''POST'' (cl_baseURL (net_client N) @ V1Base @ PendingWallet) = None"
    and d: "http_Do (net_http N)
        (client_request N ''POST'' (cl_baseURL (net_client N) @ V1Base @ PendingWallet) u t payload) n = (reply, n1)"
    and r: "ReserveWallet W N u t (Some rec) n = (answer, n')"
  shows "n' = n1
    \<and> (answer = Inr True \<longrightarrow> (\<exists>st raw wire. reply = Inr (st, Inr raw) \<and> 200 \<le> st \<and> st < 300 \<and> rr_Reserved wire
         \<and> (if raw = '''' then wire = snd (wp_reserved W)
            else fst (wp_reserved W) raw (snd (wp_reserved W)) = (None, wire))))
    \<and> (\<forall>raw. reply = Inr (409, Inr raw) \<longrightarrow> answer = Inr False)
    \<and> (isl reply \<or> (\<exists>st e. reply = Inr (st, Inl e)) \<or> (\<exists>st raw. reply = Inr (st, Inr raw) \<and> 500 \<le> st)
         \<longrightarrow> answer = Inl scanpending_ErrUnavailable)"
proof -
  let ?u = "cl_baseURL (net_client N) @ V1Base @ PendingWallet"
  define X where "X = doJSONOnce N ''POST'' ?u u t payload (Some (fst (wp_reserved W))) (snd (wp_reserved W)) n"
  have r': "(answer, n') = (case X of
        ((Some err, _), n') \<Rightarrow> (if errors_Is err errConflict then Inr False else Inl (pendingUnavailable err), n')
      | ((None, wire), n') \<Rightarrow> (Inr (rr_Reserved wire), n'))"
    using r m by (auto simp: ReserveWallet_def Let_def call_json_def doJSON_once X_def split: prod.splits option.splits)
  consider (lost) "isl reply \<or> (\<exists>st e. reply = Inr (st, Inl e))"
    | (got) st raw where "reply = Inr (st, Inr raw)"
    by (metis isl_def old.prod.exhaust old.sum.exhaust)
  then show ?thesis
  proof cases
    case lost
    then have "X = ((Some scanread_ErrUnavailable, snd (wp_reserved W)), n1)"
      using q d by (auto simp: X_def doJSONOnce_def isl_def)
    then have "answer = Inl scanpending_ErrUnavailable \<and> n' = n1" using r' by (simp add: pendingUnavailable_def)
    then show ?thesis using lost by auto
  next
    case got
    show ?thesis
    proof (cases "200 \<le> st \<and> st < 300")
      case True
      then show ?thesis using got q d r'
        by (auto simp: X_def doJSONOnce_def pendingUnavailable_def split: prod.splits option.splits if_splits)
    next
      case False
      then have "X = ((Some (mapHTTPError st), snd (wp_reserved W)), n1)"
        using got q d by (auto simp: X_def doJSONOnce_def)
      then have a: "answer = (if st = 409 then Inr False else Inl (pendingUnavailable (mapHTTPError st)))" "n' = n1"
        using r' by simp_all
      have "500 \<le> st \<Longrightarrow> mapHTTPError st = scanread_ErrUnavailable" by (simp add: mapHTTPError_def)
      then show ?thesis using got a by (auto simp: pendingUnavailable_def)
    qed
  qed
qed

definition ex_pending_wire :: PendingScanRecordWire where
  "ex_pending_wire = \<lparr> pw_ScanID = '''', pw_UserID = '''', pw_Family = '''', pw_Address = '''',
     pw_Endpoint = '''', pw_CreatedAt = '''' \<rparr>"

text \<open>A service that answers every request with a given reply and counts the requests.\<close>

definition ex_net :: "(int \<times> string result) result \<Rightarrow> nat net" where
  "ex_net reply = \<lparr> net_uuid = ex_uuid,
     net_http = \<lparr> http_NewRequest = (\<lambda>_ _. None), http_Do = (\<lambda>_ n. (reply, n + 1)) \<rparr>,
     net_client = NewClient \<lparr> cfg_BaseURL = ''http://p'', cfg_Token = ''tok'' \<rparr> \<rparr>"

definition no_decode :: "'a decoder" where
  "no_decode raw x = (Some (ErrNew ''unexpected end of JSON input''), x)"

definition ex_wire :: "ListWalletScansWire \<Rightarrow> WalletScanRowWire \<Rightarrow> ListTLSScansWire \<Rightarrow> ListTLSDefaultsWire \<Rightarrow>
    TLSScanRowWire \<Rightarrow> wire_pkg" where
  "ex_wire a b c d e = \<lparr> wp_time = ex_time_pkg, wp_wallet_list = (no_decode, a), wp_wallet = (no_decode, b),
     wp_tls_list = (no_decode, c), wp_tls_defaults = (no_decode, d), wp_tls = (no_decode, e),
     wp_pending = (no_decode, ex_pending_wire),
     wp_reserved = (no_decode, \<lparr> rr_Reserved = False, rr_Record = ex_pending_wire \<rparr>),
     wp_put_tls = (\<lambda>_. Inr ''{}''), wp_reserve = (\<lambda>_. Inr ''{}'') \<rparr>"

definition ex_record :: PendingRecord where
  "ex_record = \<lparr> pr_ScanID = 2, pr_UserID = 1, pr_Family = ''wallet'', pr_Address = ''0xab'',
     pr_Endpoint = '''', pr_CreatedAt = 5 \<rparr>"

lemma reserve_wallet_answer_witness:
  "\<forall>a b c d e. ReserveWallet (ex_wire a b c d e) (ex_net (Inr (409, Inr ''''))) 1 '''' (Some ex_record) 0 = (Inr False, 1)
     \<and> ReserveWallet (ex_wire a b c d e) (ex_net (Inl (ErrNew ''timeout''))) 1 '''' (Some ex_record) 0
       = (Inl scanpending_ErrUnavailable, 1)"
proof (intro allI)
  fix a b c d e
  let ?W = "ex_wire a b c d e"
  note R = reserve_wallet_answer [of ?W _ ex_record "''{}''" 1 "''''" 0, OF _ _ prod.collapse [symmetric] prod.collapse [symmetric]]
  have r: "ReserveWallet ?W (ex_net (Inr (409, Inr ''''))) 1 '''' (Some ex_record) 0 = (Inr False, 1)"
    using R [of "ex_net (Inr (409, Inr ''''))"] by (auto simp: ex_wire_def ex_net_def intro: prod_eqI)
  have "ReserveWallet ?W (ex_net (Inl (ErrNew ''timeout''))) 1 '''' (Some ex_record) 0 = (Inl scanpending_ErrUnavailable, 1)"
    using R [of "ex_net (Inl (ErrNew ''timeout''))"] by (auto simp: ex_wire_def ex_net_def intro: prod_eqI)
  with r show "ReserveWallet ?W (ex_net (Inr (409, Inr ''''))) 1 '''' (Some ex_record) 0 = (Inr False, 1)
     \<and> ReserveWallet ?W (ex_net (Inl (ErrNew ''timeout''))) 1 '''' (Some ex_record) 0
       = (Inl scanpending_ErrUnavailable, 1)" by blast
qed

section \<open>The scan endpoint over the client\<close>

lemma pending_detail_404:
  assumes "pending_detail D (Some P) u s f c n = (a, n')" and "resp_status (snd a) = 404"
    and "resp_status c \<noteq> 404"
  shows "(pd_Get P u (tenantIDFromDiscoveryV1Request c) s n = (Inr None, n')) \<or>
    (\<exists>rec. pd_Get P u (tenantIDFromDiscoveryV1Request c) s n = (Inr (Some rec), n')
       \<and> \<not> (pr_UserID rec = u \<and> pr_Family rec = f))"
  using assms
  by (auto simp: pending_detail_def respondScanPendingError_def split: prod.splits sum.splits option.splits if_splits)

text \<open>
  C28: an outage is never shown as a missing scan.  When the detail endpoint, running
  over the HTTP client, answers a signed-in user with 404, the persistence service has
  itself answered 404 to the read of that scan in the name of that user, and after
  that it has answered 404 for the pending scan too, or with the record of another
  user or family.
\<close>

theorem get_404_means_absent:
  fixes N :: "'n net"
  assumes N: "requests_honest N"
    and h: "th_scanRead h = Some (client_store W N)" "th_scanPending h = Some (client_pending W N)"
    and u: "loc_user_id c = Some (LUUID u)" "u \<noteq> uuid_Nil" "resp_status c = 200"
    and s: "uuid_Parse (de_uuid D) (TrimSpace (req_Params c ''scan_id'')) = Inr s"
    and g: "GetDiscoveryV1WalletScan D h c n = ((err, c'), n')" "resp_status c' = 404"
  shows "\<exists>n0 n1 raw. http_Do (net_http N) (client_request N ''GET'' (scan_url N WalletScanByID s) u
        (tenantIDFromDiscoveryV1Request c) '''') n0 = (Inr (404, Inr raw), n1)
    \<and> ((\<exists>m raw'. http_Do (net_http N) (client_request N ''GET'' (scan_url N PendingByScanID s) u
          (tenantIDFromDiscoveryV1Request c) '''') m = (Inr (404, Inr raw'), n'))
       \<or> (\<exists>rec. client_Get W N u (tenantIDFromDiscoveryV1Request c) s n1 = (Inr (Some rec), n')
            \<and> \<not> (pr_UserID rec = u \<and> pr_Family rec = ''wallet'')))"
proof -
  let ?t = "tenantIDFromDiscoveryV1Request c"
  obtain r n1 where r: "GetWalletScan W N u ?t s n = (r, n1)" by fastforce
  have G: "(case r of
      Inl qerr \<Rightarrow> (respondScanReadError c qerr ''scan detail is temporarily unavailable'', n1)
    | Inr (Some ent) \<Rightarrow>
        (ctx_JSON (GMap (walletScanDetailV1 (de_uuid D) (de_time D) (de_json D) ent (dr_cfgChain h))) c, n1)
    | Inr None \<Rightarrow> pending_detail D (th_scanPending h) u s ''wallet'' c n1) = ((err, c'), n')"
    using g(1) auth_user_ok(1) [OF u(1,2)] s h r
    by (simp add: GetDiscoveryV1WalletScan_def client_store_def)
  have e: "resp_status (snd (respondScanReadError c q m)) \<noteq> 404" for q m
    by (simp add: respondScanReadError_def)
  consider (err) q where "r = Inl q" | (row) x where "r = Inr (Some x)" | (none) "r = Inr None"
    by (metis old.sum.exhaust option.exhaust)
  then show ?thesis
  proof cases
    case err
    then have "c' = snd (respondScanReadError c q ''scan detail is temporarily unavailable'')"
      using G by (metis fst_conv old.sum.simps(5) snd_conv)
    then show ?thesis using g(2) e by simp
  next
    case row
    then show ?thesis using G g(2) u(3) by (auto simp: ctx_JSON_def)
  next
    case none
    then have p: "pending_detail D (Some (client_pending W N)) u s ''wallet'' c n1 = ((err, c'), n')"
      using G h(2) by simp
    have P: "pd_Get (client_pending W N) = client_Get W N" by (simp add: client_pending_def)
    obtain n0 raw where w: "http_Do (net_http N) (client_request N ''GET'' (scan_url N WalletScanByID s) u ?t '''') n0
        = (Inr (404, Inr raw), n1)"
      using absent_scan_404(1) [OF N r [unfolded none]] by blast
    show ?thesis
      using pending_detail_404 [OF p, unfolded P] g(2) u(3) w absent_scan_404(3) [OF N] by fastforce
  qed
qed

definition ex_http_reads :: "ListWalletScansWire \<Rightarrow> WalletScanRowWire \<Rightarrow> ListTLSScansWire \<Rightarrow> ListTLSDefaultsWire \<Rightarrow>
    TLSScanRowWire \<Rightarrow> nat DiscoveryReads" where
  "ex_http_reads a b c d e = \<lparr> th_scanRead = Some (client_store (ex_wire a b c d e) (ex_net (Inr (404, Inr '''')))),
     th_scanPending = Some (client_pending (ex_wire a b c d e) (ex_net (Inr (404, Inr '''')))),
     th_policyRef = None, dr_cfgChain = None \<rparr>"

theorem get_404_means_absent_witness:
  "\<forall>a b c d e. resp_status (snd (fst (GetDiscoveryV1WalletScan ex_docs (ex_http_reads a b c d e) ex_scan_ctx 0))) = 404
     \<and> (\<exists>n0 n1 raw. http_Do (net_http (ex_net (Inr (404, Inr '''')))) (client_request (ex_net (Inr (404, Inr '''')))
          ''GET'' (scan_url (ex_net (Inr (404, Inr ''''))) WalletScanByID 2) 1 '''' '''') n0 = (Inr (404, Inr raw), n1))"
proof (intro allI conjI)
  fix a b c d e
  let ?N = "ex_net (Inr (404, Inr ''''))" and ?h = "ex_http_reads a b c d e"
  have N: "requests_honest ?N" by (simp add: requests_honest_def ex_net_def)
  have h: "th_scanRead ?h = Some (client_store (ex_wire a b c d e) ?N)"
      "th_scanPending ?h = Some (client_pending (ex_wire a b c d e) ?N)" by (simp_all add: ex_http_reads_def)
  have u: "loc_user_id ex_scan_ctx = Some (LUUID 1)" "(1::uuid) \<noteq> uuid_Nil" "resp_status ex_scan_ctx = 200"
      "tenantIDFromDiscoveryV1Request ex_scan_ctx = ''''"
    by (simp_all add: ex_ctx_def tenantIDFromDiscoveryV1Request_def)
  show s404: "resp_status (snd (fst (GetDiscoveryV1WalletScan ex_docs ?h ex_scan_ctx 0))) = 404"
    using auth_user_ok(1) [OF u(1,2)] ex_scan_id
    by (simp add: GetDiscoveryV1WalletScan_def h client_store_def client_pending_def GetWalletScan_def client_Get_def
        call_json_def doJSON_def doJSONOnce_def numeral_2_eq_2 ex_net_def mapHTTPError_def found_or_nil_def
        pending_detail_def pending_answer_def)
  obtain err c' n' where g: "GetDiscoveryV1WalletScan ex_docs ?h ex_scan_ctx 0 = ((err, c'), n')"
    by (metis prod.collapse)
  then have "resp_status c' = 404" using s404 by simp
  then show "\<exists>n0 n1 raw. http_Do (net_http ?N) (client_request ?N
          ''GET'' (scan_url ?N WalletScanByID 2) 1 '''' '''') n0 = (Inr (404, Inr raw), n1)"
    using get_404_means_absent [OF N h u(1-3) ex_scan_id g] unfolding u(4) by blast
qed

end
