(* ===== verification/Scanner_Presence.thy ===== *)
theory Scanner_Presence
  imports Go_Strings "HOL-Library.AList"
begin

text \<open>
  The tracker of scanner presence, \<open>src/internal/service/scanner_presence.go\<close>.

  The handlers of the broker's messages and the sweep run under one mutex, so a run
  of the tracker is a sequence of their steps.  The identifiers of a type are a list,
  in the order in which the runtime iterates over the map.  Decoding and the constants
  of the contract \<open>scannerpresence/v1\<close>, the Redis connection (a state \<open>'r\<close> with \<open>Set\<close>
  and \<open>Get\<close>) and the clock are parameters.
\<close>

section \<open>The tracker\<close>

definition scannerHeartbeatTTL :: go_duration where "scannerHeartbeatTTL = seconds 20"
definition walletPresenceSweepInterval :: go_duration where "walletPresenceSweepInterval = seconds 15"
definition walletPresenceSilentAfter :: go_duration where "walletPresenceSilentAfter = seconds 75"

record presence_message =
  pm_Type :: string
  pm_Event :: string
  pm_ScannerID :: string
  pm_Indexer :: string

record presence_contract =
  pv_EventJoined :: string
  pv_EventLeft :: string
  pv_IndexerUnknown :: string

record walletPresenceMeta =
  wm_indexer :: string
  wm_lastSeen :: go_time

record 'r redis_ops =
  rd_Set :: "string \<Rightarrow> string \<Rightarrow> go_duration \<Rightarrow> 'r \<Rightarrow> 'r"
  rd_Get :: "string \<Rightarrow> 'r \<Rightarrow> string result"

record 'r ScannerPresenceTracker =
  sp_redis :: "'r redis_ops option"
  sp_store :: 'r
  sp_byType :: "(string \<times> string list) list"
  sp_walletMeta :: "string \<rightharpoonup> walletPresenceMeta"
  sp_silentAfter :: go_duration

definition NewScannerPresenceTracker :: "'r redis_ops option \<Rightarrow> 'r \<Rightarrow> 'r ScannerPresenceTracker" where
  "NewScannerPresenceTracker redis r =
     \<lparr> sp_redis = redis, sp_store = r, sp_byType = [], sp_walletMeta = Map.empty,
       sp_silentAfter = walletPresenceSilentAfter \<rparr>"

definition ids_of :: "'r ScannerPresenceTracker \<Rightarrow> string \<Rightarrow> string list" where
  "ids_of t typ = (case map_of (sp_byType t) typ of None \<Rightarrow> [] | Some ids \<Rightarrow> ids)"

definition set_ids :: "string \<Rightarrow> string list \<Rightarrow> 'r ScannerPresenceTracker \<Rightarrow> 'r ScannerPresenceTracker" where
  "set_ids typ ids t = t\<lparr>sp_byType := AList.update typ ids (sp_byType t)\<rparr>"

definition trackedScannerType :: "string \<Rightarrow> bool" where
  "trackedScannerType typ \<longleftrightarrow> typ = ''wallet'' \<or> typ = ''tls''"

definition last_seen_key :: "string \<Rightarrow> string" where
  "last_seen_key kind = ''scanner:'' @ kind @ '':last_seen''"

definition handleHeartbeat ::
  "(string \<Rightarrow> string result) \<Rightarrow> string \<Rightarrow> string \<Rightarrow> 'r ScannerPresenceTracker \<Rightarrow> 'r ScannerPresenceTracker" where
  "handleHeartbeat Decode kind data t =
     (case Decode data of
        Inl _ \<Rightarrow> t
      | Inr timestamp \<Rightarrow>
          (case sp_redis t of
             None \<Rightarrow> t
           | Some R \<Rightarrow> t\<lparr>sp_store := rd_Set R (last_seen_key kind) timestamp scannerHeartbeatTTL (sp_store t)\<rparr>))"

text \<open>\<open>now\<close> is the value of \<open>t.clock()\<close>.\<close>

definition handleMessage ::
  "presence_contract \<Rightarrow> (string \<Rightarrow> presence_message result) \<Rightarrow> go_time \<Rightarrow> string \<Rightarrow>
     'r ScannerPresenceTracker \<Rightarrow> 'r ScannerPresenceTracker" where
  "handleMessage K Decode now data t =
     (case Decode data of
        Inl _ \<Rightarrow> t
      | Inr p \<Rightarrow>
          if \<not> trackedScannerType (pm_Type p) then t
          else
            (let t = set_ids (pm_Type p) (ids_of t (pm_Type p)) t in
             if pm_Event p = pv_EventJoined K
             then (let ids = ids_of t (pm_Type p);
                       t = set_ids (pm_Type p) (if pm_ScannerID p \<in> set ids then ids else ids @ [pm_ScannerID p]) t
                   in if pm_Type p = ''wallet''
                      then t\<lparr>sp_walletMeta := (sp_walletMeta t)(pm_ScannerID p \<mapsto>
                             \<lparr> wm_indexer = pm_Indexer p, wm_lastSeen = now \<rparr>)\<rparr>
                      else t)
             else if pm_Event p = pv_EventLeft K
             then (let t = set_ids (pm_Type p) (removeAll (pm_ScannerID p) (ids_of t (pm_Type p))) t
                   in if pm_Type p = ''wallet''
                      then t\<lparr>sp_walletMeta := (sp_walletMeta t)(pm_ScannerID p := None)\<rparr>
                      else t)
             else t))"

text \<open>The loop over \<open>walletMeta\<close> treats every entry on its own, whatever the order.\<close>

definition silent :: "go_duration \<Rightarrow> go_time \<Rightarrow> walletPresenceMeta option \<Rightarrow> bool" where
  "silent limit now meta = (case meta of None \<Rightarrow> False | Some m \<Rightarrow> \<not> time_Sub now (wm_lastSeen m) \<le> limit)"

definition expireSilentWallets :: "go_time \<Rightarrow> 'r ScannerPresenceTracker \<Rightarrow> 'r ScannerPresenceTracker" where
  "expireSilentWallets now t =
     (let limit = (if sp_silentAfter t \<le> 0 then walletPresenceSilentAfter else sp_silentAfter t);
          gone = (\<lambda>i. silent limit now (sp_walletMeta t i));
          t' = t\<lparr>sp_walletMeta := (\<lambda>i. if gone i then None else sp_walletMeta t i)\<rparr>
      in case map_of (sp_byType t) ''wallet'' of
           None \<Rightarrow> t'
         | Some wallets \<Rightarrow> set_ids ''wallet'' (filter (\<lambda>i. \<not> gone i) wallets) t')"

definition HasScanner :: "string \<Rightarrow> 'r ScannerPresenceTracker \<Rightarrow> bool" where
  "HasScanner scannerType t =
     ((case sp_redis t of
         None \<Rightarrow> False
       | Some R \<Rightarrow> (case rd_Get R (last_seen_key scannerType) (sp_store t) of Inr _ \<Rightarrow> True | Inl _ \<Rightarrow> False))
      \<or> length (ids_of t scannerType) > 0)"

fun indexer_loop :: "string \<Rightarrow> (string \<rightharpoonup> walletPresenceMeta) \<Rightarrow> string list \<Rightarrow> string option \<Rightarrow> string" where
  "indexer_loop unknown meta [] common = (case common of None \<Rightarrow> unknown | Some c \<Rightarrow> c)"
| "indexer_loop unknown meta (i # ids) common =
     (case meta i of
        None \<Rightarrow> unknown
      | Some m \<Rightarrow>
          if wm_indexer m = '''' then unknown
          else case common of
                 None \<Rightarrow> indexer_loop unknown meta ids (Some (wm_indexer m))
               | Some c \<Rightarrow> if wm_indexer m \<noteq> c then unknown else indexer_loop unknown meta ids common)"

definition OnchainIndexer :: "presence_contract \<Rightarrow> 'r ScannerPresenceTracker \<Rightarrow> string" where
  "OnchainIndexer K t =
     (let ids = ids_of t ''wallet'' in
      if length ids = 0 then pv_IndexerUnknown K
      else indexer_loop (pv_IndexerUnknown K) (sp_walletMeta t) ids None)"

record ScannerInfo =
  si_Type :: string
  si_Count :: int
  si_IDs :: "string list"

definition ListScanners :: "'r ScannerPresenceTracker \<Rightarrow> ScannerInfo list" where
  "ListScanners t =
     List.map_filter (\<lambda>(typ, ids). if length ids = 0 then None
        else Some \<lparr> si_Type = typ, si_Count = int (length ids), si_IDs = ids \<rparr>) (sp_byType t)"

section \<open>Runs of the tracker\<close>

inductive presence_step :: "presence_contract \<Rightarrow> 'r ScannerPresenceTracker \<Rightarrow> 'r ScannerPresenceTracker \<Rightarrow> bool"
  for K where
  message: "presence_step K t (handleMessage K D now data t)"
| heartbeat: "presence_step K t (handleHeartbeat H kind data t)"
| sweep: "presence_step K t (expireSilentWallets now t)"

definition presence_init :: "'r ScannerPresenceTracker \<Rightarrow> bool" where
  "presence_init t \<longleftrightarrow> (\<exists>redis r. t = NewScannerPresenceTracker redis r)"

text \<open>
  The invariant: only the two tracked types, each once and without repeated
  identifiers; the wallet scanners are exactly those with a time and an indexer.
\<close>

definition presence_inv :: "'r ScannerPresenceTracker \<Rightarrow> bool" where
  "presence_inv t \<longleftrightarrow> distinct (map fst (sp_byType t)) \<and> (\<forall>typ ids. (typ, ids) \<in> set (sp_byType t) \<longrightarrow>
       trackedScannerType typ \<and> distinct ids) \<and> dom (sp_walletMeta t) = set (ids_of t ''wallet'')"

lemma map_of_update: "map_of (AList.update k v al) = (map_of al)(k \<mapsto> v)"
  by (simp add: update_conv')

lemma ids_of_set_ids [simp]:
  "ids_of (set_ids typ ids t) typ' = (if typ' = typ then ids else ids_of t typ')"
  by (simp add: ids_of_def set_ids_def map_of_update)

lemma set_ids_sel [simp]:
  "sp_redis (set_ids typ ids t) = sp_redis t" "sp_store (set_ids typ ids t) = sp_store t"
  "sp_walletMeta (set_ids typ ids t) = sp_walletMeta t" "sp_silentAfter (set_ids typ ids t) = sp_silentAfter t"
  "ids_of (t\<lparr>sp_walletMeta := m\<rparr>) typ = ids_of t typ" "ids_of (t\<lparr>sp_store := r\<rparr>) typ = ids_of t typ"
  by (simp_all add: set_ids_def ids_of_def)

text \<open>The part of the invariant on the types.\<close>

definition types_ok :: "(string \<times> string list) list \<Rightarrow> bool" where
  "types_ok al \<longleftrightarrow> distinct (map fst al) \<and> (\<forall>typ ids. (typ, ids) \<in> set al \<longrightarrow> trackedScannerType typ \<and> distinct ids)"

lemma types_ok_update:
  assumes "types_ok al" and "trackedScannerType typ" and "distinct ids"
  shows "types_ok (AList.update typ ids al)"
proof -
  have d: "distinct (map fst (AList.update typ ids al))"
    using assms(1) by (simp add: types_ok_def distinct_update)
  have "trackedScannerType k \<and> distinct v" if "(k, v) \<in> set (AList.update typ ids al)" for k v
  proof -
    have "map_of (AList.update typ ids al) k = Some v" using that d by simp
    then show ?thesis using assms
      by (auto simp: map_of_update types_ok_def split: if_splits dest: map_of_SomeD)
  qed
  then show ?thesis using d by (simp add: types_ok_def)
qed

lemma types_ok_set_ids [simp]:
  "types_ok (sp_byType t) \<Longrightarrow> trackedScannerType typ \<Longrightarrow> distinct ids \<Longrightarrow> types_ok (sp_byType (set_ids typ ids t))"
  by (simp add: set_ids_def types_ok_update)

lemma ids_of_distinct: "types_ok (sp_byType t) \<Longrightarrow> distinct (ids_of t typ)"
  by (auto simp: types_ok_def ids_of_def split: option.splits dest: map_of_SomeD)

lemma presence_inv_iff:
  "presence_inv t \<longleftrightarrow> types_ok (sp_byType t) \<and> dom (sp_walletMeta t) = set (ids_of t ''wallet'')"
  by (simp add: presence_inv_def types_ok_def)

lemma expire_meta:
  "sp_walletMeta (expireSilentWallets now t) i =
     (if silent (if sp_silentAfter t \<le> 0 then walletPresenceSilentAfter else sp_silentAfter t) now (sp_walletMeta t i)
      then None else sp_walletMeta t i)"
  by (simp add: expireSilentWallets_def Let_def split: option.split)

lemma expire_ids:
  "ids_of (expireSilentWallets now t) typ =
     (if typ = ''wallet''
      then filter (\<lambda>i. \<not> silent (if sp_silentAfter t \<le> 0 then walletPresenceSilentAfter else sp_silentAfter t) now
                         (sp_walletMeta t i)) (ids_of t ''wallet'')
      else ids_of t typ)"
  by (simp add: expireSilentWallets_def Let_def ids_of_def set_ids_def map_of_update split: option.split)

lemma expire_inv:
  assumes "presence_inv t"
  shows "presence_inv (expireSilentWallets now t)"
proof -
  have ok: "types_ok (sp_byType t)" and d: "dom (sp_walletMeta t) = set (ids_of t ''wallet'')"
    using assms by (simp_all add: presence_inv_iff)
  have "types_ok (sp_byType (expireSilentWallets now t))"
    using ok ids_of_distinct [OF ok, of "''wallet''"]
    by (auto simp: expireSilentWallets_def Let_def set_ids_def ids_of_def trackedScannerType_def
        intro!: types_ok_update split: option.split)
  moreover have "dom (sp_walletMeta (expireSilentWallets now t)) = set (ids_of (expireSilentWallets now t) ''wallet'')"
    unfolding expire_ids using d by (auto simp: expire_meta dom_def split: if_splits)
  ultimately show ?thesis by (simp add: presence_inv_iff)
qed

lemma message_cases:
  obtains (same) "handleMessage K D now data t = t"
  | (other) p where "D data = Inr p" "trackedScannerType (pm_Type p)" "pm_Event p \<noteq> pv_EventJoined K"
      "handleMessage K D now data t = set_ids (pm_Type p) (ids_of t (pm_Type p)) t"
  | (joined) p where "D data = Inr p" "trackedScannerType (pm_Type p)" "pm_Event p = pv_EventJoined K"
      "handleMessage K D now data t =
         (let ids = ids_of t (pm_Type p);
              t' = set_ids (pm_Type p) (if pm_ScannerID p \<in> set ids then ids else ids @ [pm_ScannerID p])
                     (set_ids (pm_Type p) ids t)
          in if pm_Type p = ''wallet''
             then t'\<lparr>sp_walletMeta := (sp_walletMeta t)(pm_ScannerID p \<mapsto> \<lparr> wm_indexer = pm_Indexer p, wm_lastSeen = now \<rparr>)\<rparr>
             else t')"
  | (left) p where "D data = Inr p" "trackedScannerType (pm_Type p)" "pm_Event p = pv_EventLeft K"
      "handleMessage K D now data t =
         (let t' = set_ids (pm_Type p) (removeAll (pm_ScannerID p) (ids_of t (pm_Type p)))
                     (set_ids (pm_Type p) (ids_of t (pm_Type p)) t)
          in if pm_Type p = ''wallet'' then t'\<lparr>sp_walletMeta := (sp_walletMeta t)(pm_ScannerID p := None)\<rparr> else t')"
proof (cases "D data")
  case (Inl e)
  then show ?thesis by (intro same) (simp add: handleMessage_def)
next
  case (Inr p)
  consider "\<not> trackedScannerType (pm_Type p)" | "trackedScannerType (pm_Type p)" "pm_Event p = pv_EventJoined K"
    | "trackedScannerType (pm_Type p)" "pm_Event p \<noteq> pv_EventJoined K" "pm_Event p = pv_EventLeft K"
    | "trackedScannerType (pm_Type p)" "pm_Event p \<noteq> pv_EventJoined K" "pm_Event p \<noteq> pv_EventLeft K"
    by blast
  then show ?thesis
  proof cases
    case 1
    then show ?thesis using Inr by (intro same) (simp add: handleMessage_def)
  next
    case 2
    then show ?thesis using Inr by (intro joined [of p]) (simp_all add: handleMessage_def Let_def)
  next
    case 3
    then show ?thesis using Inr by (intro left [of p]) (simp_all add: handleMessage_def Let_def)
  next
    case 4
    then show ?thesis using Inr by (intro other [of p]) (simp_all add: handleMessage_def Let_def)
  qed
qed

lemma sp_byType_meta [simp]: "sp_byType (t\<lparr>sp_walletMeta := m\<rparr>) = sp_byType t" by simp

lemma message_inv:
  assumes "presence_inv t"
  shows "presence_inv (handleMessage K D now data t)"
proof -
  have ok: "types_ok (sp_byType t)" and d: "dom (sp_walletMeta t) = set (ids_of t ''wallet'')"
    using assms by (simp_all add: presence_inv_iff)
  note i = ids_of_distinct [OF ok]
  show ?thesis
  proof (cases rule: message_cases [of K D now data t])
    case same
    then show ?thesis using assms by simp
  next
    case (other p)
    then show ?thesis using ok d i by (simp add: presence_inv_iff)
  next
    case (joined p)
    then show ?thesis using ok d i by (auto simp: presence_inv_iff Let_def)
  next
    case (left p)
    then show ?thesis using ok d i by (auto simp: presence_inv_iff Let_def distinct_removeAll)
  qed
qed

interpretation presence: invariant_of presence_init "presence_step K" presence_inv
  for K
proof
  fix t :: "'a ScannerPresenceTracker"
  show "presence_init t \<Longrightarrow> presence_inv t"
    by (auto simp: presence_init_def NewScannerPresenceTracker_def presence_inv_def ids_of_def)
  fix t' assume "presence_inv t" "presence_step K t t'"
  from this(2,1) show "presence_inv t'"
  proof cases
    case (heartbeat H kind data)
    then show ?thesis using \<open>presence_inv t\<close>
      by (auto simp: handleHeartbeat_def presence_inv_def ids_of_def split: sum.split option.split)
  qed (simp_all add: message_inv expire_inv)
qed

section \<open>What the answers mean\<close>

lemma indexer_loop_common:
  "indexer_loop unknown meta ids (Some c) = x \<Longrightarrow> x \<noteq> unknown \<Longrightarrow>
     x = c \<and> (\<forall>i\<in>set ids. \<exists>m. meta i = Some m \<and> wm_indexer m = c)"
  by (induction ids) (auto split: option.splits if_splits)

lemma indexer_loop_agree:
  "(\<forall>i\<in>set ids. \<exists>m. meta i = Some m \<and> wm_indexer m = c) \<Longrightarrow> c \<noteq> '''' \<Longrightarrow> indexer_loop unknown meta ids (Some c) = c"
  by (induction ids) auto

lemma OnchainIndexer_iff:
  assumes "x \<noteq> pv_IndexerUnknown K"
  shows "OnchainIndexer K t = x \<longleftrightarrow> x \<noteq> '''' \<and> ids_of t ''wallet'' \<noteq> []
    \<and> (\<forall>i\<in>set (ids_of t ''wallet''). \<exists>m. sp_walletMeta t i = Some m \<and> wm_indexer m = x)"
proof (cases "ids_of t ''wallet''")
  case Nil
  then show ?thesis using assms by (auto simp: OnchainIndexer_def)
next
  case (Cons i ids)
  show ?thesis
  proof (cases "sp_walletMeta t i")
    case None
    then show ?thesis using assms Cons by (auto simp: OnchainIndexer_def)
  next
    case (Some m)
    let ?loop = "indexer_loop (pv_IndexerUnknown K) (sp_walletMeta t) ids (Some (wm_indexer m))"
    let ?all = "\<forall>j\<in>set ids. \<exists>m'. sp_walletMeta t j = Some m' \<and> wm_indexer m' = x"
    have e: "OnchainIndexer K t = (if wm_indexer m = '''' then pv_IndexerUnknown K else ?loop)"
      using Some Cons by (simp add: OnchainIndexer_def)
    have "?loop = x \<longleftrightarrow> wm_indexer m = x \<and> ?all" if "wm_indexer m \<noteq> ''''"
      using indexer_loop_common [of "pv_IndexerUnknown K" "sp_walletMeta t" ids "wm_indexer m" x] assms that
        indexer_loop_agree [of ids "sp_walletMeta t" x] by metis
    then show ?thesis using e assms Some Cons by auto
  qed
qed

lemma listed_iff:
  assumes "presence_inv t"
  shows "(\<exists>i\<in>set (ListScanners t). si_Type i = typ) \<longleftrightarrow> ids_of t typ \<noteq> []"
proof -
  have d: "distinct (map fst (sp_byType t))" using assms by (simp add: presence_inv_def)
  have "(\<exists>i\<in>set (ListScanners t). si_Type i = typ) \<longleftrightarrow> (\<exists>ids. (typ, ids) \<in> set (sp_byType t) \<and> ids \<noteq> [])"
    by (force simp: ListScanners_def map_filter_def split: if_splits)
  also have "\<dots> \<longleftrightarrow> ids_of t typ \<noteq> []"
    unfolding map_of_eq_Some_iff [OF d, symmetric] by (cases "map_of (sp_byType t) typ") (simp_all add: ids_of_def)
  finally show ?thesis .
qed

definition silence_limit :: "'r ScannerPresenceTracker \<Rightarrow> go_duration" where
  "silence_limit t = (if sp_silentAfter t \<le> 0 then walletPresenceSilentAfter else sp_silentAfter t)"

definition announced_within :: "'r ScannerPresenceTracker \<Rightarrow> go_time \<Rightarrow> string \<Rightarrow> bool" where
  "announced_within t now i = (case sp_walletMeta t i of
     None \<Rightarrow> False | Some m \<Rightarrow> time_Sub now (wm_lastSeen m) \<le> silence_limit t)"


definition ex_presence_contract :: presence_contract where
  "ex_presence_contract = \<lparr> pv_EventJoined = ''joined'', pv_EventLeft = ''left'', pv_IndexerUnknown = ''unknown'' \<rparr>"

definition ex_joined :: "unit ScannerPresenceTracker" where
  "ex_joined = handleMessage ex_presence_contract
     (\<lambda>d. Inr \<lparr> pm_Type = ''wallet'', pm_Event = ''joined'', pm_ScannerID = d, pm_Indexer = ''moralis'' \<rparr>)
     100 ''w1'' (NewScannerPresenceTracker None ())"


text \<open>A heartbeat alone makes a scanner available that the list does not show.\<close>

lemma heartbeat_not_listed:
  assumes "sp_redis t = Some R" and "rd_Get R (last_seen_key typ) (sp_store t) = Inr v" and "sp_byType t = []"
  shows "HasScanner typ t \<and> ListScanners t = []"
  using assms by (simp add: HasScanner_def ListScanners_def map_filter_simps)

end
