(* ===== verification/Base64url.thy ===== *)
theory Base64url
  imports Go_Strings
begin

text \<open>
  \<open>base64.RawURLEncoding\<close> of the Go library, the encoding of the session tokens
  (\<open>b64uEncode\<close> and \<open>b64uDecode\<close> of \<open>src/internal/service/auth.go\<close>).  Three bytes
  become four characters of the URL-safe alphabet; a last group of one or two bytes
  becomes two or three characters, with no padding.  Decoding skips carriage
  returns and line feeds, does not look at the unused bits of a last group, and
  reports the offset of the first illegal byte.
\<close>

section \<open>The alphabet\<close>

definition b64_char :: "nat \<Rightarrow> char" where
  "b64_char n = char_of (if n < 26 then n + 65 else if n < 52 then n + 71 else if n < 62 then n - 4
     else if n = 62 then 45 else 95 :: nat)"

definition sextet :: "char \<Rightarrow> nat option" where
  "sextet c =
     (let b = byte c in
      if 65 \<le> b \<and> b \<le> 90 then Some (b - 65) else if 97 \<le> b \<and> b \<le> 122 then Some (b - 71)
      else if 48 \<le> b \<and> b \<le> 57 then Some (b + 4) else if b = 45 then Some 62
      else if b = 95 then Some 63 else None)"

section \<open>Encoding\<close>

fun b64uEncode :: "string \<Rightarrow> string" where
  "b64uEncode [] = []"
| "b64uEncode [x] = [b64_char (byte x div 4), b64_char (byte x mod 4 * 16)]"
| "b64uEncode [x, y] =
     [b64_char (byte x div 4), b64_char (byte x mod 4 * 16 + byte y div 16), b64_char (byte y mod 16 * 4)]"
| "b64uEncode (x # y # z # s) =
     b64_char (byte x div 4) # b64_char (byte x mod 4 * 16 + byte y div 16)
     # b64_char (byte y mod 16 * 4 + byte z div 64) # b64_char (byte z mod 64) # b64uEncode s"

section \<open>Decoding\<close>

definition CorruptInputError :: "nat \<Rightarrow> goerr" where
  "CorruptInputError n = ErrNew (''illegal base64 data at input byte '' @ FormatUint n)"

definition byte_char :: "nat \<Rightarrow> char" where
  "byte_char n = char_of n"

fun decode_loop :: "nat \<Rightarrow> nat list \<Rightarrow> string \<Rightarrow> string result" where
  "decode_loop si q [] =
     (case q of
        [] \<Rightarrow> Inr []
      | [a] \<Rightarrow> Inl (CorruptInputError (si - 1))
      | [a, b] \<Rightarrow> Inr [byte_char (a * 4 + b div 16)]
      | a # b # c # _ \<Rightarrow> Inr [byte_char (a * 4 + b div 16), byte_char (b mod 16 * 16 + c div 4)])"
| "decode_loop si q (x # s) =
     (case sextet x of
        Some v \<Rightarrow>
          (case q of
             [a, b, c] \<Rightarrow>
               rbind (decode_loop (si + 1) [] s) (\<lambda>rest.
                 Inr (byte_char (a * 4 + b div 16) # byte_char (b mod 16 * 16 + c div 4)
                      # byte_char (c mod 4 * 64 + v) # rest))
           | _ \<Rightarrow> decode_loop (si + 1) (q @ [v]) s)
      | None \<Rightarrow> if byte x = 10 \<or> byte x = 13 then decode_loop (si + 1) q s
                else Inl (CorruptInputError si))"

definition b64uDecode :: "string \<Rightarrow> string result" where
  "b64uDecode s = decode_loop 0 [] s"

section \<open>Facts\<close>

lemma sextet_b64_char [simp]: "n < 64 \<Longrightarrow> sextet (b64_char n) = Some n"
  by (auto simp: sextet_def b64_char_def Let_def byte_char_of)

lemma byte_char_byte [simp]: "byte_char (byte c) = c"
  by (simp add: byte_char_def byte_def)

lemma byte_bounds [simp]:
  "byte x div 4 < 64" "byte x mod 4 * 16 < 64" "byte x mod 4 * 16 + byte y div 16 < 64"
  "byte y mod 16 * 4 < 64" "byte y mod 16 * 4 + byte z div 64 < 64"
  using byte_lt [of x] byte_lt [of y] byte_lt [of z] by linarith+

lemma byte_parts [simp]:
  "byte x div 16 div 16 = 0" "byte x div 64 div 4 = 0"
  "byte x div 16 mod 16 * 16 + byte x mod 16 = byte x" "byte x div 64 mod 4 * 64 + byte x mod 64 = byte x"
proof -
  have x: "byte x < 256" by (rule byte_lt)
  then have q: "byte x div 16 < 16" "byte x div 64 < 4" by linarith+
  then show "byte x div 16 div 16 = 0" "byte x div 64 div 4 = 0" by simp_all
  from q show "byte x div 16 mod 16 * 16 + byte x mod 16 = byte x"
    "byte x div 64 mod 4 * 64 + byte x mod 64 = byte x" by simp_all
qed

lemma b64u_roundtrip_loop: "decode_loop si [] (b64uEncode s) = Inr s"
proof (induction s arbitrary: si rule: b64uEncode.induct)
qed (simp_all add: byte_lt)

lemma b64u_roundtrip [simp]: "b64uDecode (b64uEncode s) = Inr s"
  by (simp add: b64uDecode_def b64u_roundtrip_loop)

lemma b64uEncode_inj: "b64uEncode s = b64uEncode t \<longleftrightarrow> s = t"
  by (metis b64u_roundtrip sum.inject(2))

text \<open>What decodes contains no byte outside the alphabet but line breaks.\<close>

definition b64_byte :: "char \<Rightarrow> bool" where
  "b64_byte c \<longleftrightarrow> sextet c \<noteq> None \<or> byte c = 10 \<or> byte c = 13"

lemma decode_loop_alphabet: "decode_loop si q s = Inr t \<Longrightarrow> list_all b64_byte s"
  by (induction si q s arbitrary: t rule: decode_loop.induct)
    (auto simp: b64_byte_def rbind_eq_Inr_iff split: option.splits list.splits if_splits)

lemma b64uDecode_alphabet: "b64uDecode s = Inr t \<Longrightarrow> list_all b64_byte s"
  unfolding b64uDecode_def by (rule decode_loop_alphabet)

lemma dot_not_b64: "\<not> b64_byte CHR ''.''"
  by (simp add: b64_byte_def sextet_def byte_def)

lemma b64uDecode_no_dot: "b64uDecode s = Inr t \<Longrightarrow> CHR ''.'' \<notin> set s"
  using b64uDecode_alphabet [of s t] dot_not_b64 by (auto simp: list_all_iff)

lemma b64uEncode_Nil_iff [simp]: "b64uEncode s = [] \<longleftrightarrow> s = []"
  by (cases s rule: b64uEncode.cases) simp_all

end
