(* ===== verification/Auth_Tokens.thy ===== *)
theory Auth_Tokens
  imports Base64url
begin

text \<open>
  The hybrid session tokens of \<open>src/internal/service/auth.go\<close> and the ML-DSA signer
  of \<open>src/pkg/pqc/oqs.go\<close>: a JWS with an Ed25519 and an ML-DSA-65 signature over the
  same claims.

  The cryptographic libraries and \<open>encoding/json\<close> on the token structures are the
  record \<open>auth_pkg\<close>; \<open>auth_pkg_ok\<close> says what the code relies on: what a key pair signs
  it verifies, and JSON gives back the ASCII values it was made from.  Signing draws
  randomness: it is an argument.  Fields of the registered claims that the program
  neither sets nor reads are left out.
\<close>

section \<open>Data\<close>

record JWTClaims =
  jc_UserID :: uuid
  jc_Email :: string
  jc_ExpiresAt :: "go_time option"
  jc_IssuedAt :: "go_time option"
  jc_NotBefore :: "go_time option"

record jwsHeader =
  jh_Alg :: string
  jh_Typ :: string
  jh_Kid :: string
  jh_Crit :: "string list"

record jwsSignature =
  js_Protected :: string
  js_Signature :: string

record jwsJSON =
  jws_Payload :: string
  jws_Signatures :: "jwsSignature list"

text \<open>
  A signature algorithm of liboqs: the lengths \<open>OQS_SIG_new\<close> reports for an algorithm
  it has, key generation, signing and verification with a context.
\<close>

record auth_pkg =
  oqs_sig_new :: "string \<Rightarrow> (nat \<times> nat \<times> nat) option"
  oqs_algs :: "string list"
  oqs_keypair :: "string \<Rightarrow> (string \<times> string) option"
  oqs_sign :: "string \<Rightarrow> string \<Rightarrow> string \<Rightarrow> string \<Rightarrow> string \<Rightarrow> string option"
  oqs_verify :: "string \<Rightarrow> string \<Rightarrow> string \<Rightarrow> string \<Rightarrow> string \<Rightarrow> bool"
  ed25519_GenerateKey :: "(string \<times> string) result"
  ed25519_Sign :: "string \<Rightarrow> string \<Rightarrow> string"
  ed25519_Verify :: "string \<Rightarrow> string \<Rightarrow> string \<Rightarrow> bool"
  jwt_NewNumericDate :: "go_time \<Rightarrow> go_time"
  Marshal_claims :: "JWTClaims \<Rightarrow> string result"
  Unmarshal_claims :: "string \<Rightarrow> JWTClaims result"
  Marshal_header :: "jwsHeader \<Rightarrow> string result"
  Unmarshal_header :: "string \<Rightarrow> jwsHeader result"
  Marshal_jws :: "jwsJSON \<Rightarrow> string result"
  Unmarshal_jws :: "string \<Rightarrow> jwsJSON result"

section \<open>The ML-DSA signer\<close>

record MLDSA =
  ml_alg :: string
  ml_ctx :: string
  ml_sig :: bool
  ml_pkLen :: nat
  ml_skLen :: nat
  ml_sLen :: nat
  ml_pk :: string
  ml_sk :: string

text \<open>Taking the address of the first byte of an empty slice panics.\<close>

definition index_panic :: goerr where
  "index_panic = ErrNew ''runtime error: index out of range [0] with length 0''"

definition spaced :: "string list \<Rightarrow> string" where
  "spaced xs = (case xs of [] \<Rightarrow> ''[]'' | y # ys \<Rightarrow> ''['' @ y @ concat (map (\<lambda>z. '' '' @ z) ys) @ '']'')"

definition NewMLDSA :: "auth_pkg \<Rightarrow> string \<Rightarrow> string \<Rightarrow> MLDSA result" where
  "NewMLDSA K alg ctx =
     (case oqs_sig_new K alg of
        None \<Rightarrow> Inl (ErrNew (''OQS_SIG_new('' @ [char_of (34::nat)] @ alg @ [char_of (34::nat)]
                  @ '') returned NULL (maybe disabled at build). Available: '' @ spaced (oqs_algs K)))
      | Some (pkLen, skLen, sLen) \<Rightarrow>
          if pkLen = 0 \<or> skLen = 0 then Inl index_panic
          else case oqs_keypair K alg of
            None \<Rightarrow> Inl (ErrNew ''keypair failed'')
          | Some (pk, sk) \<Rightarrow>
              Inr \<lparr> ml_alg = alg, ml_ctx = ctx, ml_sig = True, ml_pkLen = pkLen, ml_skLen = skLen,
                    ml_sLen = sLen, ml_pk = pk, ml_sk = sk \<rparr>)"

definition MLDSA_Close :: "MLDSA \<Rightarrow> MLDSA" where
  "MLDSA_Close m = m\<lparr>ml_sig := False\<rparr>"

definition MLDSA_Sign :: "auth_pkg \<Rightarrow> string \<Rightarrow> MLDSA \<Rightarrow> string \<Rightarrow> string result" where
  "MLDSA_Sign K rnd m msg =
     (if \<not> ml_sig m then Inl (ErrNew ''oqs signer closed'')
      else if ml_sLen m = 0 \<or> msg = [] then Inl index_panic
      else case oqs_sign K (ml_alg m) rnd msg (ml_ctx m) (ml_sk m) of
        None \<Rightarrow> Inl (ErrNew ''mldsa sign failed'')
      | Some sig \<Rightarrow> Inr sig)"

definition MLDSA_Verify :: "auth_pkg \<Rightarrow> MLDSA \<Rightarrow> string \<Rightarrow> string \<Rightarrow> bool result" where
  "MLDSA_Verify K m msg sig =
     (if \<not> ml_sig m then Inl (ErrNew ''oqs signer closed'')
      else if sig = [] \<or> msg = [] then Inr False
      else Inr (oqs_verify K (ml_alg m) msg sig (ml_ctx m) (ml_pk m)))"

section \<open>The service\<close>

definition MLDSA_ALG :: string where "MLDSA_ALG = ''ML-DSA-65''"
definition EDDSA_ALG :: string where "EDDSA_ALG = ''EdDSA''"

record serverKeys =
  edPriv :: string
  edPub :: string
  keys_pqc :: MLDSA

definition newServerKeys :: "auth_pkg \<Rightarrow> serverKeys result" where
  "newServerKeys K =
     rbind (ed25519_GenerateKey K) (\<lambda>(pub, priv).
     rbind (NewMLDSA K MLDSA_ALG ''JWT'') (\<lambda>m.
     Inr \<lparr> edPriv = priv, edPub = pub, keys_pqc = m \<rparr>))"

record AuthService =
  as_jwtSecret :: string
  as_jwtExpiry :: go_duration
  as_keys :: "serverKeys option"

definition NewAuthService :: "auth_pkg \<Rightarrow> string \<Rightarrow> go_duration \<Rightarrow> AuthService result" where
  "NewAuthService K jwtSecret jwtExpiry =
     rbind (wrap_err ''failed to initialize PQC keys'' (newServerKeys K)) (\<lambda>keys.
     Inr \<lparr> as_jwtSecret = jwtSecret, as_jwtExpiry = jwtExpiry, as_keys = Some keys \<rparr>)"

definition Auth_Close :: "AuthService \<Rightarrow> AuthService" where
  "Auth_Close s = s\<lparr>as_keys := map_option (\<lambda>k. k\<lparr>keys_pqc := MLDSA_Close (keys_pqc k)\<rparr>) (as_keys s)\<rparr>"

definition keys_missing :: goerr where
  "keys_missing = ErrNew ''PQC keys not initialized''"

section \<open>Issuing a token\<close>

definition signingInput :: "string \<Rightarrow> string \<Rightarrow> string" where
  "signingInput protectedB64 payloadB64 = protectedB64 @ ''.'' @ payloadB64"

text \<open>\<open>x, _ := json.Marshal(v)\<close>: the bytes are nil when it fails.\<close>

definition ignoring_error :: "string result \<Rightarrow> string" where
  "ignoring_error r = (case r of Inl _ \<Rightarrow> [] | Inr b \<Rightarrow> b)"

definition ed_header :: jwsHeader where
  "ed_header = \<lparr> jh_Alg = EDDSA_ALG, jh_Typ = ''JWT'', jh_Kid = ''ed25519-cafe-1'', jh_Crit = [] \<rparr>"

definition pqc_header :: jwsHeader where
  "pqc_header = \<lparr> jh_Alg = MLDSA_ALG, jh_Typ = ''JWT'', jh_Kid = ''mldsa65-cafe-1'', jh_Crit = [''alg''] \<rparr>"

definition mintHybridJWT :: "auth_pkg \<Rightarrow> string \<Rightarrow> AuthService \<Rightarrow> JWTClaims \<Rightarrow> string result" where
  "mintHybridJWT K rnd s claims =
     (case as_keys s of
        None \<Rightarrow> Inl keys_missing
      | Some keys \<Rightarrow>
          let payloadB64 = b64uEncode (ignoring_error (Marshal_claims K claims));
              h1b64 = b64uEncode (ignoring_error (Marshal_header K ed_header));
              sig1 = ed25519_Sign K (edPriv keys) (signingInput h1b64 payloadB64);
              h2b64 = b64uEncode (ignoring_error (Marshal_header K pqc_header))
          in case MLDSA_Sign K rnd (keys_pqc keys) (signingInput h2b64 payloadB64) of
               Inl err \<Rightarrow> Inl err
             | Inr sig2 \<Rightarrow>
                 let obj = \<lparr> jws_Payload = payloadB64, jws_Signatures =
                       [\<lparr> js_Protected = h1b64, js_Signature = b64uEncode sig1 \<rparr>,
                        \<lparr> js_Protected = h2b64, js_Signature = b64uEncode sig2 \<rparr>] \<rparr>
                 in Inr (b64uEncode (ignoring_error (Marshal_jws K obj))))"

definition session_claims :: "auth_pkg \<Rightarrow> AuthService \<Rightarrow> go_time \<Rightarrow> uuid \<Rightarrow> string \<Rightarrow> JWTClaims" where
  "session_claims K s now userID email =
     \<lparr> jc_UserID = userID, jc_Email = email,
       jc_ExpiresAt = Some (jwt_NewNumericDate K (now + as_jwtExpiry s)),
       jc_IssuedAt = Some (jwt_NewNumericDate K now),
       jc_NotBefore = Some (jwt_NewNumericDate K now) \<rparr>"

definition generateToken :: "auth_pkg \<Rightarrow> string \<Rightarrow> AuthService \<Rightarrow> go_time \<Rightarrow> uuid \<Rightarrow> string \<Rightarrow> string result" where
  "generateToken K rnd s now userID email = mintHybridJWT K rnd s (session_claims K s now userID email)"

section \<open>Checking a token\<close>

definition parseHybridJWS :: "auth_pkg \<Rightarrow> string \<Rightarrow> jwsJSON result" where
  "parseHybridJWS K token =
     rbind (wrap_err ''token decode'' (b64uDecode token)) (\<lambda>raw.
     rbind (wrap_err ''token json'' (Unmarshal_jws K raw)) (\<lambda>obj.
     if jws_Payload obj = '''' \<or> length (jws_Signatures obj) < 2
     then Inl (ErrNew ''missing payload or signatures'') else Inr obj))"

definition expired :: "go_time \<Rightarrow> JWTClaims \<Rightarrow> bool" where
  "expired now c \<longleftrightarrow> (case jc_ExpiresAt c of None \<Rightarrow> False | Some t \<Rightarrow> now > t)"

definition parseAndValidateClaims :: "auth_pkg \<Rightarrow> go_time \<Rightarrow> string \<Rightarrow> JWTClaims result" where
  "parseAndValidateClaims K now payloadB64 =
     rbind (wrap_err ''payload decode'' (b64uDecode payloadB64)) (\<lambda>payload.
     rbind (wrap_err ''claims'' (Unmarshal_claims K payload)) (\<lambda>c.
     if expired now c then Inl (ErrNew ''token expired'') else Inr c))"

definition verifySignature :: "auth_pkg \<Rightarrow> serverKeys \<Rightarrow> jwsSignature \<Rightarrow> string \<Rightarrow> (bool \<times> bool) result" where
  "verifySignature K keys sig payloadB64 =
     rbind (wrap_err ''protected decode'' (b64uDecode (js_Protected sig))) (\<lambda>hb.
     rbind (wrap_err ''header parse'' (Unmarshal_header K hb)) (\<lambda>h.
     rbind (wrap_err ''sig decode'' (b64uDecode (js_Signature sig))) (\<lambda>sigBytes.
     let input = signingInput (js_Protected sig) payloadB64 in
     if jh_Alg h = EDDSA_ALG then Inr (ed25519_Verify K (edPub keys) input sigBytes, False)
     else if jh_Alg h = MLDSA_ALG
     then rbind (MLDSA_Verify K (keys_pqc keys) input sigBytes) (\<lambda>ok. Inr (False, ok))
     else Inr (False, False))))"

fun signatures_loop ::
  "auth_pkg \<Rightarrow> serverKeys \<Rightarrow> string \<Rightarrow> jwsSignature list \<Rightarrow> bool \<Rightarrow> bool \<Rightarrow> (bool \<times> bool) result" where
  "signatures_loop K keys payload [] edOK pqcOK = Inr (edOK, pqcOK)"
| "signatures_loop K keys payload (sig # sigs) edOK pqcOK =
     (case verifySignature K keys sig payload of
        Inl err \<Rightarrow> Inl err
      | Inr (edVerified, pqcVerified) \<Rightarrow>
          signatures_loop K keys payload sigs (edVerified \<or> edOK) (pqcVerified \<or> pqcOK))"

definition verb_v :: "bool \<Rightarrow> string" where
  "verb_v b = (if b then ''true'' else ''false'')"

definition verifyHybridJWT :: "auth_pkg \<Rightarrow> AuthService \<Rightarrow> go_time \<Rightarrow> string \<Rightarrow> JWTClaims result" where
  "verifyHybridJWT K s now token =
     (case as_keys s of
        None \<Rightarrow> Inl keys_missing
      | Some keys \<Rightarrow>
          rbind (parseHybridJWS K token) (\<lambda>obj.
          rbind (parseAndValidateClaims K now (jws_Payload obj)) (\<lambda>c.
          rbind (signatures_loop K keys (jws_Payload obj) (jws_Signatures obj) False False) (\<lambda>(edOK, pqcOK).
          if \<not> edOK \<or> \<not> pqcOK
          then Inl (ErrNew (''hybrid signature invalid (ed='' @ verb_v edOK @ '' pqc='' @ verb_v pqcOK @ '')''))
          else Inr c))))"

definition ValidateToken :: "auth_pkg \<Rightarrow> AuthService \<Rightarrow> go_time \<Rightarrow> string \<Rightarrow> JWTClaims result" where
  "ValidateToken K s now tokenString = verifyHybridJWT K s now tokenString"


section \<open>What the code relies on\<close>

definition ascii :: "string \<Rightarrow> bool" where
  "ascii s \<longleftrightarrow> list_all (\<lambda>c. byte c < 128) s"

text \<open>A date JSON keeps: a whole second between the years 1 and 9999.\<close>

definition json_date :: "go_time option \<Rightarrow> bool" where
  "json_date d \<longleftrightarrow> (case d of None \<Rightarrow> True | Some t \<Rightarrow>
     0 \<le> t \<and> t < seconds 315537897600 \<and> t mod seconds 1 = 0)"

definition json_claims :: "JWTClaims \<Rightarrow> bool" where
  "json_claims c \<longleftrightarrow> ascii (jc_Email c) \<and> json_date (jc_ExpiresAt c) \<and> json_date (jc_IssuedAt c)
     \<and> json_date (jc_NotBefore c)"

definition json_header :: "jwsHeader \<Rightarrow> bool" where
  "json_header h \<longleftrightarrow> ascii (jh_Alg h) \<and> ascii (jh_Typ h) \<and> ascii (jh_Kid h) \<and> list_all ascii (jh_Crit h)"

definition json_jws :: "jwsJSON \<Rightarrow> bool" where
  "json_jws o1 \<longleftrightarrow> ascii (jws_Payload o1)
     \<and> list_all (\<lambda>s. ascii (js_Protected s) \<and> ascii (js_Signature s)) (jws_Signatures o1)"

definition gives_back :: "('a \<Rightarrow> string result) \<Rightarrow> (string \<Rightarrow> 'a result) \<Rightarrow> 'a \<Rightarrow> bool" where
  "gives_back enc dec x \<longleftrightarrow> (\<exists>b. enc x = Inr b \<and> dec b = Inr x)"

definition json_ok :: "auth_pkg \<Rightarrow> bool" where
  "json_ok K \<longleftrightarrow>
     (\<forall>c. json_claims c \<longrightarrow> gives_back (Marshal_claims K) (Unmarshal_claims K) c)
   \<and> (\<forall>h. json_header h \<longrightarrow> gives_back (Marshal_header K) (Unmarshal_header K) h)
   \<and> (\<forall>j. json_jws j \<longrightarrow> gives_back (Marshal_jws K) (Unmarshal_jws K) j)
   \<and> (\<forall>c b. Marshal_claims K c = Inr b \<longrightarrow> b \<noteq> [])"

definition signatures_ok :: "auth_pkg \<Rightarrow> bool" where
  "signatures_ok K \<longleftrightarrow>
     (\<forall>pub priv m. ed25519_GenerateKey K = Inr (pub, priv) \<longrightarrow> ed25519_Verify K pub m (ed25519_Sign K priv m))
   \<and> (\<forall>alg pk sk rnd m ctx s. oqs_keypair K alg = Some (pk, sk) \<longrightarrow> oqs_sign K alg rnd m ctx sk = Some s
        \<longrightarrow> s \<noteq> [] \<and> oqs_verify K alg m s ctx pk)"

definition auth_pkg_ok :: "auth_pkg \<Rightarrow> bool" where
  "auth_pkg_ok K \<longleftrightarrow> json_ok K \<and> signatures_ok K \<and> (\<forall>t. jwt_NewNumericDate K t = t - t mod seconds 1)"

section \<open>Facts\<close>

lemma gives_backD: "gives_back enc dec x \<Longrightarrow> dec (ignoring_error (enc x)) = Inr x"
  by (auto simp: gives_back_def ignoring_error_def)

lemma ascii_b64_char: "n < 64 \<Longrightarrow> byte (b64_char n) < 128"
  by (auto simp: b64_char_def)

lemma ascii_encode [simp]: "ascii (b64uEncode s)"
  by (induction s rule: b64uEncode.induct) (simp_all add: ascii_def ascii_b64_char)

lemma token_headers [simp]: "json_header ed_header" "json_header pqc_header"
  by (simp_all add: json_header_def ed_header_def pqc_header_def EDDSA_ALG_def MLDSA_ALG_def ascii_def byte_def)

lemma token_algs [simp]: "jh_Alg ed_header = EDDSA_ALG" "jh_Alg pqc_header = MLDSA_ALG" "MLDSA_ALG \<noteq> EDDSA_ALG"
  by (simp_all add: ed_header_def pqc_header_def EDDSA_ALG_def MLDSA_ALG_def)

lemma signingInput_not_Nil [simp]: "signingInput p q \<noteq> []"
  by (simp add: signingInput_def)

text \<open>The protected header of a signature that decodes has no dot, so the input tells the payload.\<close>

lemma signingInput_inj:
  assumes "signingInput p q = signingInput p' q'" and "b64uDecode p = Inr b" and "b64uDecode p' = Inr b'"
  shows "q = q'"
  using split_at_sep [of p _ q p' q'] assms b64uDecode_no_dot [OF assms(2)] b64uDecode_no_dot [OF assms(3)]
  by (simp add: signingInput_def)

lemma keys_shape:
  assumes "NewAuthService K secret expiry = Inr s"
  obtains keys m where "as_keys s = Some keys" and "as_jwtExpiry s = expiry"
    and "ed25519_GenerateKey K = Inr (edPub keys, edPriv keys)"
    and "keys_pqc keys = m" and "ml_sig m" and "ml_alg m = MLDSA_ALG"
    and "oqs_keypair K MLDSA_ALG = Some (ml_pk m, ml_sk m)"
proof -
  obtain keys where n: "newServerKeys K = Inr keys" and s: "as_keys s = Some keys" "as_jwtExpiry s = expiry"
    using assms by (auto simp: NewAuthService_def rbind_eq_Inr_iff)
  obtain pub priv m where g: "ed25519_GenerateKey K = Inr (pub, priv)" and m: "NewMLDSA K MLDSA_ALG ''JWT'' = Inr m"
    and k: "keys = \<lparr> edPriv = priv, edPub = pub, keys_pqc = m \<rparr>"
    using n by (auto simp: newServerKeys_def rbind_eq_Inr_iff)
  have "ml_sig m" "ml_alg m = MLDSA_ALG" "oqs_keypair K MLDSA_ALG = Some (ml_pk m, ml_sk m)"
    using m by (auto simp: NewMLDSA_def split: option.splits if_splits)
  with s g k show ?thesis by (intro that [of keys m]) simp_all
qed


section \<open>Accepting the service's own tokens\<close>

lemma minted_signatures:
  assumes j: "json_ok K" and g: "signatures_ok K"
    and ed: "ed25519_GenerateKey K = Inr (edPub keys, edPriv keys)"
    and m: "keys_pqc keys = m" "ml_sig m" "oqs_keypair K (ml_alg m) = Some (ml_pk m, ml_sk m)"
    and sg: "MLDSA_Sign K rnd m (signingInput (b64uEncode (ignoring_error (Marshal_header K pqc_header))) p) = Inr sig2"
  shows "verifySignature K keys \<lparr> js_Protected = b64uEncode (ignoring_error (Marshal_header K ed_header)),
           js_Signature = b64uEncode (ed25519_Sign K (edPriv keys)
             (signingInput (b64uEncode (ignoring_error (Marshal_header K ed_header))) p)) \<rparr> p = Inr (True, False)"
    and "verifySignature K keys \<lparr> js_Protected = b64uEncode (ignoring_error (Marshal_header K pqc_header)),
           js_Signature = b64uEncode sig2 \<rparr> p = Inr (False, True)"
proof -
  have h: "Unmarshal_header K (ignoring_error (Marshal_header K h)) = Inr h" if "json_header h" for h
    using j that by (intro gives_backD) (simp add: json_ok_def)
  have e: "ed25519_Verify K (edPub keys) i (ed25519_Sign K (edPriv keys) i)" for i
    using g ed by (simp add: signatures_ok_def)
  show "verifySignature K keys \<lparr> js_Protected = b64uEncode (ignoring_error (Marshal_header K ed_header)),
           js_Signature = b64uEncode (ed25519_Sign K (edPriv keys)
             (signingInput (b64uEncode (ignoring_error (Marshal_header K ed_header))) p)) \<rparr> p = Inr (True, False)"
    by (simp add: verifySignature_def h e Let_def)
  let ?i = "signingInput (b64uEncode (ignoring_error (Marshal_header K pqc_header))) p"
  have "oqs_sign K (ml_alg m) rnd ?i (ml_ctx m) (ml_sk m) = Some sig2"
    using sg m by (auto simp: MLDSA_Sign_def split: if_splits option.splits)
  then have "sig2 \<noteq> [] \<and> oqs_verify K (ml_alg m) ?i sig2 (ml_ctx m) (ml_pk m)"
    using g m unfolding signatures_ok_def by blast
  then have "MLDSA_Verify K m ?i sig2 = Inr True"
    using m by (simp add: MLDSA_Verify_def)
  then show "verifySignature K keys \<lparr> js_Protected = b64uEncode (ignoring_error (Marshal_header K pqc_header)),
           js_Signature = b64uEncode sig2 \<rparr> p = Inr (False, True)"
    by (simp add: verifySignature_def h Let_def m)
qed

lemma mint_validates:
  assumes K: "json_ok K" "signatures_ok K" and A: "NewAuthService K secret expiry = Inr s"
    and c: "json_claims c" and mint: "mintHybridJWT K rnd s c = Inr tok"
  shows "ValidateToken K s now tok = (if expired now c then Inl (ErrNew ''token expired'') else Inr c)"
proof -
  obtain keys m where k: "as_keys s = Some keys" and ed: "ed25519_GenerateKey K = Inr (edPub keys, edPriv keys)"
    and m: "keys_pqc keys = m" "ml_sig m" "ml_alg m = MLDSA_ALG" "oqs_keypair K MLDSA_ALG = Some (ml_pk m, ml_sk m)"
    using keys_shape [OF A] by metis
  let ?p = "b64uEncode (ignoring_error (Marshal_claims K c))"
  let ?h1 = "b64uEncode (ignoring_error (Marshal_header K ed_header))"
  let ?h2 = "b64uEncode (ignoring_error (Marshal_header K pqc_header))"
  let ?sig1 = "ed25519_Sign K (edPriv keys) (signingInput ?h1 ?p)"
  obtain sig2 where s2: "MLDSA_Sign K rnd m (signingInput ?h2 ?p) = Inr sig2"
    and tok: "tok = b64uEncode (ignoring_error (Marshal_jws K \<lparr> jws_Payload = ?p, jws_Signatures =
         [\<lparr> js_Protected = ?h1, js_Signature = b64uEncode ?sig1 \<rparr>, \<lparr> js_Protected = ?h2, js_Signature = b64uEncode sig2 \<rparr>] \<rparr>))"
    using mint k m by (auto simp: mintHybridJWT_def Let_def split: sum.splits)
  let ?obj = "\<lparr> jws_Payload = ?p, jws_Signatures =
         [\<lparr> js_Protected = ?h1, js_Signature = b64uEncode ?sig1 \<rparr>, \<lparr> js_Protected = ?h2, js_Signature = b64uEncode sig2 \<rparr>] \<rparr>"
  have c2: "Unmarshal_claims K (ignoring_error (Marshal_claims K c)) = Inr c"
    using K c by (intro gives_backD) (simp add: json_ok_def)
  have o2: "Unmarshal_jws K (ignoring_error (Marshal_jws K ?obj)) = Inr ?obj"
    using K by (intro gives_backD) (simp add: json_ok_def json_jws_def)
  have "gives_back (Marshal_claims K) (Unmarshal_claims K) c" using K c by (simp add: json_ok_def)
  then have p: "?p \<noteq> []"
    using K by (auto simp: gives_back_def json_ok_def ignoring_error_def)
  have parse: "parseHybridJWS K tok = Inr ?obj"
    using p by (simp add: parseHybridJWS_def tok o2)
  have claims: "parseAndValidateClaims K now ?p = (if expired now c then Inl (ErrNew ''token expired'') else Inr c)"
    by (simp add: parseAndValidateClaims_def c2)
  have kp: "oqs_keypair K (ml_alg m) = Some (ml_pk m, ml_sk m)" using m by simp
  note sigs = minted_signatures [OF K ed m(1,2) kp s2]
  show ?thesis
    by (simp add: ValidateToken_def verifyHybridJWT_def k parse claims sigs)
qed

lemma session_claims_json:
  assumes "auth_pkg_ok K" and "ascii email" and "0 \<le> now" and "0 \<le> now + as_jwtExpiry s"
    and "now < seconds 315537897600" and "now + as_jwtExpiry s < seconds 315537897600"
  shows "json_claims (session_claims K s now u email)"
proof -
  have t: "jwt_NewNumericDate K t = t - t mod seconds 1" for t
    using assms(1) by (simp add: auth_pkg_ok_def)
  have d: "json_date (Some (t - t mod seconds 1))" if "0 \<le> t" "t < seconds 315537897600" for t
  proof -
    have "0 < seconds 1" by (simp add: seconds_def)
    then have "t mod seconds 1 \<le> t" "0 \<le> t mod seconds 1" "(t - t mod seconds 1) mod seconds 1 = 0"
      using that by (simp_all add: zmod_le_nonneg_dividend mod_diff_right_eq)
    with that show ?thesis by (simp add: json_date_def)
  qed
  show ?thesis using assms d by (simp add: json_claims_def session_claims_def t)
qed


section \<open>Accepting only issued tokens\<close>

text \<open>What the two keys sign for a token with the claims \<open>c\<close>.\<close>

definition signed_by :: "auth_pkg \<Rightarrow> jwsHeader \<Rightarrow> JWTClaims \<Rightarrow> string" where
  "signed_by K h c = signingInput (b64uEncode (ignoring_error (Marshal_header K h)))
     (b64uEncode (ignoring_error (Marshal_claims K c)))"

text \<open>
  A scheme is unforgeable for the claims \<open>issued\<close> when its public key verifies only
  what was signed for one of them.
\<close>

definition ed_unforgeable :: "auth_pkg \<Rightarrow> serverKeys \<Rightarrow> JWTClaims set \<Rightarrow> bool" where
  "ed_unforgeable K keys issued \<longleftrightarrow>
     (\<forall>m sig. ed25519_Verify K (edPub keys) m sig \<longrightarrow> m \<in> signed_by K ed_header ` issued)"

definition pqc_unforgeable :: "auth_pkg \<Rightarrow> serverKeys \<Rightarrow> JWTClaims set \<Rightarrow> bool" where
  "pqc_unforgeable K keys issued \<longleftrightarrow>
     (\<forall>m sig. MLDSA_Verify K (keys_pqc keys) m sig = Inr True \<longrightarrow> m \<in> signed_by K pqc_header ` issued)"

lemma signatures_loop_ok:
  "signatures_loop K keys p sigs a b = Inr (edOK, pqcOK) \<Longrightarrow>
     (edOK \<longrightarrow> a \<or> (\<exists>sig\<in>set sigs. \<exists>y. verifySignature K keys sig p = Inr (True, y)))
   \<and> (pqcOK \<longrightarrow> b \<or> (\<exists>sig\<in>set sigs. \<exists>y. verifySignature K keys sig p = Inr (y, True)))"
proof (induction sigs arbitrary: a b)
  case (Cons sig sigs)
  obtain x y where v: "verifySignature K keys sig p = Inr (x, y)"
    and r: "signatures_loop K keys p sigs (x \<or> a) (y \<or> b) = Inr (edOK, pqcOK)"
    using Cons.prems by (auto split: sum.splits prod.splits)
  from Cons.IH [OF r] v show ?case by (cases x; cases y) auto
qed simp

lemma verified_ed:
  assumes "verifySignature K keys sig p = Inr (True, y)"
  shows "\<exists>hb sb. b64uDecode (js_Protected sig) = Inr hb
    \<and> ed25519_Verify K (edPub keys) (signingInput (js_Protected sig) p) sb"
  using assms by (auto simp: verifySignature_def rbind_eq_Inr_iff Let_def split: if_splits)

lemma verified_pqc:
  assumes "verifySignature K keys sig p = Inr (y, True)"
  shows "\<exists>hb sb. b64uDecode (js_Protected sig) = Inr hb
    \<and> MLDSA_Verify K (keys_pqc keys) (signingInput (js_Protected sig) p) sb = Inr True"
  using assms by (auto simp: verifySignature_def rbind_eq_Inr_iff Let_def split: if_splits)

lemma signed_payload:
  assumes "signingInput q p \<in> signed_by K h ` issued" and "b64uDecode q = Inr hb"
  shows "\<exists>c\<in>issued. p = b64uEncode (ignoring_error (Marshal_claims K c))"
  using assms(1)
proof
  fix c
  assume c: "signingInput q p = signed_by K h c" and i: "c \<in> issued"
  have "p = b64uEncode (ignoring_error (Marshal_claims K c))"
    by (rule signingInput_inj [OF c [unfolded signed_by_def] assms(2) b64u_roundtrip])
  with i show ?thesis by blast
qed

text \<open>Both signatures are over the payload: each scheme alone ties the payload to an issued token.\<close>

lemma accepted_payload:
  assumes "verifyHybridJWT K s now tok = Inr c" and "as_keys s = Some keys"
    and forge: "ed_unforgeable K keys issued \<or> pqc_unforgeable K keys issued"
  shows "\<exists>obj. parseHybridJWS K tok = Inr obj \<and> parseAndValidateClaims K now (jws_Payload obj) = Inr c
    \<and> (\<exists>c'\<in>issued. jws_Payload obj = b64uEncode (ignoring_error (Marshal_claims K c')))"
proof -
  obtain obj where p: "parseHybridJWS K tok = Inr obj" "parseAndValidateClaims K now (jws_Payload obj) = Inr c"
    and l: "signatures_loop K keys (jws_Payload obj) (jws_Signatures obj) False False = Inr (True, True)"
    using assms(1,2) by (auto simp: verifyHybridJWT_def rbind_eq_Inr_iff split: if_splits)
  obtain s1 y1 s2 y2 where v1: "verifySignature K keys s1 (jws_Payload obj) = Inr (True, y1)"
    and v2: "verifySignature K keys s2 (jws_Payload obj) = Inr (y2, True)"
    using signatures_loop_ok [OF l] by blast
  obtain q hb h where "b64uDecode q = Inr hb" and "signingInput q (jws_Payload obj) \<in> signed_by K h ` issued"
    using forge verified_ed [OF v1] verified_pqc [OF v2]
    unfolding ed_unforgeable_def pqc_unforgeable_def by blast
  with p signed_payload show ?thesis by blast
qed

lemma accepted_issued:
  assumes "json_ok K" and "as_keys s = Some keys" and "ed_unforgeable K keys issued \<or> pqc_unforgeable K keys issued"
    and "\<forall>c\<in>issued. json_claims c" and "ValidateToken K s now tok = Inr c"
  shows "c \<in> issued \<and> \<not> expired now c"
proof -
  obtain obj :: jwsJSON and c' where c': "c' \<in> issued" and p: "jws_Payload obj = b64uEncode (ignoring_error (Marshal_claims K c'))"
    and v: "parseAndValidateClaims K now (jws_Payload obj) = Inr c"
    using accepted_payload [OF assms(5) [unfolded ValidateToken_def] assms(2,3)] by blast
  have "Unmarshal_claims K (ignoring_error (Marshal_claims K c')) = Inr c'"
    using assms(1,4) c' by (intro gives_backD) (simp add: json_ok_def)
  then have "c = c' \<and> \<not> expired now c"
    using v by (simp add: parseAndValidateClaims_def p split: if_splits)
  with c' show ?thesis by auto
qed


section \<open>A concrete package\<close>

text \<open>
  A package that meets \<open>auth_pkg_ok\<close>: structures are written as fields, each closed by
  a byte that is not ASCII; a signature is the key and the message.
\<close>

definition field_end :: char where "field_end = char_of (255::nat)"

definition write_fields :: "string list \<Rightarrow> string" where
  "write_fields xs = concat (map (\<lambda>s. s @ [field_end]) xs)"

fun read_fields :: "string \<Rightarrow> string \<Rightarrow> string list" where
  "read_fields acc [] = []"
| "read_fields acc (c # s) = (if c = field_end then rev acc # read_fields [] s else read_fields (c # acc) s)"

definition write_date :: "go_time option \<Rightarrow> string" where
  "write_date d = (case d of None \<Rightarrow> '''' | Some t \<Rightarrow> FormatUint (nat t))"

definition read_date :: "string \<Rightarrow> go_time option" where
  "read_date s = (if s = '''' then None else Some (int (digits_value s)))"

definition write_claims :: "JWTClaims \<Rightarrow> string result" where
  "write_claims c = Inr (write_fields [FormatUint (unat (jc_UserID c)), jc_Email c, write_date (jc_ExpiresAt c),
     write_date (jc_IssuedAt c), write_date (jc_NotBefore c)])"

definition bad_json :: goerr where "bad_json = ErrNew ''invalid character''"

definition read_claims :: "string \<Rightarrow> JWTClaims result" where
  "read_claims s = (case read_fields [] s of
     [u, e, x, i, n] \<Rightarrow> Inr \<lparr> jc_UserID = of_nat (digits_value u), jc_Email = e, jc_ExpiresAt = read_date x,
        jc_IssuedAt = read_date i, jc_NotBefore = read_date n \<rparr>
   | _ \<Rightarrow> Inl bad_json)"

definition write_header :: "jwsHeader \<Rightarrow> string result" where
  "write_header h = Inr (write_fields ([jh_Alg h, jh_Typ h, jh_Kid h] @ jh_Crit h))"

definition read_header :: "string \<Rightarrow> jwsHeader result" where
  "read_header s = (case read_fields [] s of
     a # t # k # crit \<Rightarrow> Inr \<lparr> jh_Alg = a, jh_Typ = t, jh_Kid = k, jh_Crit = crit \<rparr>
   | _ \<Rightarrow> Inl bad_json)"

fun read_signatures :: "string list \<Rightarrow> jwsSignature list" where
  "read_signatures (p # s # xs) = \<lparr> js_Protected = p, js_Signature = s \<rparr> # read_signatures xs"
| "read_signatures _ = []"

definition write_jws :: "jwsJSON \<Rightarrow> string result" where
  "write_jws j = Inr (write_fields (jws_Payload j
     # concat (map (\<lambda>s. [js_Protected s, js_Signature s]) (jws_Signatures j))))"

definition read_jws :: "string \<Rightarrow> jwsJSON result" where
  "read_jws s = (case read_fields [] s of
     p # xs \<Rightarrow> Inr \<lparr> jws_Payload = p, jws_Signatures = read_signatures xs \<rparr>
   | _ \<Rightarrow> Inl bad_json)"

definition ex_auth :: "(string \<Rightarrow> bool) \<Rightarrow> auth_pkg" where
  "ex_auth allowed = \<lparr>
     oqs_sig_new = (\<lambda>alg. if alg = MLDSA_ALG then Some (1952, 4032, 3309) else None),
     oqs_algs = [MLDSA_ALG], oqs_keypair = (\<lambda>alg. Some (''pk'', ''sk'')),
     oqs_sign = (\<lambda>alg rnd m ctx sk. if allowed m \<and> m \<noteq> [] then Some (ctx @ m) else None),
     oqs_verify = (\<lambda>alg m s ctx pk. s = ctx @ m \<and> m \<noteq> [] \<and> allowed m),
     ed25519_GenerateKey = Inr (''pub'', ''priv''), ed25519_Sign = (\<lambda>priv m. m),
     ed25519_Verify = (\<lambda>pub m s. s = m),
     jwt_NewNumericDate = (\<lambda>t. t - t mod seconds 1),
     Marshal_claims = write_claims, Unmarshal_claims = read_claims,
     Marshal_header = write_header, Unmarshal_header = read_header,
     Marshal_jws = write_jws, Unmarshal_jws = read_jws \<rparr>"

lemma read_fields_step:
  "ascii s \<Longrightarrow> read_fields acc (s @ field_end # t) = (rev acc @ s) # read_fields [] t"
proof (induction s arbitrary: acc)
  case (Cons c s)
  then have "c \<noteq> field_end" by (auto simp: ascii_def field_end_def)
  with Cons show ?case by (simp add: ascii_def)
qed simp

lemma read_write_fields: "list_all ascii xs \<Longrightarrow> read_fields [] (write_fields xs) = xs"
  by (induction xs) (simp_all add: write_fields_def read_fields_step)

lemma ascii_FormatUint [simp]: "ascii (FormatUint n)"
  using FormatUint_digits [of n] by (auto simp: ascii_def list_all_iff is_digit_def)


lemma ascii_write_date [simp]: "ascii (write_date d)"
  by (simp add: write_date_def ascii_def [of "''''"] split: option.splits)

lemma read_write_date [simp]: "json_date d \<Longrightarrow> read_date (write_date d) = d"
  using FormatUint_digits by (simp add: read_date_def write_date_def json_date_def digits_value_FormatUint split: option.splits)

lemma ex_json_ok: "json_ok (ex_auth allowed)"
proof -
  have c: "gives_back write_claims read_claims c" if "json_claims c" for c
  proof -
    have "read_fields [] (write_fields [FormatUint (unat (jc_UserID c)), jc_Email c, write_date (jc_ExpiresAt c),
        write_date (jc_IssuedAt c), write_date (jc_NotBefore c)])
      = [FormatUint (unat (jc_UserID c)), jc_Email c, write_date (jc_ExpiresAt c),
        write_date (jc_IssuedAt c), write_date (jc_NotBefore c)]"
      using that by (intro read_write_fields) (simp add: json_claims_def)
    then show ?thesis
      using that by (simp add: gives_back_def write_claims_def read_claims_def json_claims_def digits_value_FormatUint)
  qed
  have h: "gives_back write_header read_header h" if "json_header h" for h
    using that read_write_fields [of "[jh_Alg h, jh_Typ h, jh_Kid h] @ jh_Crit h"]
    by (simp add: gives_back_def write_header_def read_header_def json_header_def)
  have l: "read_signatures (concat (map (\<lambda>s. [js_Protected s, js_Signature s]) ss)) = ss" for ss
    by (induction ss) simp_all
  have j: "gives_back write_jws read_jws j" if "json_jws j" for j
  proof -
    have "list_all ascii (concat (map (\<lambda>s. [js_Protected s, js_Signature s]) (jws_Signatures j)))"
      using that by (auto simp: json_jws_def list_all_iff)
    then show ?thesis
      using that read_write_fields [of "jws_Payload j # concat (map (\<lambda>s. [js_Protected s, js_Signature s]) (jws_Signatures j))"]
      by (simp add: gives_back_def write_jws_def read_jws_def json_jws_def l)
  qed
  have "write_claims c \<noteq> Inr []" for c
    by (simp add: write_claims_def write_fields_def)
  with c h j show ?thesis by (auto simp: json_ok_def ex_auth_def)
qed

lemma ex_auth_ok: "auth_pkg_ok (ex_auth allowed)"
  using ex_json_ok by (auto simp: auth_pkg_ok_def signatures_ok_def ex_auth_def)

definition ex_keys :: serverKeys where
  "ex_keys = \<lparr> edPriv = ''priv'', edPub = ''pub'', keys_pqc = \<lparr> ml_alg = MLDSA_ALG, ml_ctx = ''JWT'', ml_sig = True,
     ml_pkLen = 1952, ml_skLen = 4032, ml_sLen = 3309, ml_pk = ''pk'', ml_sk = ''sk'' \<rparr> \<rparr>"

definition ex_service :: AuthService where
  "ex_service = \<lparr> as_jwtSecret = ''secret'', as_jwtExpiry = seconds 3600, as_keys = Some ex_keys \<rparr>"

lemma ex_service_new: "NewAuthService (ex_auth allowed) ''secret'' (seconds 3600) = Inr ex_service"
  by (simp add: NewAuthService_def newServerKeys_def NewMLDSA_def ex_auth_def ex_service_def ex_keys_def)

lemma ex_token_keys:
  assumes "as_keys s = Some ex_keys" and "allowed (signed_by (ex_auth allowed) pqc_header (session_claims (ex_auth allowed) s now u email))"
  shows "\<exists>tok. generateToken (ex_auth allowed) rnd s now u email = Inr tok"
proof -
  have "MLDSA_Sign (ex_auth allowed) rnd (keys_pqc ex_keys)
      (signed_by (ex_auth allowed) pqc_header (session_claims (ex_auth allowed) s now u email))
    = Inr (''JWT'' @ signed_by (ex_auth allowed) pqc_header (session_claims (ex_auth allowed) s now u email))"
    using assms(2) by (simp add: MLDSA_Sign_def ex_keys_def ex_auth_def signed_by_def)
  then show ?thesis
    using assms(1) by (simp add: generateToken_def mintHybridJWT_def signed_by_def Let_def)
qed

lemma ex_token:
  assumes "allowed (signed_by (ex_auth allowed) pqc_header (session_claims (ex_auth allowed) ex_service now u email))"
  shows "\<exists>tok. generateToken (ex_auth allowed) rnd ex_service now u email = Inr tok"
  using ex_token_keys [of ex_service allowed now u email rnd] assms by (simp add: ex_service_def)

section \<open>Properties\<close>

text \<open>
  C22: a session token works until it expires. With key pairs that verify what they
  sign, a token generated for a user validates, at every moment up to one second
  before its expiry, to exactly the claims it was generated with (the expiry is
  truncated to a second), and is refused as expired after it.
\<close>

theorem token_roundtrip:
  assumes "auth_pkg_ok K" and "NewAuthService K secret expiry = Inr s"
    and "generateToken K rnd s issued userID email = Inr tok" and "ascii email"
    and "0 \<le> issued" and "0 \<le> expiry" and "issued + expiry < seconds 315537897600"
  shows "(\<forall>now \<le> issued + expiry - seconds 1. \<exists>c. ValidateToken K s now tok = Inr c
           \<and> jc_UserID c = userID \<and> jc_Email c = email)
    \<and> (\<forall>now > issued + expiry. ValidateToken K s now tok = Inl (ErrNew ''token expired''))"
proof -
  have x: "as_jwtExpiry s = expiry" using keys_shape [OF assms(2)] by metis
  let ?c = "session_claims K s issued userID email"
  have j: "json_claims ?c"
    using assms x by (intro session_claims_json) simp_all
  have v: "ValidateToken K s now tok = (if expired now ?c then Inl (ErrNew ''token expired'') else Inr ?c)" for now
    using assms j by (intro mint_validates) (simp_all add: auth_pkg_ok_def generateToken_def)
  have e: "expired now ?c \<longleftrightarrow> now > issued + expiry - (issued + expiry) mod seconds 1" for now
    using assms(1) x by (simp add: expired_def session_claims_def auth_pkg_ok_def)
  have m: "0 \<le> (issued + expiry) mod seconds 1" "(issued + expiry) mod seconds 1 < seconds 1"
    by (simp_all add: seconds_def)
  have c: "jc_UserID ?c = userID" "jc_Email ?c = email" by (simp_all add: session_claims_def)
  show ?thesis
  proof (intro conjI allI impI)
    fix now
    assume "now \<le> issued + expiry - seconds 1"
    then have "\<not> expired now ?c" using e m by simp
    then show "\<exists>c. ValidateToken K s now tok = Inr c \<and> jc_UserID c = userID \<and> jc_Email c = email"
      using v c by auto
  next
    fix now
    assume "issued + expiry < now"
    then have "expired now ?c" using e m by simp
    then show "ValidateToken K s now tok = Inl (ErrNew ''token expired'')" using v by simp
  qed
qed

theorem token_roundtrip_witness:
  "\<exists>tok. generateToken (ex_auth (\<lambda>_. True)) ''r'' ex_service (seconds 10) 7 ''a@b.c'' = Inr tok
     \<and> (\<exists>c. ValidateToken (ex_auth (\<lambda>_. True)) ex_service (seconds 3000) tok = Inr c
            \<and> jc_UserID c = 7 \<and> jc_Email c = ''a@b.c'')
     \<and> ValidateToken (ex_auth (\<lambda>_. True)) ex_service (seconds 4000) tok = Inl (ErrNew ''token expired'')"
proof -
  obtain tok where t: "generateToken (ex_auth (\<lambda>_. True)) ''r'' ex_service (seconds 10) 7 ''a@b.c'' = Inr tok"
    using ex_token [of "\<lambda>_. True" "seconds 10" 7 "''a@b.c''" "''r''"] by auto
  have a: "ascii ''a@b.c''" by (simp add: ascii_def byte_def)
  from token_roundtrip [OF ex_auth_ok ex_service_new t a] t show ?thesis
    by (simp add: seconds_def)
qed

text \<open>
  C3: only issued tokens are accepted, even when one of the two signature schemes
  is broken. If Ed25519 or ML-DSA verifies only what was signed for the issued
  claims, then the claims of any token that validates are issued ones, and they
  have not expired.
\<close>

theorem token_authentic:
  assumes "json_ok K" and "as_keys s = Some keys"
    and "ed_unforgeable K keys issued \<or> pqc_unforgeable K keys issued"
    and "\<forall>c\<in>issued. json_claims c" and "ValidateToken K s now tok = Inr c"
  shows "c \<in> issued \<and> \<not> expired now c"
  by (rule accepted_issued [OF assms])

definition ex_claims :: JWTClaims where
  "ex_claims = session_claims (ex_auth (\<lambda>_. False)) ex_service (seconds 10) 7 ''a@b.c''"

definition ex_signed :: "string \<Rightarrow> bool" where
  "ex_signed m \<longleftrightarrow> m = signed_by (ex_auth (\<lambda>_. False)) pqc_header ex_claims"

lemma ex_auth_same:
  "signed_by (ex_auth f) h c = signed_by (ex_auth (\<lambda>_. False)) h c"
  "session_claims (ex_auth f) s now u e = session_claims (ex_auth (\<lambda>_. False)) s now u e"
  by (simp_all add: signed_by_def session_claims_def ex_auth_def)

theorem token_authentic_witness:
  "\<exists>tok c. ValidateToken (ex_auth ex_signed) ex_service (seconds 20) tok = Inr c
     \<and> pqc_unforgeable (ex_auth ex_signed) ex_keys {ex_claims}
     \<and> c \<in> {ex_claims} \<and> \<not> expired (seconds 20) c"
proof -
  have e: "ex_claims = session_claims (ex_auth ex_signed) ex_service (seconds 10) 7 ''a@b.c''"
    unfolding ex_claims_def by (rule ex_auth_same(2) [symmetric])
  have s: "ex_signed (signed_by (ex_auth ex_signed) pqc_header ex_claims)"
    unfolding ex_signed_def by (rule ex_auth_same(1))
  then obtain tok where t: "generateToken (ex_auth ex_signed) ''r'' ex_service (seconds 10) 7 ''a@b.c'' = Inr tok"
    using ex_token [of ex_signed "seconds 10" 7 "''a@b.c''" "''r''"] e by auto
  have j: "json_claims ex_claims"
    unfolding e
    by (rule session_claims_json [OF ex_auth_ok]) (simp_all add: ascii_def byte_def ex_service_def seconds_def)
  have u: "pqc_unforgeable (ex_auth ex_signed) ex_keys {ex_claims}"
    by (auto simp: pqc_unforgeable_def MLDSA_Verify_def ex_keys_def ex_auth_def ex_signed_def signed_by_def split: if_splits)
  have m: "mintHybridJWT (ex_auth ex_signed) ''r'' ex_service ex_claims = Inr tok"
    using t by (simp add: generateToken_def e)
  have nx: "\<not> expired (seconds 20) ex_claims"
    by (simp add: expired_def ex_claims_def session_claims_def ex_service_def ex_auth_def seconds_def)
  have v: "ValidateToken (ex_auth ex_signed) ex_service (seconds 20) tok = Inr ex_claims"
    using mint_validates [OF ex_json_ok _ ex_service_new j m] ex_auth_ok [of ex_signed] nx by (simp add: auth_pkg_ok_def)
  have k: "as_keys ex_service = Some ex_keys" by (simp add: ex_service_def)
  from token_authentic [OF ex_json_ok k disjI2 [OF u] _ v] j u v show ?thesis by blast
qed

end
