(* ===== verification/Tls_Cache.thy ===== *)
theory Tls_Cache
  imports Repositories
begin

text \<open>
  The Redis cache of endpoint scans, \<open>src/internal/repository/redis_tls_scan_repository.go\<close>,
  and the service that fills it at sign-in, \<open>src/internal/service/user_scan_cache.go\<close>.

  Redis is a state \<open>'r\<close> and the four commands the repository sends, each with an error
  or a result and the new state (a key may expire between two commands).  The JSON
  text of a scan result is a parameter too.
\<close>

section \<open>Redis\<close>

record 'r redis_conn =
  rc_Set :: "string \<Rightarrow> string \<Rightarrow> go_duration \<Rightarrow> 'r \<Rightarrow> unit result \<times> 'r"
  rc_Get :: "string \<Rightarrow> 'r \<Rightarrow> string result \<times> 'r"
  rc_Keys :: "string \<Rightarrow> 'r \<Rightarrow> string list result \<times> 'r"
  rc_Del :: "string \<Rightarrow> 'r \<Rightarrow> unit result \<times> 'r"

record tls_json =
  tj_Marshal :: "TLSScanResult \<Rightarrow> string result"
  tj_Unmarshal :: "string \<Rightarrow> TLSScanResult result"

type_synonym ('r, 'a) redis_op = "'r \<Rightarrow> 'a result \<times> 'r"

definition redisKeyPrefix :: string where "redisKeyPrefix = ''tls:scan:token:''"
definition tlsUserKeyPrefix :: string where "tlsUserKeyPrefix = ''tls:user:''"
definition tlsScanTTL :: go_duration where "tlsScanTTL = seconds (30 * 60)"
definition DefaultUserIDForRedis :: string where
  "DefaultUserIDForRedis = ''00000000-0000-0000-0000-000000000000''"

definition getKey :: "string \<Rightarrow> string \<Rightarrow> string" where
  "getKey tokenHash url = redisKeyPrefix @ tokenHash @ '':'' @ url"

definition getUserKey :: "string \<Rightarrow> string \<Rightarrow> string" where
  "getUserKey userID url = tlsUserKeyPrefix @ userID @ '':'' @ url"

definition wrapping :: "string \<Rightarrow> ('r, 'a) redis_op \<Rightarrow> ('r, 'a) redis_op" where
  "wrapping m f r = (case f r of (x, r') \<Rightarrow> (wrap_err m x, r'))"

section \<open>Results by token\<close>

definition cache_Save :: "'r redis_conn \<Rightarrow> tls_json \<Rightarrow> string \<Rightarrow> string \<Rightarrow> TLSScanResult \<Rightarrow> ('r, unit) redis_op" where
  "cache_Save R J tokenHash url result r =
     (let key = getKey tokenHash url in
      case tj_Marshal J result of
        Inl err \<Rightarrow> (Inl (ErrWrap ''failed to marshal scan result'' err), r)
      | Inr data \<Rightarrow> wrapping ''failed to save scan result to Redis'' (rc_Set R key data tlsScanTTL) r)"

definition cache_FindByURL :: "'r redis_conn \<Rightarrow> tls_json \<Rightarrow> string \<Rightarrow> string \<Rightarrow> ('r, TLSScanResult) redis_op" where
  "cache_FindByURL R J tokenHash url r =
     (let key = getKey tokenHash url in
      case wrapping ''failed to get scan result from Redis'' (rc_Get R key) r of
        (Inl err, r') \<Rightarrow> (Inl err, r')
      | (Inr data, r') \<Rightarrow> (wrap_err ''failed to unmarshal scan result'' (tj_Unmarshal J data), r'))"

text \<open>Keys that no longer exist and values that do not parse are skipped.\<close>

fun list_loop :: "'r redis_conn \<Rightarrow> tls_json \<Rightarrow> string list \<Rightarrow> 'r \<Rightarrow> TLSScanResult list \<times> 'r" where
  "list_loop R J [] r = ([], r)"
| "list_loop R J (key # keys) r =
     (case rc_Get R key r of
        (Inl _, r') \<Rightarrow> list_loop R J keys r'
      | (Inr data, r') \<Rightarrow>
          (case tj_Unmarshal J data of
             Inl _ \<Rightarrow> list_loop R J keys r'
           | Inr result \<Rightarrow> (case list_loop R J keys r' of (rest, r'') \<Rightarrow> (result # rest, r''))))"

definition cache_ListAll :: "'r redis_conn \<Rightarrow> tls_json \<Rightarrow> string \<Rightarrow> ('r, TLSScanResult list) redis_op" where
  "cache_ListAll R J tokenHash r =
     (case wrapping ''failed to list scan keys from Redis'' (rc_Keys R (redisKeyPrefix @ tokenHash @ '':*'')) r of
        (Inl err, r') \<Rightarrow> (Inl err, r')
      | (Inr keys, r') \<Rightarrow> (case list_loop R J keys r' of (results, r'') \<Rightarrow> (Inr results, r'')))"

definition cache_Count :: "'r redis_conn \<Rightarrow> string \<Rightarrow> ('r, int) redis_op" where
  "cache_Count R tokenHash r =
     (case wrapping ''failed to count scan keys from Redis'' (rc_Keys R (redisKeyPrefix @ tokenHash @ '':*'')) r of
        (Inl err, r') \<Rightarrow> (Inl err, r')
      | (Inr keys, r') \<Rightarrow> (Inr (int (length keys)), r'))"

definition cache_Delete :: "'r redis_conn \<Rightarrow> string \<Rightarrow> string \<Rightarrow> ('r, unit) redis_op" where
  "cache_Delete R tokenHash url = wrapping ''failed to delete scan result from Redis'' (rc_Del R (getKey tokenHash url))"

section \<open>Results by user\<close>

definition SaveByUserIDAndURL ::
  "'r redis_conn \<Rightarrow> tls_json \<Rightarrow> string \<Rightarrow> string \<Rightarrow> TLSScanResult \<Rightarrow> ('r, unit) redis_op" where
  "SaveByUserIDAndURL R J userID url result r =
     (let key = getUserKey userID url in
      case tj_Marshal J result of
        Inl err \<Rightarrow> (Inl (ErrWrap ''marshal tls result'' err), r)
      | Inr data \<Rightarrow> wrapping ''redis set'' (rc_Set R key data tlsScanTTL) r)"

definition cache_FindByUserIDAndURL ::
  "'r redis_conn \<Rightarrow> tls_json \<Rightarrow> string \<Rightarrow> string \<Rightarrow> ('r, TLSScanResult) redis_op" where
  "cache_FindByUserIDAndURL R J userID url r =
     (case rc_Get R (getUserKey userID url) r of
        (Inl err, r') \<Rightarrow> (Inl err, r')
      | (Inr data, r') \<Rightarrow> (wrap_err ''failed to unmarshal scan result'' (tj_Unmarshal J data), r'))"

definition DeleteByUserIDAndURL :: "'r redis_conn \<Rightarrow> string \<Rightarrow> string \<Rightarrow> ('r, unit) redis_op" where
  "DeleteByUserIDAndURL R userID url = wrapping ''redis del tls user scan'' (rc_Del R (getUserKey userID url))"

definition ListURLsByUserID :: "'r redis_conn \<Rightarrow> string \<Rightarrow> ('r, string list) redis_op" where
  "ListURLsByUserID R userID r =
     (case rc_Keys R (tlsUserKeyPrefix @ userID @ '':*'') r of
        (Inl err, r') \<Rightarrow> (Inl err, r')
      | (Inr keys, r') \<Rightarrow>
          (let prefix = tlsUserKeyPrefix @ userID @ '':'' in
           (Inr (map (drop (length prefix)) (filter (\<lambda>k. length k > length prefix) keys)), r')))"

fun merge_loop :: "string set \<Rightarrow> string list \<Rightarrow> string list \<Rightarrow> string list" where
  "merge_loop seen merged [] = merged"
| "merge_loop seen merged (u # us) =
     (if u \<in> seen then merge_loop seen merged us else merge_loop (insert u seen) (merged @ [u]) us)"

definition ListURLsByUserIDOrDefault :: "'r redis_conn \<Rightarrow> string \<Rightarrow> ('r, string list) redis_op" where
  "ListURLsByUserIDOrDefault R userID r =
     (case ListURLsByUserID R userID r of
        (Inl err, r') \<Rightarrow> (Inl err, r')
      | (Inr userURLs, r') \<Rightarrow>
          (case ListURLsByUserID R DefaultUserIDForRedis r' of
             (Inl err, r'') \<Rightarrow> (Inl err, r'')
           | (Inr defaultURLs, r'') \<Rightarrow> (Inr (merge_loop (set userURLs) userURLs defaultURLs), r'')))"

definition cache_CountByUserID :: "'r redis_conn \<Rightarrow> string \<Rightarrow> ('r, int) redis_op" where
  "cache_CountByUserID R userID r =
     (case ListURLsByUserID R userID r of
        (Inl err, r') \<Rightarrow> (Inl err, r')
      | (Inr urls, r') \<Rightarrow> (Inr (int (length urls)), r'))"

section \<open>Warming the cache\<close>

definition maxItemsForWarmOrReadThrough :: int where "maxItemsForWarmOrReadThrough = 10000"

text \<open>A result that cannot be saved is logged and the loop goes on.\<close>

fun warm_loop ::
  "'r redis_conn \<Rightarrow> tls_json \<Rightarrow> json_pkg \<Rightarrow> string \<Rightarrow> TLSScanResultEntity list \<Rightarrow> 'r \<Rightarrow> 'r" where
  "warm_loop R J P uid [] r = r"
| "warm_loop R J P uid (e # es) r =
     warm_loop R J P uid es (snd (SaveByUserIDAndURL R J uid (ts_URL e) (ToTLSScanResult P e) r))"

definition WarmForUser ::
  "'r redis_conn \<Rightarrow> tls_json \<Rightarrow> json_pkg \<Rightarrow> uuid_pkg \<Rightarrow> uuid \<Rightarrow> db \<Rightarrow> 'r \<Rightarrow> goerr option \<times> db \<times> 'r" where
  "WarmForUser R J P U userID d r =
     (let uid = uuid_String U userID in
      case TLSScanResult_FindByUserID userID maxItemsForWarmOrReadThrough 0 d of
        (Inl err, d') \<Rightarrow> (Some err, d', r)
      | (Inr tlsEntities, d') \<Rightarrow> (None, d', warm_loop R J P uid tlsEntities r))"

section \<open>What the cache relies on\<close>

text \<open>
  A reachable Redis without expiry during the operations: \<open>view\<close> is its contents.  A
  pattern is a literal prefix and a star; the wildcards of a glob are excluded from
  the prefix.
\<close>

definition glob_plain :: "string \<Rightarrow> bool" where
  "glob_plain s \<longleftrightarrow> set s \<inter> {CHR ''*'', CHR ''?'', CHR ''['', CHR '']'', CHR 0x5C} = {}"

definition redis_Nil :: goerr where "redis_Nil = ErrNew ''redis: nil''"

definition redis_ok :: "'r redis_conn \<Rightarrow> ('r \<Rightarrow> string \<rightharpoonup> string) \<Rightarrow> bool" where
  "redis_ok R view \<longleftrightarrow>
     (\<forall>k v t r. \<exists>r'. rc_Set R k v t r = (Inr (), r') \<and> view r' = (view r)(k \<mapsto> v))
   \<and> (\<forall>k r. \<exists>r'. rc_Get R k r = ((case view r k of None \<Rightarrow> Inl redis_Nil | Some v \<Rightarrow> Inr v), r') \<and> view r' = view r)
   \<and> (\<forall>p r. glob_plain p \<longrightarrow> (\<exists>ks r'. rc_Keys R (p @ ''*'') r = (Inr ks, r') \<and> view r' = view r
        \<and> distinct ks \<and> set ks = {k \<in> dom (view r). HasPrefix k p}))
   \<and> (\<forall>k r. \<exists>r'. rc_Del R k r = (Inr (), r') \<and> view r' = (view r)(k := None))"

text \<open>Identifiers of users: no colon and no wildcard.\<close>

definition key_plain :: "string \<Rightarrow> bool" where
  "key_plain u \<longleftrightarrow> glob_plain u \<and> CHR '':'' \<notin> set u"

section \<open>Facts\<close>

lemma getUserKey_inj:
  assumes "key_plain u" and "key_plain u'"
  shows "getUserKey u url = getUserKey u' url' \<longleftrightarrow> u = u' \<and> url = url'"
  using split_at_sep [of u _ url u' url'] assms by (auto simp: getUserKey_def key_plain_def)

lemma user_prefix:
  assumes "key_plain u" and "key_plain u'"
  shows "HasPrefix (getUserKey u url) (tlsUserKeyPrefix @ u' @ '':'') \<longleftrightarrow> u = u'"
proof
  assume "HasPrefix (getUserKey u url) (tlsUserKeyPrefix @ u' @ '':'')"
  then obtain rest where "getUserKey u url = tlsUserKeyPrefix @ u' @ '':'' @ rest"
    unfolding HasPrefix_def by (metis append.assoc append_take_drop_id)
  then have "u @ CHR '':'' # url = u' @ CHR '':'' # rest"
    by (simp add: getUserKey_def)
  from split_at_sep [OF this] assms show "u = u'" by (simp add: key_plain_def)
qed (simp add: HasPrefix_def getUserKey_def)


lemma redis_okD:
  assumes "redis_ok R view"
  shows "\<exists>r'. rc_Set R k v t r = (Inr (), r') \<and> view r' = (view r)(k \<mapsto> v)"
    and "\<exists>r'. rc_Get R k r = ((case view r k of None \<Rightarrow> Inl redis_Nil | Some v \<Rightarrow> Inr v), r') \<and> view r' = view r"
    and "\<exists>r'. rc_Del R k r = (Inr (), r') \<and> view r' = (view r)(k := None)"
    and "glob_plain p \<Longrightarrow> \<exists>ks r'. rc_Keys R (p @ ''*'') r = (Inr ks, r') \<and> view r' = view r
        \<and> distinct ks \<and> set ks = {k \<in> dom (view r). HasPrefix k p}"
  using assms by (simp_all add: redis_ok_def)

text \<open>What the contents say a user has.\<close>

definition cached :: "tls_json \<Rightarrow> (string \<rightharpoonup> string) \<Rightarrow> string \<Rightarrow> string \<Rightarrow> TLSScanResult result" where
  "cached J m u url = (case m (getUserKey u url) of None \<Rightarrow> Inl redis_Nil
     | Some data \<Rightarrow> wrap_err ''failed to unmarshal scan result'' (tj_Unmarshal J data))"

definition cached_urls :: "(string \<rightharpoonup> string) \<Rightarrow> string \<Rightarrow> string set" where
  "cached_urls m u = {url. url \<noteq> '''' \<and> getUserKey u url \<in> dom m}"

lemma cache_Find_view:
  assumes "redis_ok R view"
  shows "fst (cache_FindByUserIDAndURL R J u url r) = cached J (view r) u url"
proof -
  obtain r' where "rc_Get R (getUserKey u url) r
      = ((case view r (getUserKey u url) of None \<Rightarrow> Inl redis_Nil | Some v \<Rightarrow> Inr v), r')"
    using redis_okD(2) [OF assms] by blast
  then show ?thesis by (simp add: cache_FindByUserIDAndURL_def cached_def split: option.splits)
qed

lemma prefix_keys:
  fixes m :: "string \<rightharpoonup> string" and u :: string
  defines "p \<equiv> tlsUserKeyPrefix @ u @ '':''"
  assumes "distinct ks" and "set ks = {k \<in> dom m. HasPrefix k p}"
  shows "distinct (map (drop (length p)) (filter (\<lambda>k. length k > length p) ks))"
    and "set (map (drop (length p)) (filter (\<lambda>k. length k > length p) ks)) = cached_urls m u"
proof -
  have key: "k = p @ drop (length p) k" if "k \<in> set ks" for k
  proof -
    have "take (length p) k = p" using that assms(3) by (simp add: HasPrefix_def)
    with append_take_drop_id [of "length p" k] show ?thesis by simp
  qed
  have "inj_on (drop (length p)) (set ks)"
    by (rule inj_onI) (metis key)
  then show "distinct (map (drop (length p)) (filter (\<lambda>k. length k > length p) ks))"
    using assms(2) by (auto simp: distinct_map intro: inj_on_subset)
  have uk: "getUserKey u url = p @ url" for url by (simp add: getUserKey_def p_def)
  show "set (map (drop (length p)) (filter (\<lambda>k. length k > length p) ks)) = cached_urls m u"
  proof (intro set_eqI iffI)
    fix url
    assume "url \<in> set (map (drop (length p)) (filter (\<lambda>k. length k > length p) ks))"
    then obtain k where k: "k \<in> set ks" "length p < length k" "url = drop (length p) k" by auto
    have "getUserKey u url = k" unfolding uk k(3) by (rule key [OF k(1), symmetric])
    with k(1,2,3) assms(3) show "url \<in> cached_urls m u" by (simp add: cached_urls_def)
  next
    fix url
    assume "url \<in> cached_urls m u"
    then have "p @ url \<in> set ks" "url \<noteq> ''''"
      using assms(3) by (auto simp: cached_urls_def uk HasPrefix_def)
    then show "url \<in> set (map (drop (length p)) (filter (\<lambda>k. length k > length p) ks))"
      by (auto intro!: image_eqI [of _ _ "p @ url"])
  qed
qed

lemma ListURLs_view:
  assumes "redis_ok R view" and "key_plain u"
  shows "\<exists>urls r'. ListURLsByUserID R u r = (Inr urls, r') \<and> view r' = view r \<and> distinct urls
    \<and> set urls = cached_urls (view r) u"
proof -
  have g: "glob_plain (tlsUserKeyPrefix @ u @ '':'')"
    using assms(2) by (simp add: key_plain_def glob_plain_def tlsUserKeyPrefix_def)
  obtain ks r' where k: "rc_Keys R ((tlsUserKeyPrefix @ u @ '':'') @ ''*'') r = (Inr ks, r')" "view r' = view r"
    "distinct ks" "set ks = {k \<in> dom (view r). HasPrefix k (tlsUserKeyPrefix @ u @ '':'')}"
    using redis_okD(4) [OF assms(1) g] by metis
  have "ListURLsByUserID R u r = (Inr (map (drop (length (tlsUserKeyPrefix @ u @ '':'')))
      (filter (\<lambda>k. length k > length (tlsUserKeyPrefix @ u @ '':'')) ks)), r')"
    using k(1) by (simp add: ListURLsByUserID_def Let_def)
  with k(2) prefix_keys [OF k(3,4)] show ?thesis by metis
qed

lemma merge_loop_spec:
  "\<lbrakk> distinct merged; set merged \<subseteq> seen; seen = set merged \<rbrakk> \<Longrightarrow>
     distinct (merge_loop seen merged us) \<and> set (merge_loop seen merged us) = set merged \<union> set us
     \<and> take (length merged) (merge_loop seen merged us) = merged"
proof (induction us arbitrary: seen merged)
  case (Cons u us)
  show ?case
  proof (cases "u \<in> seen")
    case True
    then show ?thesis using Cons.IH [OF Cons.prems] Cons.prems by auto
  next
    case False
    have t: "take (length merged) ys = merged" if "take (length (merged @ [u])) ys = merged @ [u]" for ys
      using arg_cong [OF that, of "take (length merged)"] by (simp add: min_def)
    from False Cons.IH [of "merged @ [u]" "insert u seen"] Cons.prems t show ?thesis by auto
  qed
qed simp


lemma Save_view:
  assumes "redis_ok R view" and "tj_Marshal J result = Inr data"
  shows "\<exists>r'. SaveByUserIDAndURL R J u url result r = (Inr (), r') \<and> view r' = (view r)(getUserKey u url \<mapsto> data)"
proof -
  obtain r' where s: "rc_Set R (getUserKey u url) data tlsScanTTL r = (Inr (), r')"
    and v: "view r' = (view r)(getUserKey u url \<mapsto> data)"
    using redis_okD(1) [OF assms(1)] by blast
  show ?thesis
    by (intro exI [of _ r']) (simp add: SaveByUserIDAndURL_def assms(2) wrapping_def s v)
qed

lemma Delete_view:
  assumes "redis_ok R view"
  shows "\<exists>r'. DeleteByUserIDAndURL R u url r = (Inr (), r') \<and> view r' = (view r)(getUserKey u url := None)"
proof -
  obtain r' where s: "rc_Del R (getUserKey u url) r = (Inr (), r')" and v: "view r' = (view r)(getUserKey u url := None)"
    using redis_okD(3) [OF assms(1)] by blast
  show ?thesis
    by (intro exI [of _ r']) (simp add: DeleteByUserIDAndURL_def wrapping_def s v)
qed

section \<open>Properties\<close>

text \<open>
  C32: the cache of a user is a map of its own. On a reachable Redis, saving a
  result that JSON can carry makes exactly that result found under the user and
  the address, and adds the address to the user's list, which has no duplicates;
  deleting it makes it not found again; and nobody else's results or lists change.
\<close>

theorem cache_user_scoped:
  assumes "redis_ok R view" and "tj_Marshal J result = Inr data" and "tj_Unmarshal J data = Inr result"
    and "key_plain u" and "url \<noteq> ''''"
    and "SaveByUserIDAndURL R J u url result r = (saved, r1)"
    and "DeleteByUserIDAndURL R u url r1 = (deleted, r2)"
  shows "saved = Inr () \<and> deleted = Inr ()
    \<and> fst (cache_FindByUserIDAndURL R J u url r1) = Inr result
    \<and> fst (cache_FindByUserIDAndURL R J u url r2) = Inl redis_Nil
    \<and> (\<exists>urls r'. ListURLsByUserID R u r1 = (Inr urls, r') \<and> distinct urls
         \<and> set urls = insert url (cached_urls (view r) u))
    \<and> (\<forall>u' url'. key_plain u' \<and> \<not> (u' = u \<and> url' = url) \<longrightarrow>
         fst (cache_FindByUserIDAndURL R J u' url' r1) = fst (cache_FindByUserIDAndURL R J u' url' r)
       \<and> fst (cache_FindByUserIDAndURL R J u' url' r2) = fst (cache_FindByUserIDAndURL R J u' url' r))
    \<and> (\<forall>u'. key_plain u' \<and> u' \<noteq> u \<longrightarrow> cached_urls (view r1) u' = cached_urls (view r) u'
         \<and> cached_urls (view r2) u' = cached_urls (view r) u')"
proof -
  have v1: "saved = Inr ()" "view r1 = (view r)(getUserKey u url \<mapsto> data)"
    using Save_view [OF assms(1,2), of u url r] assms(6) by auto
  have v2: "deleted = Inr ()" "view r2 = (view r1)(getUserKey u url := None)"
    using Delete_view [OF assms(1), of u url r1] assms(7) by auto
  have u: "cached_urls (view r1) u = insert url (cached_urls (view r) u)"
    using assms(4,5) by (auto simp: cached_urls_def v1 getUserKey_inj)
  have o1: "cached J (view r1) u' url' = cached J (view r) u' url'"
       "cached J (view r2) u' url' = cached J (view r) u' url'"
    if k: "key_plain u'" and d: "\<not> (u' = u \<and> url' = url)" for u' url'
  proof -
    have "getUserKey u' url' \<noteq> getUserKey u url" using d getUserKey_inj [OF k assms(4)] by blast
    then show "cached J (view r1) u' url' = cached J (view r) u' url'"
       "cached J (view r2) u' url' = cached J (view r) u' url'" by (simp_all add: cached_def v1 v2)
  qed
  have o2: "cached_urls (view r1) u' = cached_urls (view r) u'"
       "cached_urls (view r2) u' = cached_urls (view r) u'"
    if k: "key_plain u'" and d: "u' \<noteq> u" for u'
    using d by (simp_all add: cached_urls_def v1 v2 getUserKey_inj [OF k assms(4)] dom_def)
  obtain urls r' where "ListURLsByUserID R u r1 = (Inr urls, r')" "distinct urls" "set urls = cached_urls (view r1) u"
    using ListURLs_view [OF assms(1,4), of r1] by blast
  with u o1 o2 show ?thesis
    by (simp add: v1 v2 cache_Find_view [OF assms(1)] cached_def assms(3))
qed

definition ex_redis :: "(string \<times> string) list redis_conn" where
  "ex_redis = \<lparr> rc_Set = (\<lambda>k v t r. (Inr (), (k, v) # r)),
     rc_Get = (\<lambda>k r. ((case map_of r k of None \<Rightarrow> Inl redis_Nil | Some v \<Rightarrow> Inr v), r)),
     rc_Keys = (\<lambda>p r. (Inr (filter (\<lambda>k. HasPrefix k (butlast p)) (remdups (map fst r))), r)),
     rc_Del = (\<lambda>k r. (Inr (), filter (\<lambda>kv. fst kv \<noteq> k) r)) \<rparr>"

lemma ex_redis_ok: "redis_ok ex_redis map_of"
proof -
  have "map_of (filter (\<lambda>kv. fst kv \<noteq> k) r) = (map_of r)(k := None)" for k and r :: "(string \<times> string) list"
    by (rule ext) (induction r, auto)
  then show ?thesis
    by (auto simp: redis_ok_def ex_redis_def dom_map_of_conv_image_fst)
qed

definition ex_tls_result :: TLSScanResult where
  "ex_tls_result = \<lparr> tls_URL = ''https://a.b'', tls_Host = ''a.b'', tls_Port = 443,
     tls_Certificate = \<lparr> crt_Subject = ''CN=a.b'', crt_Issuer = ''CN=ca'', crt_SignatureAlgorithm = ''SHA256-RSA'',
        crt_PublicKeyAlgorithm = ''RSA'', crt_KeySize = 2048, crt_NotBefore = 1, crt_NotAfter = 2,
        crt_SerialNumber = ''1'', crt_NISTLevel = 1, crt_IsPQCReady = False \<rparr>,
     tls_CipherSuites = None, tls_ProtocolVersion = ''TLS 1.3'', tls_NISTLevel = 1, tls_RiskScore = 0,
     tls_PQCRisk = ''high'', tls_SupportedPQCs = None, tls_Recommendations = None, tls_ScannedAt = 1,
     tls_KexAlgorithm = ''X25519'', tls_KexPQCReady = False, tls_PQCMode = ''classical'', tls_PFS = True,
     tls_ALPN = ''h2'', tls_OCSPStapled = False, tls_Curve = ''X25519'', tls_NISTLevels = None, tls_Default = False \<rparr>"

definition ex_tls_json :: tls_json where
  "ex_tls_json = \<lparr> tj_Marshal = (\<lambda>_. Inr ''{}''), tj_Unmarshal = (\<lambda>_. Inr ex_tls_result) \<rparr>"

theorem cache_user_scoped_witness:
  "\<exists>r1 r2. SaveByUserIDAndURL ex_redis ex_tls_json
       ''7'' ''https://a.b'' ex_tls_result [] = (Inr (), r1)
   \<and> fst (cache_FindByUserIDAndURL ex_redis ex_tls_json
       ''7'' ''https://a.b'' r2) = Inl redis_Nil
   \<and> DeleteByUserIDAndURL ex_redis ''7'' ''https://a.b'' r1 = (Inr (), r2)"
proof -
  have k: "key_plain ''7''" by (simp add: key_plain_def glob_plain_def)
  obtain s r1 where s: "SaveByUserIDAndURL ex_redis ex_tls_json ''7'' ''https://a.b'' ex_tls_result [] = (s, r1)" by (rule prod.exhaust)
  obtain e r2 where e: "DeleteByUserIDAndURL ex_redis ''7'' ''https://a.b'' r1 = (e, r2)" by (rule prod.exhaust)
  have "s = Inr () \<and> e = Inr () \<and> fst (cache_FindByUserIDAndURL ex_redis ex_tls_json ''7'' ''https://a.b'' r2) = Inl redis_Nil"
    using cache_user_scoped [OF ex_redis_ok _ _ k _ s e, of "''{}''"] by (simp add: ex_tls_json_def)
  with s e show ?thesis by blast
qed

end
