(* ===== verification/Plan_Handlers.thy ===== *)
theory Plan_Handlers
  imports Plan_Service Http_Model
begin

text \<open>
  The endpoints of \<open>src/internal/handler/plan.go\<close> and the JSON of a plan and of its
  usage.  The user is read straight from the request, with this file's own answers.
\<close>

record PlanHandler =
  ph_scanUsageLedger :: "ScanUsageLedgerRepository option"

definition NewPlanHandler :: "ScanUsageLedgerRepository option \<Rightarrow> PlanHandler" where
  "NewPlanHandler ledger = \<lparr> ph_scanUsageLedger = ledger \<rparr>"

definition plan_json :: "uuid_pkg \<Rightarrow> Plan \<Rightarrow> gval" where
  "plan_json U p = GMap
     [(''id'', GStr (uuid_String U (plan_ID p))), (''name'', GStr (plan_Name p)), (''type'', GStr (plan_Type p)),
      (''wallet_scan_limit'', GInt (plan_WalletScanLimit p)), (''endpoint_scan_limit'', GInt (plan_EndpointScanLimit p)),
      (''price'', GFloat (plan_Price p)), (''is_active'', GBool (plan_IsActive p)),
      (''created_at'', GTime (plan_CreatedAt p)), (''updated_at'', GTime (plan_UpdatedAt p))]"

text \<open>The two in-flight counts have \<open>omitempty\<close>.\<close>

definition unless_zero :: "string \<Rightarrow> int \<Rightarrow> gmap" where
  "unless_zero k n = (if n = 0 then [] else [(k, GInt n)])"

definition usage_json :: "PlanUsage \<Rightarrow> gval" where
  "usage_json u = GMap
     ([(''wallet_scans_used'', GInt (pu_WalletScansUsed u)), (''endpoint_scans_used'', GInt (pu_EndpointScansUsed u)),
       (''wallet_scans_visible'', GInt (pu_WalletScansVisible u)),
       (''endpoint_scans_visible'', GInt (pu_EndpointScansVisible u)),
       (''wallet_scans_deleted_by_user'', GInt (pu_WalletScansDeletedByUser u)),
       (''endpoint_scans_deleted_by_user'', GInt (pu_EndpointScansDeletedByUser u))]
      @ unless_zero ''wallet_scans_in_flight'' (pu_WalletScansInFlight u)
      @ unless_zero ''endpoint_scans_in_flight'' (pu_EndpointScansInFlight u)
      @ [(''wallet_scan_limit'', GInt (pu_WalletScanLimit u)), (''endpoint_scan_limit'', GInt (pu_EndpointScanLimit u)),
         (''wallet_scans_left'', GInt (pu_WalletScansLeft u)), (''endpoint_scans_left'', GInt (pu_EndpointScansLeft u))])"

type_synonym db_handler = "ctx \<Rightarrow> db \<Rightarrow> (goerr option \<times> ctx) \<times> db"

definition plan_user :: "(uuid \<Rightarrow> db_handler) \<Rightarrow> db_handler" where
  "plan_user h c d =
     (case loc_user_id c of
        None \<Rightarrow> (status_json 401 [(''error'', GStr ''user not authenticated'')] c, d)
      | Some LOther \<Rightarrow> (status_json 500 [(''error'', GStr ''invalid user id format'')] c, d)
      | Some (LUUID userID) \<Rightarrow> h userID c d)"

definition error_answer :: "int \<Rightarrow> goerr \<Rightarrow> ctx \<Rightarrow> goerr option \<times> ctx" where
  "error_answer status err c = status_json status [(''error'', GStr (Error err))] c"

definition handler_GetUserPlan :: "uuid_pkg \<Rightarrow> db_handler" where
  "handler_GetUserPlan U = plan_user (\<lambda>userID c d.
     case GetUserPlan U userID d of
       (Inl err, d') \<Rightarrow> (error_answer 500 err c, d')
     | (Inr plan, d') \<Rightarrow> (ctx_JSON (plan_json U plan) c, d'))"

definition handler_GetAllPlans :: "uuid_pkg \<Rightarrow> db_handler" where
  "handler_GetAllPlans U c d =
     (case GetAllPlans d of
        (Inl err, d') \<Rightarrow> (error_answer 500 err c, d')
      | (Inr plans, d') \<Rightarrow>
          (ctx_JSON (GMap [(''plans'', GList (map (plan_json U) plans)), (''count'', GInt (int (length plans)))]) c, d'))"

definition handler_GetPlanUsage :: "uuid_pkg \<Rightarrow> PlanHandler \<Rightarrow> db_handler" where
  "handler_GetPlanUsage U h = plan_user (\<lambda>userID c d.
     case GetPlanUsage U userID (ph_scanUsageLedger h) d of
       (Inl err, d') \<Rightarrow> (error_answer 500 err c, d')
     | (Inr usage, d') \<Rightarrow> (ctx_JSON (usage_json usage) c, d'))"

text \<open>No endpoint of the plans answers without a user, and none of them changes a table.\<close>

lemma plan_user_refused:
  assumes "loc_user_id c = None"
  shows "resp_status (snd (fst (plan_user h c d))) = 401 \<and> snd (plan_user h c d) = d"
  using assms by (simp add: plan_user_def)

end
