(* ===== verification/Auth_Service.thy ===== *)
theory Auth_Service
  imports Auth_Tokens Tls_Cache Plan_Handlers Scan_Authz
begin

text \<open>
  Accounts and sessions: \<open>Signup\<close>, \<open>Signin\<close> and the Turnstile check of
  \<open>src/internal/service/auth.go\<close>, and the handlers of \<open>src/internal/handler/auth.go\<close>.

  \<open>auth_env\<close> holds what one request draws from outside: the token package, bcrypt
  (hashing takes the salt it draws), the Turnstile service, the clock at the two
  places it is read, and the identifier \<open>uuid.New\<close> gives a new row.
\<close>

section \<open>Requests and environment\<close>

record SignupRequest =
  su_TurnstileToken :: string
  su_Email :: string
  su_Password :: string
  su_ConfirmPassword :: string

record SigninRequest =
  si_Email :: string
  si_Password :: string
  si_TurnstileToken :: string

record AuthResponse =
  ar_Token :: string
  ar_User :: User

record turnstile =
  ts_SecretKey :: string
  ts_Marshal :: "string \<Rightarrow> string \<Rightarrow> string result"
  ts_Post :: "string \<Rightarrow> string \<Rightarrow> string result result"
  ts_Unmarshal :: "string \<Rightarrow> (bool \<times> string list) result"

record auth_env =
  ae_pkg :: auth_pkg
  ae_turnstile :: turnstile
  ae_Generate :: "string \<Rightarrow> string \<Rightarrow> string result"
  ae_Compare :: "string \<Rightarrow> string \<Rightarrow> goerr option"
  ae_salt :: string
  ae_rnd :: string
  ae_fresh :: uuid
  ae_created :: go_time
  ae_now :: go_time

definition ErrUserNotFound :: goerr where "ErrUserNotFound = ErrNew ''user not found''"
definition ErrInvalidPassword :: goerr where "ErrInvalidPassword = ErrNew ''invalid password''"
definition ErrUserAlreadyExists :: goerr where "ErrUserAlreadyExists = ErrNew ''user already exists''"
definition ErrTurnstileValidation :: goerr where
  "ErrTurnstileValidation = ErrNew ''turnstile verification failed''"

section \<open>Turnstile\<close>

definition devSecretKey :: string where "devSecretKey = ''1x0000000000000000000000000000000AA''"

definition verifyTurnstileToken :: "turnstile \<Rightarrow> string \<Rightarrow> goerr option" where
  "verifyTurnstileToken T token =
     (let secretKey = ts_SecretKey T in
      if secretKey = '''' \<or> secretKey = devSecretKey
      then (if token = '''' then Some ErrTurnstileValidation else None)
      else if token = '''' then Some ErrTurnstileValidation
      else case ts_Marshal T secretKey token of
        Inl err \<Rightarrow> Some (ErrWrap ''failed to marshal turnstile request'' err)
      | Inr jsonData \<Rightarrow>
          (case ts_Post T ''https://challenges.cloudflare.com/turnstile/v0/siteverify'' jsonData of
             Inl err \<Rightarrow> Some (ErrWrap ''failed to verify turnstile token'' err)
           | Inr (Inl err) \<Rightarrow> Some (ErrWrap ''failed to read turnstile response'' err)
           | Inr (Inr body) \<Rightarrow>
               (case ts_Unmarshal T body of
                  Inl err \<Rightarrow> Some (ErrWrap ''failed to unmarshal turnstile response'' err)
                | Inr (success, _) \<Rightarrow> if \<not> success then Some ErrTurnstileValidation else None)))"

section \<open>Signup and signin\<close>

definition Signup :: "auth_env \<Rightarrow> AuthService \<Rightarrow> SignupRequest \<Rightarrow> AuthResponse stm" where
  "Signup E s req =
     (case verifyTurnstileToken (ae_turnstile E) (su_TurnstileToken req) of
        Some err \<Rightarrow> dfail err
      | None \<Rightarrow>
      if su_Password req \<noteq> su_ConfirmPassword req then dfail (ErrNew ''passwords do not match'')
      else if su_Email req = '''' then dfail (ErrNew ''email is required'')
      else if su_Password req = '''' then dfail (ErrNew ''password is required'')
      else if length (su_Password req) < 6 then dfail (ErrNew ''password must be at least 6 characters'')
      else
        dbind (wrap_stm ''failed to check existing user'' (ExistsByEmail (su_Email req))) (\<lambda>exists.
        if exists then dfail ErrUserAlreadyExists
        else
        dbind (dlift (wrap_err ''failed to hash password'' (ae_Generate E (ae_salt E) (su_Password req)))) (\<lambda>hashedPassword.
        dbind (wrap_stm ''failed to get free plan'' (Plan_FindByType PlanTypeFree)) (\<lambda>freePlan.
        case freePlan of
          None \<Rightarrow> dfail (ErrNew ''free plan not found - please run migrations'')
        | Some freePlan \<Rightarrow>
            let user = \<lparr> user_ID = uuid_Nil, user_Email = su_Email req, user_Password = hashedPassword,
                         user_PlanID = plan_ID freePlan, user_CreatedAt = 0, user_UpdatedAt = 0,
                         user_DeletedAt = None \<rparr>
            in
            dbind (wrap_stm ''failed to create user'' (User_Create (ae_fresh E) (ae_created E) user)) (\<lambda>user.
            dbind (dlift (wrap_err ''failed to generate token''
                     (generateToken (ae_pkg E) (ae_rnd E) s (ae_now E) (user_ID user) (user_Email user)))) (\<lambda>token.
            dreturn \<lparr> ar_Token = token, ar_User = user \<rparr>))))))"

definition Signin :: "auth_env \<Rightarrow> AuthService \<Rightarrow> SigninRequest \<Rightarrow> AuthResponse stm" where
  "Signin E s req =
     (case verifyTurnstileToken (ae_turnstile E) (si_TurnstileToken req) of
        Some err \<Rightarrow> dfail err
      | None \<Rightarrow>
      if si_Email req = '''' then dfail (ErrNew ''email is required'')
      else if si_Password req = '''' then dfail (ErrNew ''password is required'')
      else
        dbind (wrap_stm ''failed to find user'' (User_FindByEmail (si_Email req))) (\<lambda>user.
        case user of
          None \<Rightarrow> dfail ErrUserNotFound
        | Some user \<Rightarrow>
            (case ae_Compare E (user_Password user) (si_Password req) of
               Some _ \<Rightarrow> dfail ErrInvalidPassword
             | None \<Rightarrow>
                 dbind (dlift (wrap_err ''failed to generate token''
                     (generateToken (ae_pkg E) (ae_rnd E) s (ae_now E) (user_ID user) (user_Email user)))) (\<lambda>token.
                 dreturn \<lparr> ar_Token = token, ar_User = user \<rparr>))))"

section \<open>Handlers\<close>

text \<open>
  The JSON text of a user: the password and the deletion mark have the tag \<open>-\<close>; the
  plan is not loaded with the user, so its zero value is printed.
\<close>

definition zero_plan :: Plan where
  "zero_plan = \<lparr> plan_ID = uuid_Nil, plan_Name = '''', plan_Type = '''', plan_WalletScanLimit = 0,
     plan_EndpointScanLimit = 0, plan_Price = 0, plan_IsActive = False, plan_CreatedAt = 0,
     plan_UpdatedAt = 0, plan_DeletedAt = None \<rparr>"

definition user_json :: "uuid_pkg \<Rightarrow> User \<Rightarrow> gval" where
  "user_json U u = GMap
     [(''id'', GStr (uuid_String U (user_ID u))), (''email'', GStr (user_Email u)),
      (''plan_id'', GStr (uuid_String U (user_PlanID u))), (''plan'', plan_json U zero_plan),
      (''created_at'', GTime (user_CreatedAt u)), (''updated_at'', GTime (user_UpdatedAt u))]"

definition auth_response_json :: "uuid_pkg \<Rightarrow> AuthResponse \<Rightarrow> gval" where
  "auth_response_json U r = GMap [(''token'', GStr (ar_Token r)), (''user'', user_json U (ar_User r))]"

definition handler_Signup ::
  "auth_env \<Rightarrow> uuid_pkg \<Rightarrow> AuthService \<Rightarrow> SignupRequest result \<Rightarrow> ctx \<Rightarrow> db \<Rightarrow> (goerr option \<times> ctx) \<times> db" where
  "handler_Signup E U s body c d =
     (case body of
        Inl _ \<Rightarrow> (status_json 400 [(''error'', GStr ''invalid request body'')] c, d)
      | Inr req \<Rightarrow>
          (case Signup E s req d of
             (Inl err, d') \<Rightarrow>
               (if err = ErrUserAlreadyExists then status_json 409 [(''error'', GStr (Error err))] c
                else status_json 400 [(''error'', GStr (Error err))] c, d')
           | (Inr response, d') \<Rightarrow> (ctx_JSON (auth_response_json U response) (ctx_Status 201 c), d')))"

text \<open>The cache service is absent or warms the cache; its error is only logged.\<close>

definition handler_Signin ::
  "auth_env \<Rightarrow> uuid_pkg \<Rightarrow> AuthService \<Rightarrow> (uuid \<Rightarrow> db \<Rightarrow> 'r \<Rightarrow> goerr option \<times> db \<times> 'r) option \<Rightarrow>
   SigninRequest result \<Rightarrow> ctx \<Rightarrow> db \<times> 'r \<Rightarrow> (goerr option \<times> ctx) \<times> db \<times> 'r" where
  "handler_Signin E U s userScanCache body c w =
     (case body of
        Inl _ \<Rightarrow> (status_json 400 [(''error'', GStr ''invalid request body'')] c, w)
      | Inr req \<Rightarrow>
          (case Signin E s req (fst w) of
             (Inl err, d') \<Rightarrow>
               (if err = ErrUserNotFound \<or> err = ErrInvalidPassword
                then status_json 401 [(''error'', GStr ''invalid email or password'')] c
                else status_json 400 [(''error'', GStr (Error err))] c, d', snd w)
           | (Inr response, d') \<Rightarrow>
               (let w' = (case userScanCache of
                            None \<Rightarrow> (d', snd w)
                          | Some warm \<Rightarrow> snd (warm (user_ID (ar_User response)) d' (snd w)))
                in (ctx_JSON (auth_response_json U response) c, w'))))"

definition ValidateSessionForCPM ::
  "auth_env \<Rightarrow> uuid_pkg \<Rightarrow> string option \<Rightarrow> AuthService option \<Rightarrow> string result \<Rightarrow> ctx \<Rightarrow> goerr option \<times> ctx" where
  "ValidateSessionForCPM E U random_hex authService body c =
     (let requestID = EnsureRequestID random_hex (req_Get c HeaderRequestID);
          c = ctx_Set HeaderRequestID requestID c in
      case body of
        Inl _ \<Rightarrow> status_json 400 [(''accepted'', GBool False), (''request_id'', GStr requestID),
                   (''error'', GStr ''invalid JSON body'')] c
      | Inr token \<Rightarrow>
          let raw = TrimSpace token in
          if raw = ''''
          then status_json 400 [(''accepted'', GBool False), (''request_id'', GStr requestID),
                 (''error'', GStr ''token is required'')] c
          else case authService of
            None \<Rightarrow> status_json 503 [(''accepted'', GBool False), (''request_id'', GStr requestID),
                 (''error'', GStr ''auth service unavailable'')] c
          | Some s \<Rightarrow>
              (case ValidateToken (ae_pkg E) s (ae_now E) raw of
                 Inl err \<Rightarrow> status_json 401 [(''accepted'', GBool False), (''request_id'', GStr requestID),
                    (''error_message'', GStr (Error err))] c
               | Inr claims \<Rightarrow>
                   ctx_JSON (GMap [(''accepted'', GBool True),
                      (''claims'', GMap [(''user_id'', GStr (uuid_String U (jc_UserID claims))),
                                         (''email'', GStr (jc_Email claims))]),
                      (''request_id'', GStr requestID)]) c))"


section \<open>Facts\<close>

lemma Exists_calm [simp]:
  "db_faults d = [] \<Longrightarrow> ExistsByEmail email d = (Inr (filter (\<lambda>u. user_Email u = email) (live_users d) \<noteq> []), d)"
  by (simp add: ExistsByEmail_def dreturn_def)

lemma User_Create_calm:
  assumes "db_faults d = []" and "User_Create fresh now u d = (r, d')"
  shows "r = Inl ErrDuplicatedKey \<and> d' = d
    \<or> r = Inr (user_row fresh now u) \<and> d' = d\<lparr>db_users := db_users d @ [user_row fresh now u]\<rparr>"
  using assms by (auto simp: User_Create_def Let_def dbind_def sql_change_def dreturn_def split: if_splits)

lemma user_row_sel [simp]:
  "user_Email (user_row fresh now u) = user_Email u" "user_Password (user_row fresh now u) = user_Password u"
  "user_PlanID (user_row fresh now u) = user_PlanID u" "user_DeletedAt (user_row fresh now u) = user_DeletedAt u"
  by (simp_all add: user_row_def Let_def User_BeforeCreate_def)

lemma wrap_stm_cases: "wrap_stm msg m d = (r, d') \<longleftrightarrow> (\<exists>r0. m d = (r0, d') \<and> r = wrap_err msg r0)"
  by (auto simp: wrap_stm_def split: prod.splits)

text \<open>A successful signup passed every check and wrote one row.\<close>

lemma Signup_Inr:
  assumes "db_faults d = []" and "Signup E s req d = (Inr resp, d')"
  shows "su_Password req \<noteq> '''' \<and> su_Email req \<noteq> '''' \<and> filter (\<lambda>u. user_Email u = su_Email req) (live_users d) = []
    \<and> (\<exists>h p. ae_Generate E (ae_salt E) (su_Password req) = Inr h
         \<and> first_of (sort_key (\<lambda>p. uint (plan_ID p))
              (filter (\<lambda>p. plan_Type p = PlanTypeFree \<and> plan_IsActive p = True) (live_plans d))) = Some p
         \<and> ar_User resp = user_row (ae_fresh E) (ae_created E)
              \<lparr> user_ID = uuid_Nil, user_Email = su_Email req, user_Password = h, user_PlanID = plan_ID p,
                user_CreatedAt = 0, user_UpdatedAt = 0, user_DeletedAt = None \<rparr>)
    \<and> d' = d\<lparr>db_users := db_users d @ [ar_User resp]\<rparr>"
proof -
  let ?plan = "first_of (sort_key (\<lambda>p. uint (plan_ID p))
     (filter (\<lambda>p. plan_Type p = PlanTypeFree \<and> plan_IsActive p = True) (live_plans d)))"
  have v: "verifyTurnstileToken (ae_turnstile E) (su_TurnstileToken req) = None"
    and c: "su_Password req = su_ConfirmPassword req" "su_Email req \<noteq> ''''" "su_Password req \<noteq> ''''"
      "\<not> length (su_Password req) < 6"
    using assms(2) by (auto simp: Signup_def split: option.splits if_splits)
  have e: "filter (\<lambda>u. user_Email u = su_Email req) (live_users d) = []"
    using assms c v by (auto simp: Signup_def split: if_splits)
  obtain h where h: "ae_Generate E (ae_salt E) (su_Password req) = Inr h"
    using assms c v e by (cases "ae_Generate E (ae_salt E) (su_Password req)") (auto simp: Signup_def dlift_def dbind_def [of "dlift _"])
  obtain p where p: "?plan = Some p"
    using assms c v e h by (cases ?plan) (auto simp: Signup_def dlift_def Plan_FindByType_def)
  let ?u = "\<lparr> user_ID = uuid_Nil, user_Email = su_Email req, user_Password = h, user_PlanID = plan_ID p,
                user_CreatedAt = 0, user_UpdatedAt = 0, user_DeletedAt = None \<rparr>"
  obtain r d1 where u: "User_Create (ae_fresh E) (ae_created E) ?u d = (r, d1)" by (rule prod.exhaust)
  have "r = Inr (user_row (ae_fresh E) (ae_created E) ?u) \<and> d1 = d\<lparr>db_users := db_users d @ [user_row (ae_fresh E) (ae_created E) ?u]\<rparr>"
    using User_Create_calm [OF assms(1) u] assms c v e h p u
    by (auto simp: Signup_def dlift_def Plan_FindByType_def dbind_def [of "wrap_stm ''failed to create user'' _"] wrap_stm_def)
  then have "ar_User resp = user_row (ae_fresh E) (ae_created E) ?u" "d' = d\<lparr>db_users := db_users d @ [ar_User resp]\<rparr>"
    using assms c v e h p u by (auto simp: Signup_def dlift_def Plan_FindByType_def dest!: dbind_Inr)
  with c e h p show ?thesis by auto
qed

definition taken :: "string \<Rightarrow> db \<Rightarrow> bool" where
  "taken email d \<longleftrightarrow> filter (\<lambda>u. user_Email u = email) (live_users d) \<noteq> []"

lemma Signup_taken:
  assumes "db_faults d = []" and "taken (su_Email req) d"
  shows "\<exists>e. Signup E s req d = (Inl e, d)"
  using assms
  by (auto simp: Signup_def taken_def dfail_def dbind_def wrap_stm_def split: option.splits)

lemma Signin_calm:
  assumes "db_faults d = []" and "filter (\<lambda>u. user_Email u = si_Email req) (live_users d) = [u]"
    and "verifyTurnstileToken (ae_turnstile E) (si_TurnstileToken req) = None"
    and "si_Email req \<noteq> ''''" and "si_Password req \<noteq> ''''"
  shows "Signin E s req d =
    (case ae_Compare E (user_Password u) (si_Password req) of
       Some _ \<Rightarrow> (Inl ErrInvalidPassword, d)
     | None \<Rightarrow> (case generateToken (ae_pkg E) (ae_rnd E) s (ae_now E) (user_ID u) (user_Email u) of
          Inl e \<Rightarrow> (Inl (ErrWrap ''failed to generate token'' e), d)
        | Inr tok \<Rightarrow> (Inr \<lparr> ar_Token = tok, ar_User = u \<rparr>, d)))"
  using assms
  by (simp add: Signin_def User_FindByEmail_def dlift_def dfail_def dreturn_def dbind_def [of "dlift _"]
      split: option.splits sum.splits)


section \<open>Properties\<close>

text \<open>What the code relies on of bcrypt: the hash of a password accepts it.\<close>

definition bcrypt_ok :: "auth_env \<Rightarrow> bool" where
  "bcrypt_ok E \<longleftrightarrow> (\<forall>salt p h. ae_Generate E salt p = Inr h \<longrightarrow> ae_Compare E h p = None)"

text \<open>
  C23: an account that signup creates can sign in. On a reachable database a
  successful signup adds exactly one user, with the given email and a free plan;
  afterwards signing in with that email and password returns a token for exactly
  this user, a password its hash does not accept is refused, and no second signup
  with the email succeeds or changes anything.
\<close>

theorem signup_then_signin:
  assumes "db_faults d = []" and "Signup E s req d = (Inr resp, d')"
    and "bcrypt_ok E" and "ae_Compare E' = ae_Compare E"
    and "si_Email rq = su_Email req" and "verifyTurnstileToken (ae_turnstile E') (si_TurnstileToken rq) = None"
    and "generateToken (ae_pkg E') (ae_rnd E') s (ae_now E') (user_ID (ar_User resp)) (su_Email req) = Inr tok"
  shows "d' = d\<lparr>db_users := db_users d @ [ar_User resp]\<rparr> \<and> user_Email (ar_User resp) = su_Email req
    \<and> (\<exists>p \<in> set (live_plans d). plan_Type p = PlanTypeFree \<and> plan_IsActive p \<and> user_PlanID (ar_User resp) = plan_ID p)
    \<and> (si_Password rq = su_Password req \<longrightarrow>
         Signin E' s rq d' = (Inr \<lparr> ar_Token = tok, ar_User = ar_User resp \<rparr>, d'))
    \<and> (si_Password rq \<noteq> '''' \<and> ae_Compare E (user_Password (ar_User resp)) (si_Password rq) \<noteq> None \<longrightarrow>
         Signin E' s rq d' = (Inl ErrInvalidPassword, d'))
    \<and> (\<forall>E2 req2. su_Email req2 = su_Email req \<longrightarrow> (\<exists>e. Signup E2 s req2 d' = (Inl e, d')))"
proof -
  let ?u = "ar_User resp"
  note s = Signup_Inr [OF assms(1,2)]
  obtain h p where h: "ae_Generate E (ae_salt E) (su_Password req) = Inr h" and u: "user_Password ?u = h"
      "user_Email ?u = su_Email req" "user_PlanID ?u = plan_ID p" "user_DeletedAt ?u = None"
    and p: "first_of (sort_key (\<lambda>p. uint (plan_ID p))
              (filter (\<lambda>p. plan_Type p = PlanTypeFree \<and> plan_IsActive p = True) (live_plans d))) = Some p"
    using s by auto
  have d': "d' = d\<lparr>db_users := db_users d @ [?u]\<rparr>" using s by blast
  have f: "db_faults d' = []" using assms(1) d' by simp
  have live: "filter (\<lambda>u. user_Email u = su_Email req) (live_users d') = [?u]"
    using s u by (simp add: live_users_def d')
  have one: "filter (\<lambda>u. user_Email u = si_Email rq) (live_users d') = [?u]"
    using live assms(5) by simp
  have ok: "ae_Compare E' h (su_Password req) = None"
    using assms(3,4) h by (auto simp: bcrypt_ok_def)
  have pl: "p \<in> set (live_plans d) \<and> plan_Type p = PlanTypeFree \<and> plan_IsActive p"
    using first_of_in [OF p] by auto
  have t: "taken (su_Email req) d'" using live by (simp add: taken_def)
  have "si_Email rq \<noteq> ''''" "su_Password req \<noteq> ''''" using s assms(5) by auto
  then have "Signin E' s rq d' = (case ae_Compare E' h (si_Password rq) of
       Some _ \<Rightarrow> (Inl ErrInvalidPassword, d') | None \<Rightarrow> (Inr \<lparr> ar_Token = tok, ar_User = ?u \<rparr>, d'))"
    if "si_Password rq \<noteq> ''''"
    using Signin_calm [OF f one assms(6) _ that, of s] assms(7) u by (simp split: option.split)
  with ok pl u d' assms(4) s Signup_taken [OF f] t show ?thesis
    by (auto split: option.splits)
qed

definition ex_auth_env :: auth_env where
  "ex_auth_env = \<lparr> ae_pkg = ex_auth (\<lambda>_. True), ae_turnstile = \<lparr> ts_SecretKey = '''', ts_Marshal = (\<lambda>_ _. Inr ''''),
       ts_Post = (\<lambda>_ _. Inr (Inr '''')), ts_Unmarshal = (\<lambda>_. Inr (True, [])) \<rparr>,
     ae_Generate = (\<lambda>salt p. Inr p), ae_Compare = (\<lambda>h p. if h = p then None else Some (ErrNew ''mismatch'')),
     ae_salt = '''', ae_rnd = ''r'', ae_fresh = 7, ae_created = 5, ae_now = seconds 10 \<rparr>"

definition ex_free_db :: db where
  "ex_free_db = \<lparr> db_dialect = ''postgres'', usage_events = [], scan_results = [], tls_scan_results = [],
     db_plans = [zero_plan\<lparr>plan_ID := 3, plan_Type := PlanTypeFree, plan_IsActive := True\<rparr>],
     db_users = [], db_wallets = [], db_locks = [], db_faults = [] \<rparr>"

definition ex_signup :: SignupRequest where
  "ex_signup = \<lparr> su_TurnstileToken = ''t'', su_Email = ''a@b.c'', su_Password = ''secret'', su_ConfirmPassword = ''secret'' \<rparr>"

lemma ex_generate: "\<exists>tok. generateToken (ae_pkg ex_auth_env) (ae_rnd ex_auth_env) ex_service (ae_now ex_auth_env) u e = Inr tok"
  using ex_token [of "\<lambda>_. True"] by (simp add: ex_auth_env_def)

lemma ex_signup_ok: "\<exists>resp d'. Signup ex_auth_env ex_service ex_signup ex_free_db = (Inr resp, d')"
proof -
  obtain tok where "generateToken (ae_pkg ex_auth_env) (ae_rnd ex_auth_env) ex_service (ae_now ex_auth_env) 7 ''a@b.c'' = Inr tok"
    using ex_generate by blast
  then show ?thesis
    by (simp add: Signup_def ex_signup_def ex_free_db_def ex_auth_env_def verifyTurnstileToken_def live_users_def
        dlift_def Plan_FindByType_def live_plans_def zero_plan_def User_Create_def user_row_def User_BeforeCreate_def
        sql_change_def dreturn_def dbind_def [of "sql_change _"] dbind_def wrap_stm_def Let_def IsZero_def PlanTypeFree_def)
qed

theorem signup_then_signin_witness:
  "\<exists>resp d' tok. Signup ex_auth_env ex_service ex_signup ex_free_db = (Inr resp, d')
     \<and> Signin ex_auth_env ex_service \<lparr> si_Email = ''a@b.c'', si_Password = ''secret'', si_TurnstileToken = ''t'' \<rparr> d'
         = (Inr \<lparr> ar_Token = tok, ar_User = ar_User resp \<rparr>, d')"
proof -
  obtain resp d' where s: "Signup ex_auth_env ex_service ex_signup ex_free_db = (Inr resp, d')"
    using ex_signup_ok by blast
  obtain tok where t: "generateToken (ae_pkg ex_auth_env) (ae_rnd ex_auth_env) ex_service (ae_now ex_auth_env)
      (user_ID (ar_User resp)) (su_Email ex_signup) = Inr tok" using ex_generate by blast
  let ?rq = "\<lparr> si_Email = ''a@b.c'', si_Password = ''secret'', si_TurnstileToken = ''t'' \<rparr>"
  have b: "bcrypt_ok ex_auth_env" by (simp add: bcrypt_ok_def ex_auth_env_def)
  have f: "db_faults ex_free_db = []" by (simp add: ex_free_db_def)
  have e: "si_Email ?rq = su_Email ex_signup" by (simp add: ex_signup_def)
  have v: "verifyTurnstileToken (ae_turnstile ex_auth_env) (si_TurnstileToken ?rq) = None"
    by (simp add: verifyTurnstileToken_def ex_auth_env_def)
  from signup_then_signin [OF f s b refl e v t] s show ?thesis by (auto simp: ex_signup_def)
qed


text \<open>The middleware reads the user and the email of the claims.\<close>

definition session_of :: "auth_pkg \<Rightarrow> AuthService \<Rightarrow> go_time \<Rightarrow> string \<Rightarrow> token_claims result" where
  "session_of K s now token =
     rbind (ValidateToken K s now token) (\<lambda>c. Inr \<lparr> claim_UserID = jc_UserID c, claim_Email = jc_Email c \<rparr>)"

text \<open>
  A signed-in route runs only for the user of an issued, unexpired token. The
  JWT middleware over the token validation either answers 401 without calling the
  handler, or calls it with the user of claims that were issued and have not
  expired, provided one of the two signature schemes is unforgeable.
\<close>

lemma session_gate:
  assumes "json_ok K" and "as_keys s = Some keys"
    and "ed_unforgeable K keys issued \<or> pqc_unforgeable K keys issued" and "\<forall>cl\<in>issued. json_claims cl"
  shows "(\<exists>r. (\<forall>(h :: 'w handler) w. JWTMiddleware (session_of K s now) h c w = (r, w)) \<and> resp_status (snd r) = 401)
   \<or> (\<exists>cl\<in>issued. \<exists>c'. \<not> expired now cl \<and> jc_UserID cl \<noteq> uuid_Nil
        \<and> getAuthenticatedUserID c' = (jc_UserID cl, None, c')
        \<and> (\<forall>(h :: 'w handler) w. JWTMiddleware (session_of K s now) h c w = h c' w))"
  using jwt_middleware_cases [where v = "session_of K s now" and c = c and 'w = 'w]
proof (elim disjE exE conjE)
  fix c' claims tok
  assume v: "session_of K s now tok = Inr claims" and n: "claim_UserID claims \<noteq> uuid_Nil"
    and a: "getAuthenticatedUserID c' = (claim_UserID claims, None, c')"
    and r: "\<forall>(h :: 'w handler) w. JWTMiddleware (session_of K s now) h c w = h c' w"
  obtain cl where "ValidateToken K s now tok = Inr cl" and u: "claim_UserID claims = jc_UserID cl"
    using v by (auto simp: session_of_def rbind_eq_Inr_iff)
  then have "cl \<in> issued \<and> \<not> expired now cl" using accepted_issued [OF assms] by blast
  with n a r u show ?thesis by auto
qed blast

definition ex_session_ctx :: "string \<Rightarrow> ctx" where
  "ex_session_ctx header = \<lparr> req_Get = (\<lambda>h. if h = ''Authorization'' then header else ''''),
     req_Params = (\<lambda>_. ''''), req_Query = (\<lambda>_. ''''), req_QueryInt = (\<lambda>_ n. n), req_QueryKeys = [], loc_user_id = None,
     loc_user_email = None, resp_status = 200, resp_body = None, resp_headers = [] \<rparr>"

lemma session_gate_witness:
  "json_ok (ex_auth (\<lambda>_. False)) \<and> pqc_unforgeable (ex_auth (\<lambda>_. False)) ex_keys {}
   \<and> (\<exists>r. (\<forall>(h :: unit handler) w. JWTMiddleware (session_of (ex_auth (\<lambda>_. False)) ex_service 0)
        h (ex_session_ctx ''Bearer x'') w = (r, w)) \<and> resp_status (snd r) = 401)"
proof -
  have u: "pqc_unforgeable (ex_auth (\<lambda>_. False)) ex_keys {}"
    by (auto simp: pqc_unforgeable_def MLDSA_Verify_def ex_auth_def split: if_splits)
  have k: "as_keys ex_service = Some ex_keys" by (simp add: ex_service_def)
  from session_gate [OF ex_json_ok k disjI2 [OF u], of 0 "ex_session_ctx ''Bearer x''", where 'w = unit] u ex_json_ok
  show ?thesis by simp
qed

end
