(* ===== verification/Cafe_Wallets.thy ===== *)
theory Cafe_Wallets
  imports Plan_Handlers
begin

text \<open>
  The wallets a user saves: \<open>src/internal/repository/cafe_wallet_repository.go\<close>,
  \<open>src/internal/service/cafe_wallet.go\<close> and \<open>src/internal/handler/cafe_wallet.go\<close>.

  The service knows the repository through its interface, a record of statements;
  the locale \<open>cafe_wallet_store\<close> holds the laws the service needs and is interpreted
  on the repository.  The table's primary key is the hash of the public key alone,
  and deletion only marks the row.
\<close>

section \<open>The repository\<close>

record CafeWalletRepository =
  cr_Create :: "CafeWallet \<Rightarrow> CafeWallet stm"
  cr_FindByID :: "string \<Rightarrow> uuid \<Rightarrow> CafeWallet option stm"
  cr_FindAllByUserID :: "uuid \<Rightarrow> CafeWallet list stm"
  cr_Update :: "CafeWallet \<Rightarrow> unit stm"
  cr_Delete :: "string \<Rightarrow> uuid \<Rightarrow> unit stm"

definition live_wallets :: "db \<Rightarrow> CafeWallet list" where
  "live_wallets d = filter (\<lambda>w. cw_DeletedAt w = None) (db_wallets d)"

definition wallet_row :: "go_time \<Rightarrow> CafeWallet \<Rightarrow> CafeWallet" where
  "wallet_row now w =
     w\<lparr>cw_CreatedAt := (if IsZero (cw_CreatedAt w) then now else cw_CreatedAt w),
       cw_UpdatedAt := (if IsZero (cw_UpdatedAt w) then now else cw_UpdatedAt w)\<rparr>"

definition CafeWallet_Create :: "go_time \<Rightarrow> CafeWallet \<Rightarrow> CafeWallet stm" where
  "CafeWallet_Create now wallet =
     (let w = wallet_row now wallet in
      dbind (sql_change (\<lambda>d. if cw_PubKeyHash w \<in> cw_PubKeyHash ` set (db_wallets d) then Inl ErrDuplicatedKey
                             else Inr (d\<lparr>db_wallets := db_wallets d @ [w]\<rparr>)))
        (\<lambda>_. dreturn w))"

definition owned_row :: "string \<Rightarrow> uuid \<Rightarrow> CafeWallet \<Rightarrow> bool" where
  "owned_row pubKeyHash userID w \<longleftrightarrow> cw_PubKeyHash w = pubKeyHash \<and> cw_UserID w = userID \<and> cw_DeletedAt w = None"

text \<open>\<open>First\<close> orders by the primary key, which the condition fixes.\<close>

definition CafeWallet_FindByID :: "string \<Rightarrow> uuid \<Rightarrow> CafeWallet option stm" where
  "CafeWallet_FindByID pubKeyHash userID = first_or_nil (\<lambda>d. filter (owned_row pubKeyHash userID) (db_wallets d))"

definition CafeWallet_FindAllByUserID :: "uuid \<Rightarrow> CafeWallet list stm" where
  "CafeWallet_FindAllByUserID userID = sql_query (\<lambda>d. sort_key (\<lambda>w. - cw_CreatedAt w)
     (filter (\<lambda>w. cw_UserID w = userID) (live_wallets d)))"

text \<open>A statement on the rows of a condition, and the number of rows it touched.\<close>

definition change_rows :: "(CafeWallet \<Rightarrow> bool) \<Rightarrow> (CafeWallet \<Rightarrow> CafeWallet) \<Rightarrow> unit stm" where
  "change_rows P f =
     dbind (sql_exec (\<lambda>d. (length (filter P (db_wallets d)),
              d\<lparr>db_wallets := map (\<lambda>w. if P w then f w else w) (db_wallets d)\<rparr>)))
       (\<lambda>rowsAffected. if rowsAffected = 0 then dfail ErrRecordNotFound else dreturn ())"

definition CafeWallet_Update :: "go_time \<Rightarrow> CafeWallet \<Rightarrow> unit stm" where
  "CafeWallet_Update now wallet =
     change_rows (owned_row (cw_PubKeyHash wallet) (cw_UserID wallet))
       (\<lambda>w. w\<lparr>cw_UserPubKey := cw_UserPubKey wallet, cw_Label := cw_Label wallet, cw_UpdatedAt := now\<rparr>)"

definition CafeWallet_Delete :: "go_time \<Rightarrow> string \<Rightarrow> uuid \<Rightarrow> unit stm" where
  "CafeWallet_Delete now pubKeyHash userID =
     change_rows (owned_row pubKeyHash userID) (\<lambda>w. w\<lparr>cw_DeletedAt := Some now\<rparr>)"

definition NewCafeWalletRepository :: "go_time \<Rightarrow> CafeWalletRepository" where
  "NewCafeWalletRepository now = \<lparr> cr_Create = CafeWallet_Create now, cr_FindByID = CafeWallet_FindByID,
     cr_FindAllByUserID = CafeWallet_FindAllByUserID, cr_Update = CafeWallet_Update now,
     cr_Delete = CafeWallet_Delete now \<rparr>"

section \<open>The service\<close>

definition ErrWalletNotFound :: goerr where "ErrWalletNotFound = ErrNew ''wallet not found''"
definition ErrWalletExists :: goerr where "ErrWalletExists = ErrNew ''wallet already exists''"

record CreateWalletRequest =
  cwr_PubKeyHash :: string
  cwr_UserPubKey :: string
  cwr_Label :: string

record UpdateWalletRequest =
  uwr_UserPubKey :: string
  uwr_Label :: string

definition CreateWallet :: "CafeWalletRepository \<Rightarrow> uuid \<Rightarrow> CreateWalletRequest \<Rightarrow> CafeWallet stm" where
  "CreateWallet R userID req =
     (if cwr_PubKeyHash req = '''' then dfail (ErrNew ''pub_key_hash is required'')
      else if cwr_UserPubKey req = '''' then dfail (ErrNew ''user_pub_key is required'')
      else
        dbind (wrap_stm ''failed to check existing wallet'' (cr_FindByID R (cwr_PubKeyHash req) userID)) (\<lambda>existing.
        if existing \<noteq> None then dfail ErrWalletExists
        else
          let wallet = \<lparr> cw_PubKeyHash = cwr_PubKeyHash req, cw_UserID = userID, cw_UserPubKey = cwr_UserPubKey req,
                         cw_Label = cwr_Label req, cw_CreatedAt = 0, cw_UpdatedAt = 0, cw_DeletedAt = None \<rparr>
          in wrap_stm ''failed to create wallet'' (cr_Create R wallet)))"

definition GetWallet :: "CafeWalletRepository \<Rightarrow> uuid \<Rightarrow> string \<Rightarrow> CafeWallet stm" where
  "GetWallet R userID pubKeyHash =
     dbind (wrap_stm ''failed to get wallet'' (cr_FindByID R pubKeyHash userID)) (\<lambda>wallet.
     case wallet of None \<Rightarrow> dfail ErrWalletNotFound | Some wallet \<Rightarrow> dreturn wallet)"

definition GetAllWallets :: "CafeWalletRepository \<Rightarrow> uuid \<Rightarrow> CafeWallet list stm" where
  "GetAllWallets R userID = wrap_stm ''failed to get wallets'' (cr_FindAllByUserID R userID)"

definition updated_fields :: "UpdateWalletRequest \<Rightarrow> CafeWallet \<Rightarrow> CafeWallet" where
  "updated_fields req wallet =
     (let wallet = (if uwr_UserPubKey req \<noteq> '''' then wallet\<lparr>cw_UserPubKey := uwr_UserPubKey req\<rparr> else wallet)
      in if uwr_Label req \<noteq> '''' then wallet\<lparr>cw_Label := uwr_Label req\<rparr> else wallet)"

definition UpdateWallet ::
  "CafeWalletRepository \<Rightarrow> uuid \<Rightarrow> string \<Rightarrow> UpdateWalletRequest \<Rightarrow> CafeWallet option stm" where
  "UpdateWallet R userID pubKeyHash req =
     dbind (wrap_stm ''failed to get wallet'' (cr_FindByID R pubKeyHash userID)) (\<lambda>wallet.
     case wallet of None \<Rightarrow> dfail ErrWalletNotFound | Some wallet \<Rightarrow>
     dbind (wrap_stm ''failed to update wallet'' (cr_Update R (updated_fields req wallet))) (\<lambda>_.
     wrap_stm ''failed to get updated wallet'' (cr_FindByID R pubKeyHash userID)))"

definition DeleteWallet :: "CafeWalletRepository \<Rightarrow> uuid \<Rightarrow> string \<Rightarrow> unit stm" where
  "DeleteWallet R userID pubKeyHash =
     dbind (wrap_stm ''failed to get wallet'' (cr_FindByID R pubKeyHash userID)) (\<lambda>wallet.
     case wallet of None \<Rightarrow> dfail ErrWalletNotFound | Some wallet \<Rightarrow>
     wrap_stm ''failed to delete wallet'' (cr_Delete R pubKeyHash userID))"


section \<open>Handlers\<close>

definition errPubKeyHashRequired :: string where "errPubKeyHashRequired = ''pub_key_hash is required''"

definition wallet_json :: "uuid_pkg \<Rightarrow> CafeWallet \<Rightarrow> gval" where
  "wallet_json U w = GMap
     [(''pub_key_hash'', GStr (cw_PubKeyHash w)), (''user_id'', GStr (uuid_String U (cw_UserID w))),
      (''user_pub_key'', GStr (cw_UserPubKey w)), (''label'', GStr (cw_Label w)),
      (''created_at'', GTime (cw_CreatedAt w)), (''updated_at'', GTime (cw_UpdatedAt w))]"

text \<open>The user check returns a nil error also after it has answered 401, so the handlers go on.\<close>

definition with_user :: "(uuid \<Rightarrow> db_handler) \<Rightarrow> db_handler" where
  "with_user h c d =
     (case requireAuthenticatedUserID c of
        (_, Some err, c') \<Rightarrow> ((Some err, c'), d)
      | (userID, None, c') \<Rightarrow> h userID c' d)"

definition handler_CreateWallet ::
  "uuid_pkg \<Rightarrow> CafeWalletRepository \<Rightarrow> CreateWalletRequest result \<Rightarrow> db_handler" where
  "handler_CreateWallet U R body = with_user (\<lambda>userID c d.
     case body of
       Inl _ \<Rightarrow> (status_json 400 [(''error'', GStr ''invalid request body'')] c, d)
     | Inr req \<Rightarrow>
         (case CreateWallet R userID req d of
            (Inl err, d') \<Rightarrow> (if err = ErrWalletExists then error_answer 409 err c else error_answer 400 err c, d')
          | (Inr wallet, d') \<Rightarrow> (ctx_JSON (wallet_json U wallet) (ctx_Status 201 c), d')))"

definition handler_GetWallet :: "uuid_pkg \<Rightarrow> CafeWalletRepository \<Rightarrow> db_handler" where
  "handler_GetWallet U R = with_user (\<lambda>userID c d.
     let pubKeyHash = req_Params c ''pubKeyHash'' in
     if pubKeyHash = '''' then (status_json 400 [(''error'', GStr errPubKeyHashRequired)] c, d)
     else case GetWallet R userID pubKeyHash d of
       (Inl err, d') \<Rightarrow> (if err = ErrWalletNotFound then error_answer 404 err c else error_answer 500 err c, d')
     | (Inr wallet, d') \<Rightarrow> (ctx_JSON (wallet_json U wallet) c, d'))"

definition handler_GetAllWallets :: "uuid_pkg \<Rightarrow> CafeWalletRepository \<Rightarrow> db_handler" where
  "handler_GetAllWallets U R = with_user (\<lambda>userID c d.
     case GetAllWallets R userID d of
       (Inl err, d') \<Rightarrow> (error_answer 500 err c, d')
     | (Inr wallets, d') \<Rightarrow>
         (ctx_JSON (GMap [(''wallets'', GList (map (wallet_json U) wallets)),
            (''count'', GInt (int (length wallets)))]) c, d'))"

text \<open>A nil updated wallet is printed as \<open>null\<close>.\<close>

definition handler_UpdateWallet ::
  "uuid_pkg \<Rightarrow> CafeWalletRepository \<Rightarrow> UpdateWalletRequest result \<Rightarrow> db_handler" where
  "handler_UpdateWallet U R body = with_user (\<lambda>userID c d.
     let pubKeyHash = req_Params c ''pubKeyHash'' in
     if pubKeyHash = '''' then (status_json 400 [(''error'', GStr errPubKeyHashRequired)] c, d)
     else case body of
       Inl _ \<Rightarrow> (status_json 400 [(''error'', GStr ''invalid request body'')] c, d)
     | Inr req \<Rightarrow>
         (case UpdateWallet R userID pubKeyHash req d of
            (Inl err, d') \<Rightarrow> (if err = ErrWalletNotFound then error_answer 404 err c else error_answer 400 err c, d')
          | (Inr wallet, d') \<Rightarrow>
              (ctx_JSON (case wallet of None \<Rightarrow> GNil | Some w \<Rightarrow> wallet_json U w) c, d')))"

definition handler_DeleteWallet :: "CafeWalletRepository \<Rightarrow> db_handler" where
  "handler_DeleteWallet R = with_user (\<lambda>userID c d.
     let pubKeyHash = req_Params c ''pubKeyHash'' in
     if pubKeyHash = '''' then (status_json 400 [(''error'', GStr errPubKeyHashRequired)] c, d)
     else case DeleteWallet R userID pubKeyHash d of
       (Inl err, d') \<Rightarrow> (if err = ErrWalletNotFound then error_answer 404 err c else error_answer 500 err c, d')
     | (Inr _, d') \<Rightarrow> ((None, ctx_Status 204 c), d'))"

section \<open>The interface of the repository\<close>

text \<open>
  \<open>saved d h u\<close> is the wallet the user \<open>u\<close> has under the hash \<open>h\<close>; \<open>ready d\<close> says that
  the database answers and that its primary key holds.
\<close>

definition set_saved :: "string \<Rightarrow> uuid \<Rightarrow> CafeWallet option \<Rightarrow> (string \<Rightarrow> uuid \<Rightarrow> CafeWallet option) \<Rightarrow>
    string \<Rightarrow> uuid \<Rightarrow> CafeWallet option" where
  "set_saved h u w m h' u' = (if h' = h \<and> u' = u then w else m h' u')"

locale cafe_wallet_store =
  fixes R :: CafeWalletRepository
    and ready :: "db \<Rightarrow> bool"
    and saved :: "db \<Rightarrow> string \<Rightarrow> uuid \<Rightarrow> CafeWallet option"
    and now :: go_time
  assumes find_saved: "ready d \<Longrightarrow> cr_FindByID R h u d = (Inr (saved d h u), d)"
    and create_saved: "\<lbrakk> ready d; cw_DeletedAt w = None; cr_Create R w d = (r, d') \<rbrakk> \<Longrightarrow>
      ready d' \<and> (case r of Inl _ \<Rightarrow> saved d' = saved d
        | Inr w' \<Rightarrow> w' = wallet_row now w \<and> saved d' = set_saved (cw_PubKeyHash w) (cw_UserID w) (Some w') (saved d))"
    and update_saved: "\<lbrakk> ready d; saved d (cw_PubKeyHash w) (cw_UserID w) = Some old; cr_Update R w d = (r2, d') \<rbrakk> \<Longrightarrow>
      ready d' \<and> r2 = Inr () \<and> saved d' = set_saved (cw_PubKeyHash w) (cw_UserID w)
        (Some (old\<lparr>cw_UserPubKey := cw_UserPubKey w, cw_Label := cw_Label w, cw_UpdatedAt := now\<rparr>)) (saved d)"
    and delete_saved: "\<lbrakk> ready d; saved d h u = Some old; cr_Delete R h u d = (r2, d') \<rbrakk> \<Longrightarrow>
      ready d' \<and> r2 = Inr () \<and> saved d' = set_saved h u None (saved d)"
    and saved_key: "saved d h u = Some w \<Longrightarrow> cw_PubKeyHash w = h \<and> cw_UserID w = u"
begin

lemma get_wallet:
  "ready d \<Longrightarrow> GetWallet R u h d = (case saved d h u of None \<Rightarrow> (Inl ErrWalletNotFound, d) | Some w \<Rightarrow> (Inr w, d))"
  by (simp add: GetWallet_def find_saved dfail_def dreturn_def split: option.splits)

lemma create_wallet:
  assumes "ready d" and "CreateWallet R u req d = (r, d')"
  shows "ready d' \<and> (case r of Inl _ \<Rightarrow> saved d' = saved d
    | Inr w \<Rightarrow> saved d (cwr_PubKeyHash req) u = None \<and> cw_UserPubKey w = cwr_UserPubKey req \<and> cw_Label w = cwr_Label req
        \<and> saved d' = set_saved (cwr_PubKeyHash req) u (Some w) (saved d))"
proof (cases "cwr_PubKeyHash req = '''' \<or> cwr_UserPubKey req = '''' \<or> saved d (cwr_PubKeyHash req) u \<noteq> None")
  case True
  then show ?thesis
    using assms by (auto simp: CreateWallet_def find_saved split: if_splits)
next
  case False
  let ?w = "\<lparr> cw_PubKeyHash = cwr_PubKeyHash req, cw_UserID = u, cw_UserPubKey = cwr_UserPubKey req,
     cw_Label = cwr_Label req, cw_CreatedAt = 0, cw_UpdatedAt = 0, cw_DeletedAt = None \<rparr>"
  obtain r0 where c: "cr_Create R ?w d = (r0, d')" and r: "r = wrap_err ''failed to create wallet'' r0"
    using False assms by (auto simp: CreateWallet_def find_saved wrap_stm_def split: prod.splits)
  from create_saved [OF assms(1) _ c] False r show ?thesis
    by (cases r0) (auto simp: wallet_row_def)
qed

lemma update_wallet:
  assumes "ready d" and "UpdateWallet R u h req d = (r, d')"
  shows "ready d' \<and> (case saved d h u of
      None \<Rightarrow> r = Inl ErrWalletNotFound \<and> d' = d
    | Some w \<Rightarrow> (let w' = (updated_fields req w)\<lparr>cw_UpdatedAt := now\<rparr> in
        r = Inr (Some w') \<and> saved d' = set_saved h u (Some w') (saved d)))"
proof (cases "saved d h u")
  case None
  then show ?thesis using assms by (simp add: UpdateWallet_def find_saved)
next
  case (Some w)
  let ?w = "updated_fields req w"
  have k: "cw_PubKeyHash ?w = h" "cw_UserID ?w = u"
    and f: "w\<lparr>cw_UserPubKey := cw_UserPubKey ?w, cw_Label := cw_Label ?w, cw_UpdatedAt := now\<rparr> = ?w\<lparr>cw_UpdatedAt := now\<rparr>"
    using saved_key [OF Some] by (simp_all add: updated_fields_def Let_def)
  obtain r0 d0 where c: "cr_Update R ?w d = (r0, d0)" by (rule prod.exhaust)
  have st: "ready d0" "r0 = Inr ()" "saved d0 = set_saved h u (Some (?w\<lparr>cw_UpdatedAt := now\<rparr>)) (saved d)"
    using update_saved [OF assms(1) _ c] Some k f by auto
  then have "UpdateWallet R u h req d = (Inr (Some (?w\<lparr>cw_UpdatedAt := now\<rparr>)), d0)"
    using assms(1) Some c by (simp add: UpdateWallet_def find_saved set_saved_def)
  with st Some assms(2) show ?thesis by simp
qed

lemma delete_wallet:
  assumes "ready d" and "DeleteWallet R u h d = (r, d')"
  shows "ready d' \<and> (case saved d h u of
      None \<Rightarrow> r = Inl ErrWalletNotFound \<and> d' = d
    | Some _ \<Rightarrow> r = Inr () \<and> saved d' = set_saved h u None (saved d))"
proof (cases "saved d h u")
  case None
  then show ?thesis using assms by (simp add: DeleteWallet_def find_saved)
next
  case (Some w)
  then obtain r0 where c: "cr_Delete R h u d = (r0, d')" and r: "r = wrap_err ''failed to delete wallet'' r0"
    using assms by (auto simp: DeleteWallet_def find_saved wrap_stm_def split: prod.splits)
  from delete_saved [OF assms(1) Some c] Some r show ?thesis by simp
qed

end


section \<open>The repository meets the interface\<close>

definition wallets_ready :: "db \<Rightarrow> bool" where
  "wallets_ready d \<longleftrightarrow> db_faults d = [] \<and> distinct (map cw_PubKeyHash (db_wallets d))"

definition saved_wallet :: "db \<Rightarrow> string \<Rightarrow> uuid \<Rightarrow> CafeWallet option" where
  "saved_wallet d h u = first_of (filter (owned_row h u) (db_wallets d))"

lemma change_rows_calm:
  assumes "db_faults d = []" and "filter P (db_wallets d) \<noteq> []"
  shows "change_rows P f d = (Inr (), d\<lparr>db_wallets := map (\<lambda>w. if P w then f w else w) (db_wallets d)\<rparr>)"
  using assms by (simp add: change_rows_def dreturn_def)

lemma first_of_map: "first_of (map g xs) = map_option g (first_of xs)"
  by (cases xs) simp_all

lemma first_of_changed:
  assumes "\<And>x. P x \<Longrightarrow> P (f x)"
  shows "first_of (filter P (map (\<lambda>w. if P w then f w else w) xs)) = map_option f (first_of (filter P xs))"
proof -
  have "filter P (map (\<lambda>w. if P w then f w else w) xs) = map f (filter P xs)"
    using assms by (induction xs) simp_all
  then show ?thesis by (simp add: first_of_map)
qed

lemma filter_untouched:
  assumes "\<And>x. P x \<Longrightarrow> \<not> Q x \<and> \<not> Q (f x)"
  shows "filter Q (map (\<lambda>w. if P w then f w else w) xs) = filter Q xs"
  using assms by (induction xs) auto

lemma changed_keys:
  assumes "wallets_ready d" and "\<And>w. cw_PubKeyHash (f w) = cw_PubKeyHash w"
  shows "wallets_ready (d\<lparr>db_wallets := map (\<lambda>w. if P w then f w else w) (db_wallets d)\<rparr>)"
proof -
  have "map cw_PubKeyHash (map (\<lambda>w. if P w then f w else w) xs) = map cw_PubKeyHash xs" for xs
    using assms(2) by (induction xs) simp_all
  then show ?thesis using assms(1) by (simp add: wallets_ready_def del: map_map)
qed

lemma saved_not_None: "saved_wallet d h u = Some w \<Longrightarrow> filter (owned_row h u) (db_wallets d) \<noteq> []"
  by (auto simp: saved_wallet_def)

lemma repo_create:
  assumes "wallets_ready d" and "cw_DeletedAt w = None" and "CafeWallet_Create now w d = (r, d')"
  shows "wallets_ready d' \<and> (case r of Inl _ \<Rightarrow> saved_wallet d' = saved_wallet d
    | Inr w' \<Rightarrow> w' = wallet_row now w
        \<and> saved_wallet d' = set_saved (cw_PubKeyHash w) (cw_UserID w) (Some w') (saved_wallet d))"
proof (cases "cw_PubKeyHash w \<in> cw_PubKeyHash ` set (db_wallets d)")
  case True
  then have "r = Inl ErrDuplicatedKey \<and> d' = d"
    using assms by (auto simp: CafeWallet_Create_def wallets_ready_def wallet_row_def Let_def dbind_def sql_change_def)
  with assms(1) show ?thesis by simp
next
  case False
  let ?w = "wallet_row now w"
  have r: "r = Inr ?w" "d' = d\<lparr>db_wallets := db_wallets d @ [?w]\<rparr>"
    using False assms by (auto simp: CafeWallet_Create_def wallets_ready_def wallet_row_def Let_def dbind_def sql_change_def)
  have ow: "owned_row h u ?w \<longleftrightarrow> h = cw_PubKeyHash w \<and> u = cw_UserID w" for h u
    using assms(2) by (auto simp: owned_row_def wallet_row_def)
  have none: "filter (owned_row (cw_PubKeyHash w) u) (db_wallets d) = []" for u
  proof -
    have "\<not> owned_row (cw_PubKeyHash w) u x" if "x \<in> set (db_wallets d)" for x
      using False that by (metis image_eqI owned_row_def)
    then show ?thesis by (simp add: filter_empty_conv)
  qed
  have "saved_wallet d' h u = set_saved (cw_PubKeyHash w) (cw_UserID w) (Some ?w) (saved_wallet d) h u" for h u
    using none by (simp add: saved_wallet_def set_saved_def r ow)
  then have "saved_wallet d' = set_saved (cw_PubKeyHash w) (cw_UserID w) (Some ?w) (saved_wallet d)"
    by (intro ext)
  moreover have "wallets_ready d'"
    using assms(1) False by (simp add: r wallets_ready_def wallet_row_def)
  ultimately show ?thesis by (simp add: r)
qed

lemma repo_update:
  assumes "wallets_ready d" and "saved_wallet d (cw_PubKeyHash w) (cw_UserID w) = Some old"
    and "CafeWallet_Update now w d = (r, d')"
  shows "wallets_ready d' \<and> r = Inr () \<and> saved_wallet d' = set_saved (cw_PubKeyHash w) (cw_UserID w)
    (Some (old\<lparr>cw_UserPubKey := cw_UserPubKey w, cw_Label := cw_Label w, cw_UpdatedAt := now\<rparr>)) (saved_wallet d)"
proof -
  let ?P = "owned_row (cw_PubKeyHash w) (cw_UserID w)"
  let ?f = "\<lambda>x. x\<lparr>cw_UserPubKey := cw_UserPubKey w, cw_Label := cw_Label w, cw_UpdatedAt := now\<rparr>"
  have u: "r = Inr ()" "d' = d\<lparr>db_wallets := map (\<lambda>x. if ?P x then ?f x else x) (db_wallets d)\<rparr>"
    using change_rows_calm [OF _ saved_not_None [OF assms(2)], of ?f] assms(1,3)
    by (simp_all add: CafeWallet_Update_def wallets_ready_def)
  have "saved_wallet d' h u = set_saved (cw_PubKeyHash w) (cw_UserID w) (Some (?f old)) (saved_wallet d) h u" for h u
  proof (cases "h = cw_PubKeyHash w \<and> u = cw_UserID w")
    case True
    then show ?thesis
      using assms(2) first_of_changed [of ?P ?f "db_wallets d"] u
      by (simp add: saved_wallet_def set_saved_def owned_row_def)
  next
    case False
    then have "filter (owned_row h u) (map (\<lambda>x. if ?P x then ?f x else x) (db_wallets d)) = filter (owned_row h u) (db_wallets d)"
      by (intro filter_untouched) (auto simp: owned_row_def)
    then have "saved_wallet d' h u = saved_wallet d h u" by (simp add: saved_wallet_def u)
    with False show ?thesis by (auto simp: set_saved_def)
  qed
  then show ?thesis using u changed_keys [OF assms(1), of ?f ?P] by (simp add: fun_eq_iff)
qed

lemma repo_delete:
  assumes "wallets_ready d" and "saved_wallet d h u = Some old" and "CafeWallet_Delete now h u d = (r, d')"
  shows "wallets_ready d' \<and> r = Inr () \<and> saved_wallet d' = set_saved h u None (saved_wallet d)"
proof -
  let ?f = "\<lambda>x. x\<lparr>cw_DeletedAt := Some now\<rparr>"
  have d: "r = Inr ()" "d' = d\<lparr>db_wallets := map (\<lambda>x. if owned_row h u x then ?f x else x) (db_wallets d)\<rparr>"
    using change_rows_calm [OF _ saved_not_None [OF assms(2)], of ?f] assms(1,3)
    by (simp_all add: CafeWallet_Delete_def wallets_ready_def)
  have "saved_wallet d' h' u' = set_saved h u None (saved_wallet d) h' u'" for h' u'
  proof (cases "h' = h \<and> u' = u")
    case True
    have "filter (owned_row h u) (map (\<lambda>x. if owned_row h u x then ?f x else x) xs) = []" for xs
      by (induction xs) (auto simp: owned_row_def)
    with True show ?thesis by (simp add: saved_wallet_def set_saved_def d)
  next
    case False
    then have "filter (owned_row h' u') (map (\<lambda>x. if owned_row h u x then ?f x else x) (db_wallets d))
        = filter (owned_row h' u') (db_wallets d)"
      by (intro filter_untouched) (auto simp: owned_row_def)
    then have "saved_wallet d' h' u' = saved_wallet d h' u'" by (simp add: saved_wallet_def d)
    with False show ?thesis by (auto simp: set_saved_def)
  qed
  then show ?thesis using d changed_keys [OF assms(1), of ?f "owned_row h u"] by (simp add: fun_eq_iff)
qed

lemma repo_ops [simp]:
  "cr_Create (NewCafeWalletRepository now) = CafeWallet_Create now"
  "cr_FindByID (NewCafeWalletRepository now) = CafeWallet_FindByID"
  "cr_Update (NewCafeWalletRepository now) = CafeWallet_Update now"
  "cr_Delete (NewCafeWalletRepository now) = CafeWallet_Delete now"
  by (simp_all add: NewCafeWalletRepository_def)

lemma repo_find: "wallets_ready d \<Longrightarrow> CafeWallet_FindByID h u d = (Inr (saved_wallet d h u), d)"
  by (simp add: CafeWallet_FindByID_def saved_wallet_def wallets_ready_def)

lemma saved_wallet_key: "saved_wallet d h u = Some w \<Longrightarrow> cw_PubKeyHash w = h \<and> cw_UserID w = u"
  unfolding saved_wallet_def by (drule first_of_in) (simp add: owned_row_def)

interpretation cafe_repo: cafe_wallet_store "NewCafeWalletRepository now" wallets_ready saved_wallet now for now
  by (unfold_locales, unfold repo_ops)
    (fact repo_find | fact repo_create | fact repo_update | fact repo_delete | fact saved_wallet_key)+

section \<open>Properties\<close>


definition ex_wallet_db :: db where
  "ex_wallet_db = \<lparr> db_dialect = ''postgres'', usage_events = [], scan_results = [], tls_scan_results = [],
     db_plans = [], db_users = [], db_wallets = [\<lparr> cw_PubKeyHash = ''aa'', cw_UserID = 1, cw_UserPubKey = ''k'',
       cw_Label = ''one'', cw_CreatedAt = 2, cw_UpdatedAt = 2, cw_DeletedAt = None \<rparr>], db_locks = [], db_faults = [] \<rparr>"


text \<open>
  A deleted wallet keeps its row and the key is the hash alone: while a row with the
  hash exists, of another user or deleted, creating the wallet fails although the
  user has none.
\<close>

lemma hash_taken_create_fails:
  assumes "wallets_ready d" and "h \<in> cw_PubKeyHash ` set (db_wallets d)" and "saved_wallet d h u = None"
    and "h \<noteq> ''''" and "k \<noteq> ''''"
  shows "CreateWallet (NewCafeWalletRepository now) u \<lparr> cwr_PubKeyHash = h, cwr_UserPubKey = k, cwr_Label = l \<rparr> d
    = (Inl (ErrWrap ''failed to create wallet'' ErrDuplicatedKey), d)"
proof -
  have c: "CafeWallet_Create now w d = (Inl ErrDuplicatedKey, d)" if "cw_PubKeyHash w = h" for w
    using assms(1,2) that
    by (simp add: CafeWallet_Create_def wallets_ready_def wallet_row_def Let_def dbind_def sql_change_def)
  show ?thesis
    using assms(1,3-5) cafe_repo.find_saved [OF assms(1), where now = now, of h u]
    by (simp add: CreateWallet_def wrap_stm_def [of "''failed to create wallet''"] c)
qed

end
