(* ===== verification/Startup.thy ===== *)
theory Startup
  imports Tls_Cache Plan_Service Scanner_Presence
begin

text \<open>
  The migrations that run before the service serves: \<open>src/internal/app/migrations.go\<close> and
  the plan functions of \<open>src/internal/app/container.go\<close>.

  Creating the tables (\<open>AutoMigrate\<close>) and the list of existing tables are the database's:
  arguments.
\<close>

section \<open>Migrations\<close>

definition scanTablesOwnedByPersistence :: "string list" where
  "scanTablesOwnedByPersistence = [''scan_results'', ''tls_scan_results'', ''scan_usage_events'']"

text \<open>The error of the lookup is dropped: a failing lookup is followed by an insertion.\<close>

definition ensurePlanExists :: "uuid \<Rightarrow> go_time \<Rightarrow> string \<Rightarrow> Plan \<Rightarrow> Plan stm" where
  "ensurePlanExists fresh now planType defaultPlan d =
     (case Plan_FindByType planType d of
        (Inr (Some plan), d') \<Rightarrow> (Inr plan, d')
      | (_, d') \<Rightarrow> wrap_stm (''failed to create '' @ planType @ '' plan'') (Plan_Create fresh now defaultPlan) d')"

definition without_plan :: "db \<Rightarrow> User list" where
  "without_plan d = filter (\<lambda>u. user_PlanID u = uuid_Nil) (live_users d)"

definition set_plan :: "go_time \<Rightarrow> uuid \<Rightarrow> uuid \<Rightarrow> unit stm" where
  "set_plan now userID planID = sql_exec (\<lambda>d. ((), d\<lparr>db_users := map (\<lambda>u.
     if user_ID u = userID \<and> user_DeletedAt u = None then u\<lparr>user_PlanID := planID, user_UpdatedAt := now\<rparr> else u) (db_users d)\<rparr>))"

fun assign_loop :: "go_time \<Rightarrow> uuid \<Rightarrow> User list \<Rightarrow> db \<Rightarrow> db" where
  "assign_loop now planID [] d = d"
| "assign_loop now planID (user # users) d =
     assign_loop now planID users
       (if user_PlanID user = uuid_Nil then snd (set_plan now (user_ID user) planID d) else d)"

definition assignPlanToUsersWithoutPlan :: "go_time \<Rightarrow> Plan \<Rightarrow> db \<Rightarrow> db" where
  "assignPlanToUsersWithoutPlan now freePlan d =
     (case sql_query without_plan d of
        (Inl _, d') \<Rightarrow> d'
      | (Inr usersWithoutPlan, d') \<Rightarrow> assign_loop now (plan_ID freePlan) usersWithoutPlan d')"

fun missing_table :: "(string \<Rightarrow> bool) \<Rightarrow> string list \<Rightarrow> goerr option" where
  "missing_table hasTable [] = None"
| "missing_table hasTable (table # rest) =
     (if \<not> hasTable table
      then Some (ErrNew (''scan table '' @ [char_of (34::nat)] @ table @ [char_of (34::nat)]
             @ '' missing: start cafe-persistence first (PERS-D2b boot order)''))
      else missing_table hasTable rest)"

definition ensureScanTablesPresent :: "(string \<Rightarrow> bool) \<Rightarrow> goerr option" where
  "ensureScanTablesPresent hasTable = missing_table hasTable scanTablesOwnedByPersistence"

definition free_plan :: Plan where
  "free_plan = \<lparr> plan_ID = uuid_Nil, plan_Name = ''Free Plan'', plan_Type = PlanTypeFree, plan_WalletScanLimit = 5,
     plan_EndpointScanLimit = 5, plan_Price = 0, plan_IsActive = True, plan_CreatedAt = 0, plan_UpdatedAt = 0,
     plan_DeletedAt = None \<rparr>"

text \<open>The price is the float64 nearest to 29.99.\<close>

definition premium_plan :: Plan where
  "premium_plan = \<lparr> plan_ID = uuid_Nil, plan_Name = ''CAFEIN Premium Plan'', plan_Type = PlanTypePremium,
     plan_WalletScanLimit = 0, plan_EndpointScanLimit = 0, plan_Price = 0x403DFD70A3D70A3D, plan_IsActive = False,
     plan_CreatedAt = 0, plan_UpdatedAt = 0, plan_DeletedAt = None \<rparr>"

record migration_env =
  me_AutoMigrate :: "goerr option"
  me_HasTable :: "string \<Rightarrow> bool"
  me_fresh1 :: uuid
  me_fresh2 :: uuid
  me_now :: go_time

definition runMigrations :: "migration_env \<Rightarrow> db \<Rightarrow> goerr option \<times> db" where
  "runMigrations M d =
     (case me_AutoMigrate M of
        Some err \<Rightarrow> (Some err, d)
      | None \<Rightarrow>
     (case ensurePlanExists (me_fresh1 M) (me_now M) PlanTypeFree free_plan d of
        (Inl err, d') \<Rightarrow> (Some err, d')
      | (Inr freePlan, d') \<Rightarrow>
     (case ensurePlanExists (me_fresh2 M) (me_now M) PlanTypePremium premium_plan d' of
        (Inl err, d'') \<Rightarrow> (Some err, d'')
      | (Inr _, d'') \<Rightarrow>
          (ensureScanTablesPresent (me_HasTable M), assignPlanToUsersWithoutPlan (me_now M) freePlan d''))))"

section \<open>Facts on the migrations\<close>

definition active_plans :: "string \<Rightarrow> db \<Rightarrow> Plan list" where
  "active_plans t d = filter (\<lambda>p. plan_Type p = t \<and> plan_IsActive p = True) (live_plans d)"

lemma FindByType_calm:
  "db_faults d = [] \<Longrightarrow> Plan_FindByType t d = (Inr (first_of (sort_key (\<lambda>p. uint (plan_ID p)) (active_plans t d))), d)"
  by (simp add: Plan_FindByType_def active_plans_def)

lemma plan_row_sel [simp]:
  "plan_Name (plan_row f n p) = plan_Name p" "plan_Type (plan_row f n p) = plan_Type p"
  "plan_IsActive (plan_row f n p)" "plan_DeletedAt (plan_row f n p) = plan_DeletedAt p"
  "plan_ID p = uuid_Nil \<Longrightarrow> plan_ID (plan_row f n p) = f"
  by (simp_all add: plan_row_def Plan_BeforeCreate_def Let_def)

lemma Plan_Create_calm:
  assumes "db_faults d = []" and "Plan_Create f n p d = (r, d')"
  shows "r = Inl ErrDuplicatedKey \<and> d' = d
    \<or> r = Inr (plan_row f n p) \<and> d' = d\<lparr>db_plans := db_plans d @ [plan_row f n p]\<rparr>"
  using assms by (auto simp: Plan_Create_def Let_def dbind_def sql_change_def dreturn_def split: if_splits)

lemma ensure_found:
  assumes "db_faults d = []" and "active_plans t d \<noteq> []"
  shows "\<exists>p \<in> set (active_plans t d). ensurePlanExists f n t q d = (Inr p, d)"
proof -
  have "sort_key (\<lambda>p. uint (plan_ID p)) (active_plans t d) \<noteq> []"
    using assms(2) by (metis set_empty set_sort)
  then obtain p where p: "first_of (sort_key (\<lambda>p. uint (plan_ID p)) (active_plans t d)) = Some p"
    by (metis first_of_None option.exhaust)
  then have "p \<in> set (active_plans t d)" using first_of_in [OF p] by simp
  then show ?thesis using assms(1) p by (auto simp: ensurePlanExists_def FindByType_calm)
qed

lemma ensure_calm:
  assumes "db_faults d = []" and "plan_Type q = t" and "plan_ID q = uuid_Nil" and "plan_DeletedAt q = None"
    and "ensurePlanExists f n t q d = (Inr p, d')"
  shows "db_faults d' = [] \<and> active_plans t d' \<noteq> [] \<and> (\<exists>ps. d' = d\<lparr>db_plans := db_plans d @ ps\<rparr>)
    \<and> (p \<in> set (active_plans t d) \<or> plan_ID p = f)"
proof (cases "active_plans t d = []")
  case True
  then have "wrap_stm (''failed to create '' @ t @ '' plan'') (Plan_Create f n q) d = (Inr p, d')"
    using assms(1,5) by (simp add: ensurePlanExists_def FindByType_calm)
  then have c: "Plan_Create f n q d = (Inr p, d')" by simp
  have "p = plan_row f n q" "d' = d\<lparr>db_plans := db_plans d @ [plan_row f n q]\<rparr>"
    using Plan_Create_calm [OF assms(1) c] by simp_all
  then show ?thesis using assms by (auto simp: active_plans_def live_plans_def)
next
  case False
  obtain p' where "p' \<in> set (active_plans t d)" "ensurePlanExists f n t q d = (Inr p', d)"
    using ensure_found [OF assms(1) False] by blast
  with assms(1,5) False show ?thesis by (auto intro: exI [of _ "[]"])
qed


lemma set_plan_calm:
  "db_faults d = [] \<Longrightarrow> snd (set_plan now i q d) = d\<lparr>db_users := map (\<lambda>u.
     if user_ID u = i \<and> user_DeletedAt u = None then u\<lparr>user_PlanID := q, user_UpdatedAt := now\<rparr> else u) (db_users d)\<rparr>"
  by (simp add: set_plan_def)

text \<open>The loop changes users only; each user it is given has the plan afterwards and keeps it.\<close>

lemma assign_loop_calm:
  assumes "db_faults d = []" and "q \<noteq> uuid_Nil" and "\<forall>u\<in>set us. user_PlanID u = uuid_Nil"
  shows "\<exists>users. assign_loop now q us d = d\<lparr>db_users := users\<rparr>
    \<and> map user_ID users = map user_ID (db_users d) \<and> map user_DeletedAt users = map user_DeletedAt (db_users d)
    \<and> (\<forall>u\<in>set users. user_DeletedAt u = None \<and> user_PlanID u = uuid_Nil \<longrightarrow> u \<in> set (db_users d) \<and> user_ID u \<notin> user_ID ` set us)"
  using assms(1,3)
proof (induction us arbitrary: d)
  case Nil
  show ?case by (intro exI [of _ "db_users d"]) simp
next
  case (Cons v us)
  let ?f = "\<lambda>u. if user_ID u = user_ID v \<and> user_DeletedAt u = None then u\<lparr>user_PlanID := q, user_UpdatedAt := now\<rparr> else u"
  let ?d = "d\<lparr>db_users := map ?f (db_users d)\<rparr>"
  have s: "assign_loop now q (v # us) d = assign_loop now q us ?d"
    using Cons.prems by (simp add: set_plan_calm)
  obtain users where u: "assign_loop now q us ?d = ?d\<lparr>db_users := users\<rparr>"
    and i: "map user_ID users = map user_ID (db_users ?d)" "map user_DeletedAt users = map user_DeletedAt (db_users ?d)"
    and a: "\<forall>u\<in>set users. user_DeletedAt u = None \<and> user_PlanID u = uuid_Nil \<longrightarrow> u \<in> set (db_users ?d) \<and> user_ID u \<notin> user_ID ` set us"
    using Cons.IH [of ?d] Cons.prems by auto
  have f: "map user_ID (map ?f xs) = map user_ID xs" "map user_DeletedAt (map ?f xs) = map user_DeletedAt xs" for xs
    by (induction xs) simp_all
  have g: "u \<in> set (db_users d) \<and> user_ID u \<noteq> user_ID v"
    if "u \<in> set (map ?f (db_users d))" "user_DeletedAt u = None" "user_PlanID u = uuid_Nil" for u
    using that assms(2) by (auto split: if_splits)
  have d: "assign_loop now q (v # us) d = d\<lparr>db_users := users\<rparr>" using s u by simp
  have k: "map user_ID users = map user_ID (db_users d)" "map user_DeletedAt users = map user_DeletedAt (db_users d)"
    using i f by (simp_all del: map_map)
  have "u \<in> set (db_users d) \<and> user_ID u \<notin> user_ID ` set (v # us)"
    if "u \<in> set users" "user_DeletedAt u = None" "user_PlanID u = uuid_Nil" for u
  proof -
    have "u \<in> set (map ?f (db_users d))" "user_ID u \<notin> user_ID ` set us" using a that by simp_all
    with g [of u] that show ?thesis by simp
  qed
  with d k show ?case by (intro exI [of _ users] conjI ballI impI) simp_all
qed

lemma assign_calm:
  assumes "db_faults d = []" and "plan_ID p \<noteq> uuid_Nil"
  shows "\<exists>users. assignPlanToUsersWithoutPlan now p d = d\<lparr>db_users := users\<rparr>
    \<and> without_plan (d\<lparr>db_users := users\<rparr>) = []
    \<and> map user_ID users = map user_ID (db_users d)"
proof -
  have "\<forall>u\<in>set (without_plan d). user_PlanID u = uuid_Nil" by (simp add: without_plan_def)
  then obtain users where l: "assign_loop now (plan_ID p) (without_plan d) d = d\<lparr>db_users := users\<rparr>"
    "map user_ID users = map user_ID (db_users d)"
    and a: "\<forall>u\<in>set users. user_DeletedAt u = None \<and> user_PlanID u = uuid_Nil \<longrightarrow>
      u \<in> set (db_users d) \<and> user_ID u \<notin> user_ID ` set (without_plan d)"
    using assign_loop_calm [OF assms] by blast
  have "\<not> (user_DeletedAt u = None \<and> user_PlanID u = uuid_Nil)" if "u \<in> set users" for u
    using a that by (auto simp: without_plan_def live_users_def)
  then have "without_plan (d\<lparr>db_users := users\<rparr>) = []"
    by (auto simp: without_plan_def live_users_def filter_empty_conv)
  with l assms show ?thesis by (auto simp: assignPlanToUsersWithoutPlan_def)
qed

lemma migrations_calm:
  assumes "db_faults d = []" and "\<forall>p\<in>set (db_plans d). plan_ID p \<noteq> uuid_Nil"
    and "me_fresh1 M \<noteq> uuid_Nil" and "runMigrations M d = (None, d')"
  shows "active_plans PlanTypeFree d' \<noteq> [] \<and> active_plans PlanTypePremium d' \<noteq> [] \<and> without_plan d' = []
    \<and> (\<exists>ps users. d' = d\<lparr>db_plans := db_plans d @ ps, db_users := users\<rparr> \<and> map user_ID users = map user_ID (db_users d))
    \<and> (\<forall>M'. me_AutoMigrate M' = None \<and> me_HasTable M' = me_HasTable M \<longrightarrow> runMigrations M' d' = (None, d'))"
proof -
  obtain p d1 p2 d2 where e1: "ensurePlanExists (me_fresh1 M) (me_now M) PlanTypeFree free_plan d = (Inr p, d1)"
    and e2: "ensurePlanExists (me_fresh2 M) (me_now M) PlanTypePremium premium_plan d1 = (Inr p2, d2)"
    and t: "ensureScanTablesPresent (me_HasTable M) = None" and d': "d' = assignPlanToUsersWithoutPlan (me_now M) p d2"
    using assms(4) by (auto simp: runMigrations_def split: option.splits prod.splits sum.splits)
  have s1: "db_faults d1 = []" "active_plans PlanTypeFree d1 \<noteq> []" "\<exists>ps. d1 = d\<lparr>db_plans := db_plans d @ ps\<rparr>"
    "p \<in> set (active_plans PlanTypeFree d) \<or> plan_ID p = me_fresh1 M"
    using ensure_calm [OF assms(1) _ _ _ e1] by (simp_all add: free_plan_def)
  have s2: "db_faults d2 = []" "active_plans PlanTypePremium d2 \<noteq> []" "\<exists>ps. d2 = d1\<lparr>db_plans := db_plans d1 @ ps\<rparr>"
    using ensure_calm [OF s1(1) _ _ _ e2] by (simp_all add: premium_plan_def)
  have "plan_ID p \<noteq> uuid_Nil"
    using s1(4) assms(2,3) by (auto simp: active_plans_def live_plans_def)
  then obtain users where u: "d' = d2\<lparr>db_users := users\<rparr>" "without_plan d' = []" "map user_ID users = map user_ID (db_users d2)"
    using assign_calm [OF s2(1)] d' by metis
  obtain ps1 ps2 where ps: "d1 = d\<lparr>db_plans := db_plans d @ ps1\<rparr>" "d2 = d1\<lparr>db_plans := db_plans d1 @ ps2\<rparr>"
    using s1(3) s2(3) by blast
  have a: "active_plans PlanTypeFree d' \<noteq> []" "active_plans PlanTypePremium d' \<noteq> []" "db_faults d' = []"
    using s1 s2 u ps by (auto simp: active_plans_def live_plans_def)
  have w: "assignPlanToUsersWithoutPlan n q d' = d'" for n q
    using a(3) u(2) by (simp add: assignPlanToUsersWithoutPlan_def)
  have "runMigrations M' d' = (None, d')" if "me_AutoMigrate M' = None" "me_HasTable M' = me_HasTable M" for M'
    using ensure_found [OF a(3,1), of "me_fresh1 M'" "me_now M'" free_plan]
      ensure_found [OF a(3,2), of "me_fresh2 M'" "me_now M'" premium_plan] that t w
    by (auto simp: runMigrations_def)
  with a u ps show ?thesis by auto
qed

section \<open>Properties\<close>


definition ex_migration :: migration_env where
  "ex_migration = \<lparr> me_AutoMigrate = None, me_HasTable = (\<lambda>_. True), me_fresh1 = 1, me_fresh2 = 2, me_now = 5 \<rparr>"

definition ex_empty_db :: db where
  "ex_empty_db = \<lparr> db_dialect = ''postgres'', usage_events = [], scan_results = [], tls_scan_results = [],
     db_plans = [], db_users = [], db_wallets = [], db_locks = [], db_faults = [] \<rparr>"



text \<open>
  A plan that was switched off stops the service: the lookup wants an active plan, and
  creating it again meets the unique name.
\<close>

lemma inactive_plan_blocks_boot:
  assumes "db_faults d = []" and "active_plans PlanTypeFree d = []" and "''Free Plan'' \<in> plan_Name ` set (db_plans d)"
    and "me_AutoMigrate M = None"
  shows "runMigrations M d = (Some (ErrWrap ''failed to create FREE plan'' ErrDuplicatedKey), d)"
proof -
  have "Plan_Create f n free_plan d = (Inl ErrDuplicatedKey, d)" for f n
    using assms(1,3) by (simp add: Plan_Create_def Let_def free_plan_def dbind_def sql_change_def)
  then show ?thesis
    using assms by (simp add: runMigrations_def ensurePlanExists_def FindByType_calm wrap_stm_def PlanTypeFree_def)
qed

end
