(* ===== verification/Connections.thy ===== *)
theory Connections
  imports Scan_Http
begin

text \<open>
  The configuration and the connections of the service: the keys and defaults of
  \<open>src/internal/config/config.go\<close>, the log level of \<open>src/cmd/server/main.go\<close>, the lists of the CORS
  settings (\<open>splitCSV\<close>), the persistence clients of \<open>src/internal/app/scan_read_store.go\<close>, the data
  source of \<open>src/pkg/postgres/postgres.go\<close>, Redis (\<open>src/pkg/redis/redis.go\<close>), the broker connection of
  \<open>src/pkg/nats\<close> and the version of \<open>src/internal/version/version.go\<close>.

  Viper is the record \<open>viper\<close> of the values it answers; the drivers that open the
  connections are arguments.
\<close>

section \<open>Keys and defaults\<close>

definition LogLevel :: string where "LogLevel = ''LOG_LEVEL''"
definition ServerHost :: string where "ServerHost = ''SERVER_HOST''"
definition ServerPort :: string where "ServerPort = ''SERVER_PORT''"
definition ScannerHealthPort :: string where "ScannerHealthPort = ''SCANNER_HEALTH_PORT''"
definition PostgreSQLHost :: string where "PostgreSQLHost = ''POSTGRES_HOST''"
definition PostgreSQLPort :: string where "PostgreSQLPort = ''POSTGRES_PORT''"
definition PostgreSQLUser :: string where "PostgreSQLUser = ''POSTGRES_USER''"
definition PostgreSQLPassword :: string where "PostgreSQLPassword = ''POSTGRES_PASSWORD''"
definition PostgreSQLDatabase :: string where "PostgreSQLDatabase = ''POSTGRES_DATABASE''"
definition PostgreSQLSSLMode :: string where "PostgreSQLSSLMode = ''POSTGRES_SSLMODE''"
definition NATSURL :: string where "NATSURL = ''NATS_URL''"
definition RedisURL :: string where "RedisURL = ''REDIS_URL''"
definition Production :: string where "Production = ''PRODUCTION''"
definition CORSAllowOrigins :: string where "CORSAllowOrigins = ''CORS_ALLOW_ORIGINS''"
definition CORSAllowMethods :: string where "CORSAllowMethods = ''CORS_ALLOW_METHODS''"
definition TurnstileSecretKey :: string where "TurnstileSecretKey = ''TURNSTILE_SECRET_KEY''"
definition TurnstileSiteKey :: string where "TurnstileSiteKey = ''TURNSTILE_SITE_KEY''"
definition JWTSecret :: string where "JWTSecret = ''JWT_SECRET''"
definition ScanPluginsTLSVersion :: string where "ScanPluginsTLSVersion = ''scan.plugins.tls.version''"
definition ScanPluginsWalletVersion :: string where "ScanPluginsWalletVersion = ''scan.plugins.wallet.version''"
definition DiscoveryScannerType :: string where "DiscoveryScannerType = ''DISCOVERY_SCANNER_TYPE''"
definition DiscoveryInternalAuthzEnabled :: string where "DiscoveryInternalAuthzEnabled = ''DISCOVERY_INTERNAL_AUTHZ_ENABLED''"
definition DiscoveryInternalAuthzServiceToken :: string where "DiscoveryInternalAuthzServiceToken = ''DISCOVERY_INTERNAL_AUTHZ_SERVICE_TOKEN''"
definition DiscoveryPersistenceURL :: string where "DiscoveryPersistenceURL = ''DISCOVERY_PERSISTENCE_URL''"
definition DiscoveryPersistenceTimeoutSec :: string where "DiscoveryPersistenceTimeoutSec = ''DISCOVERY_PERSISTENCE_TIMEOUT_SEC''"
definition CafePersistenceServiceToken :: string where "CafePersistenceServiceToken = ''CAFE_PERSISTENCE_SERVICE_TOKEN''"

definition defaultPostgreSQLHost :: string where "defaultPostgreSQLHost = ''127.0.0.1''"
definition defaultPostgreSQLPort :: string where "defaultPostgreSQLPort = ''5432''"
definition defaultPostgreSQLUser :: string where "defaultPostgreSQLUser = ''cafe''"
definition defaultPostgreSQLPassword :: string where "defaultPostgreSQLPassword = ''cafe''"
definition defaultPostgreSQLDatabase :: string where "defaultPostgreSQLDatabase = ''cafe''"
definition defaultPostgreSQLSSLMode :: string where "defaultPostgreSQLSSLMode = ''disable''"
definition defaultNATSURL :: string where "defaultNATSURL = ''nats://localhost:4222''"
definition defaultRedisURL :: string where "defaultRedisURL = ''redis://localhost:6379''"
definition defaultServerHost :: string where "defaultServerHost = ''0.0.0.0''"
definition defaultServerPort :: string where "defaultServerPort = ''8080''"
definition defaultScannerHealthPort :: string where "defaultScannerHealthPort = ''8081''"
definition defaultCORSAllowOrigins :: string where "defaultCORSAllowOrigins = ''http://localhost:3000,http://localhost:3001,http://localhost:5173''"
definition defaultCORSAllowMethods :: string where "defaultCORSAllowMethods = ''GET,POST,PUT,DELETE,OPTIONS''"
definition defaultTurnstileSecretKey :: string where "defaultTurnstileSecretKey = ''1x0000000000000000000000000000000AA''"
definition defaultTurnstileSiteKey :: string where "defaultTurnstileSiteKey = ''1x00000000000000000000AA''"
definition defaultScanPluginVersion :: string where "defaultScanPluginVersion = ''1.0''"
definition defaultProduction :: bool where "defaultProduction = True"
definition defaultDiscoveryInternalAuthzEnabled :: bool where "defaultDiscoveryInternalAuthzEnabled = True"

lemmas config_keys [go_consts] =
  LogLevel_def ServerHost_def ServerPort_def ScannerHealthPort_def
  PostgreSQLHost_def PostgreSQLPort_def PostgreSQLUser_def PostgreSQLPassword_def
  PostgreSQLDatabase_def PostgreSQLSSLMode_def NATSURL_def RedisURL_def
  Production_def CORSAllowOrigins_def CORSAllowMethods_def TurnstileSecretKey_def
  TurnstileSiteKey_def JWTSecret_def ScanPluginsTLSVersion_def ScanPluginsWalletVersion_def
  DiscoveryScannerType_def DiscoveryInternalAuthzEnabled_def DiscoveryInternalAuthzServiceToken_def DiscoveryPersistenceURL_def
  DiscoveryPersistenceTimeoutSec_def CafePersistenceServiceToken_def

datatype config_value = CfgString string | CfgBool bool

definition GetDefaultConfigValues :: "(string \<times> config_value) list" where
  "GetDefaultConfigValues =
     [(PostgreSQLHost, CfgString defaultPostgreSQLHost),
      (PostgreSQLPort, CfgString defaultPostgreSQLPort),
      (PostgreSQLUser, CfgString defaultPostgreSQLUser),
      (PostgreSQLPassword, CfgString defaultPostgreSQLPassword),
      (PostgreSQLDatabase, CfgString defaultPostgreSQLDatabase),
      (PostgreSQLSSLMode, CfgString defaultPostgreSQLSSLMode),
      (NATSURL, CfgString defaultNATSURL),
      (RedisURL, CfgString defaultRedisURL),
      (Production, CfgBool defaultProduction),
      (ServerHost, CfgString defaultServerHost),
      (ServerPort, CfgString defaultServerPort),
      (ScannerHealthPort, CfgString defaultScannerHealthPort),
      (CORSAllowOrigins, CfgString defaultCORSAllowOrigins),
      (CORSAllowMethods, CfgString defaultCORSAllowMethods),
      (TurnstileSecretKey, CfgString defaultTurnstileSecretKey),
      (TurnstileSiteKey, CfgString defaultTurnstileSiteKey),
      (ScanPluginsTLSVersion, CfgString defaultScanPluginVersion),
      (ScanPluginsWalletVersion, CfgString defaultScanPluginVersion),
      (DiscoveryInternalAuthzEnabled, CfgBool defaultDiscoveryInternalAuthzEnabled)]"

text \<open>No key is given twice, so that the order of the map does not matter.\<close>

lemma default_keys_distinct: "distinct (map fst GetDefaultConfigValues)"
  by (simp add: GetDefaultConfigValues_def go_consts)

record viper =
  vp_GetString :: "string \<Rightarrow> string"
  vp_GetInt :: "string \<Rightarrow> int"
  vp_GetBool :: "string \<Rightarrow> bool"


section \<open>Logging and lists\<close>

datatype log_level = TraceLevel | DebugLevel | InfoLevel | WarnLevel | ErrorLevel | FatalLevel | PanicLevel

definition initLogging :: "viper \<Rightarrow> log_level" where
  "initLogging V =
     (let logLevel = vp_GetString V LogLevel;
          logLevel = if logLevel = '''' then ''info'' else logLevel;
          l = ToLower logLevel
      in if l = ''trace'' then TraceLevel
         else if l = ''debug'' then DebugLevel
         else if l = ''info'' then InfoLevel
         else if l = ''warn'' then WarnLevel
         else if l = ''error'' then ErrorLevel
         else if l = ''fatal'' then FatalLevel
         else if l = ''panic'' then PanicLevel
         else InfoLevel)"

fun csv_loop :: "string list \<Rightarrow> string list \<Rightarrow> string list" where
  "csv_loop [] out = out"
| "csv_loop (p # ps) out =
     (let p = TrimSpace p in if p = '''' then csv_loop ps out else csv_loop ps (out @ [p]))"

definition splitCSV :: "string \<Rightarrow> string list" where
  "splitCSV s = csv_loop (Split s CHR '','') []"

section \<open>Persistence clients\<close>

definition wrap64 :: "int \<Rightarrow> int" where
  "wrap64 i = sint (word_of_int i :: 64 word)"

record http_config =
  hc_Config :: Config
  hc_Timeout :: go_duration

text \<open>\<open>time.Duration(timeoutSec) * time.Second\<close> is a product of 64-bit integers.\<close>

definition loadPersistenceHTTPConfig :: "viper \<Rightarrow> http_config result" where
  "loadPersistenceHTTPConfig V =
     (let persistenceURL = TrimSpace (vp_GetString V DiscoveryPersistenceURL);
          token = TrimSpace (vp_GetString V CafePersistenceServiceToken)
      in if persistenceURL = '''' then Inl (ErrNew (DiscoveryPersistenceURL @ '' is required''))
         else if token = '''' then Inl (ErrNew (CafePersistenceServiceToken @ '' is required''))
         else
           (let timeoutSec = vp_GetInt V DiscoveryPersistenceTimeoutSec;
                timeoutSec = if timeoutSec \<le> 0 then 15 else timeoutSec
            in Inr \<lparr> hc_Config = \<lparr> cfg_BaseURL = persistenceURL, cfg_Token = token \<rparr>, hc_Timeout = wrap64 (seconds timeoutSec) \<rparr>))"

record http_client =
  ht_Client :: Client
  ht_Timeout :: go_duration

definition newScanPersistenceClient :: "viper \<Rightarrow> http_client result" where
  "newScanPersistenceClient V =
     rbind (loadPersistenceHTTPConfig V) (\<lambda>cfg.
       Inr \<lparr> ht_Client = NewClient (hc_Config cfg), ht_Timeout = hc_Timeout cfg \<rparr>)"

definition newPolicyReferenceChecker :: "viper \<Rightarrow> http_client result" where
  "newPolicyReferenceChecker V =
     rbind (loadPersistenceHTTPConfig V) (\<lambda>cfg.
       Inr \<lparr> ht_Client = cp_NewClient (hc_Config cfg), ht_Timeout = seconds 5 \<rparr>)"


section \<open>PostgreSQL\<close>

definition dsn_head :: "string \<Rightarrow> string \<Rightarrow> string \<Rightarrow> string" where
  "dsn_head host port user = ''host='' @ host @ '' port='' @ port @ '' user='' @ user @ '' ''"

definition dsn_tail :: "string \<Rightarrow> string \<Rightarrow> string" where
  "dsn_tail dbname sslmode = '' dbname='' @ dbname @ '' sslmode='' @ sslmode"

definition format_dsn :: "string \<Rightarrow> string \<Rightarrow> string \<Rightarrow> string \<Rightarrow> string \<Rightarrow> string \<Rightarrow> string" where
  "format_dsn host port user password dbname sslmode =
     dsn_head host port user @ ''password='' @ password @ dsn_tail dbname sslmode"

record 'g postgreSQLConnection =
  pg_dsn :: string
  pg_db :: "'g option"

definition postgres_New :: "viper \<Rightarrow> 'g postgreSQLConnection" where
  "postgres_New V = \<lparr> pg_dsn = format_dsn (vp_GetString V PostgreSQLHost) (vp_GetString V PostgreSQLPort)
       (vp_GetString V PostgreSQLUser) (vp_GetString V PostgreSQLPassword) (vp_GetString V PostgreSQLDatabase)
       (vp_GetString V PostgreSQLSSLMode), pg_db = None \<rparr>"

definition GetDB :: "'g postgreSQLConnection \<Rightarrow> 'g option" where "GetDB c = pg_db c"

text \<open>\<open>db.DB()\<close> and \<open>Ping\<close> are the driver's.\<close>

definition postgres_IsConnected :: "('g \<Rightarrow> 's result) \<Rightarrow> ('s \<Rightarrow> goerr option) \<Rightarrow> 'g postgreSQLConnection \<Rightarrow> bool" where
  "postgres_IsConnected sqlDB ping c =
     (case pg_db c of
        None \<Rightarrow> False
      | Some db \<Rightarrow> (case sqlDB db of Inl _ \<Rightarrow> False | Inr s \<Rightarrow> ping s = None))"

text \<open>
  The loops of \<open>maskDSN\<close>: \<open>mask_rest\<close> looks for the next space after the key, \<open>mask_from\<close>
  for the key, with what was passed over.
\<close>

fun mask_rest :: "string \<Rightarrow> string" where
  "mask_rest [] = []"
| "mask_rest (c # cs) = (if c = CHR '' '' then c # cs else mask_rest cs)"

fun mask_from :: "string \<Rightarrow> string \<Rightarrow> string option" where
  "mask_from seen [] = None"
| "mask_from seen (c # cs) =
     (if HasPrefix (c # cs) ''password='' then Some (seen @ ''password='' @ ''***'' @ mask_rest (drop 8 cs))
      else mask_from (seen @ [c]) cs)"

definition maskDSN :: "string \<Rightarrow> string" where
  "maskDSN dsn = (case mask_from [] dsn of None \<Rightarrow> ''***'' | Some masked \<Rightarrow> masked)"

text \<open>
  The list is the data source names that are logged; beside them the host, port, user
  and database are, and the error of the driver.
\<close>

definition Run :: "(string \<Rightarrow> 'g result) \<Rightarrow> 'g postgreSQLConnection \<Rightarrow> (goerr option \<times> string list) \<times> 'g postgreSQLConnection" where
  "Run gorm_Open c =
     (case gorm_Open (pg_dsn c) of
        Inl err \<Rightarrow> ((Some (ErrWrap ''failed to connect to PostgreSQL'' err), [maskDSN (pg_dsn c)]), c)
      | Inr db \<Rightarrow> ((None, []), c\<lparr>pg_db := Some db\<rparr>))"

section \<open>Redis and the version\<close>

record 'c redis_driver =
  rd_ParseURL :: "string \<Rightarrow> string result"
  rd_NewClient :: "string \<Rightarrow> 'c"
  rd_Ping :: "'c \<Rightarrow> goerr option"

definition redis_New :: "'c redis_driver \<Rightarrow> viper \<Rightarrow> 'c result" where
  "redis_New D V =
     (let redisURL = vp_GetString V RedisURL;
          redisURL = if redisURL = '''' then ''redis://localhost:6379'' else redisURL
      in rbind (wrap_err ''failed to parse Redis URL'' (rd_ParseURL D redisURL)) (\<lambda>opt.
           let client = rd_NewClient D opt in
           case rd_Ping D client of
             Some err \<Rightarrow> Inl (ErrWrap ''failed to connect to Redis'' err)
           | None \<Rightarrow> Inr client))"

definition defaultVersion :: string where "defaultVersion = ''dev''"

text \<open>\<open>linked\<close> is the variable \<open>version\<close>, \<open>env\<close> the environment variable \<open>APP_VERSION\<close>.\<close>

definition Current :: "string \<Rightarrow> string \<Rightarrow> string" where
  "Current env linked = (if env \<noteq> '''' then env else linked)"

record Response =
  vr_Version :: string

definition Payload :: "string \<Rightarrow> string \<Rightarrow> Response" where
  "Payload env linked = \<lparr> vr_Version = Current env linked \<rparr>"

section \<open>Lists\<close>

lemma csv_loop_filter: "csv_loop ps out = out @ filter (\<lambda>p. p \<noteq> '''') (map TrimSpace ps)"
  by (induction ps arbitrary: out) (simp_all add: Let_def)

lemma splitCSV_filter: "splitCSV s = filter (\<lambda>p. p \<noteq> '''') (map TrimSpace (Split s CHR '',''))"
  by (simp add: splitCSV_def csv_loop_filter)

lemma splitCSV_clean: "p \<in> set (splitCSV s) \<Longrightarrow> p \<noteq> [] \<and> TrimSpace p = p \<and> CHR '','' \<notin> set p"
  using Split_no_sep set_TrimSpace by (fastforce simp: splitCSV_filter)


text \<open>A list written with commas is read back.\<close>

fun join_comma :: "string list \<Rightarrow> string" where
  "join_comma [] = []"
| "join_comma [p] = p"
| "join_comma (p # q # ps) = p @ CHR '','' # join_comma (q # ps)"

lemma Split_join_comma: "ps \<noteq> [] \<Longrightarrow> \<forall>p\<in>set ps. CHR '','' \<notin> set p \<Longrightarrow> Split (join_comma ps) CHR '','' = ps"
  by (induction ps rule: join_comma.induct) (simp_all add: Split_plain Split_append_sep)

lemma splitCSV_join:
  assumes "\<forall>p\<in>set ps. p \<noteq> [] \<and> TrimSpace p = p \<and> CHR '','' \<notin> set p"
  shows "splitCSV (join_comma ps) = ps"
proof (cases "ps = []")
  case False
  moreover have "map TrimSpace ps = ps" using assms by (simp add: map_idI)
  moreover have "filter (\<lambda>p. p \<noteq> []) ps = ps" using assms by simp
  ultimately show ?thesis using assms Split_join_comma [of ps] by (simp add: splitCSV_filter)
qed (simp add: splitCSV_filter)

section \<open>The masked name\<close>

lemma mask_rest_no_space: "CHR '' '' \<notin> set w \<Longrightarrow> mask_rest (w @ CHR '' '' # s) = CHR '' '' # s"
  by (induction w) auto

lemma mask_from_skip:
  assumes "\<And>i. i < length pre \<Longrightarrow> \<not> HasPrefix (drop i (pre @ rest)) ''password=''"
    and "HasPrefix rest ''password=''"
  shows "mask_from seen (pre @ rest) = Some (seen @ pre @ ''password='' @ ''***'' @ mask_rest (drop 9 rest))"
  using assms(1)
proof (induction pre arbitrary: seen)
  case Nil
  obtain c cs where "rest = c # cs" using assms(2) by (cases rest) (simp_all add: HasPrefix_def)
  then show ?case using assms(2) by simp
next
  case (Cons c pre)
  have "\<not> HasPrefix (drop i (pre @ rest)) ''password=''" if "i < length pre" for i
    using Cons.prems [of "Suc i"] that by simp
  from Cons.IH [OF this] Cons.prems [of 0] show ?case by simp
qed


lemma HasPrefix_append_drop:
  assumes "i \<le> length pre"
  shows "HasPrefix (drop i (pre @ p @ s)) p \<longleftrightarrow> HasPrefix (drop i (pre @ p)) p"
proof -
  have "length p \<le> length (drop i (pre @ p))" using assms by simp
  then have "take (length p) (drop i (pre @ p) @ s) = take (length p) (drop i (pre @ p))" by simp
  moreover have "drop i (pre @ p @ s) = drop i (pre @ p) @ s" using assms by simp
  ultimately show ?thesis by (simp only: HasPrefix_def)
qed

definition names_no_password :: "string \<Rightarrow> bool" where
  "names_no_password pre \<longleftrightarrow> list_all (\<lambda>i. \<not> HasPrefix (drop i (pre @ ''password='')) ''password='') [0..<length pre]"

lemma maskDSN_format:
  assumes "CHR '' '' \<notin> set password" and "names_no_password (dsn_head host port user)"
  shows "maskDSN (format_dsn host port user password dbname sslmode)
    = dsn_head host port user @ ''password=***'' @ dsn_tail dbname sslmode"
proof -
  let ?h = "dsn_head host port user"
  let ?r = "''password='' @ password @ dsn_tail dbname sslmode"
  obtain t where t: "dsn_tail dbname sslmode = CHR '' '' # t" by (simp add: dsn_tail_def)
  have n: "\<not> HasPrefix (drop i (?h @ ?r)) ''password=''" if "i < length ?h" for i
    using assms(2) that HasPrefix_append_drop [of i ?h "''password=''" "password @ dsn_tail dbname sslmode"]
    by (simp add: names_no_password_def list_all_iff del: append_assoc drop_append)
  have p: "HasPrefix ?r ''password=''" by (simp add: HasPrefix_def)
  have "mask_from [] (?h @ ?r) = Some ([] @ ?h @ ''password='' @ ''***'' @ mask_rest (drop 9 ?r))"
    by (rule mask_from_skip [OF n p])
  moreover have "drop 9 ?r = password @ dsn_tail dbname sslmode" by simp
  ultimately have "mask_from [] (?h @ ?r) = Some (?h @ ''password=***'' @ mask_rest (password @ dsn_tail dbname sslmode))"
    by simp
  then show ?thesis using mask_rest_no_space [OF assms(1), of t] by (simp add: maskDSN_def format_dsn_def t)
qed

text \<open>A password with a space is masked up to the space only.\<close>

lemma mask_leaks_after_space:
  "maskDSN (format_dsn ''h'' ''1'' ''u'' ''open sesame'' ''d'' ''x'')
     = ''host=h port=1 user=u password=*** sesame dbname=d sslmode=x''"
  by code_simp

section \<open>Properties\<close>

text \<open>
  The data source name is logged without the password. Connecting logs no data
  source name, or (when the driver fails) one with three stars for the password: the
  same text for every password without a space, when the key \<open>password=\<close> does not
  occur in the host, the port or the user.
\<close>

lemma password_not_logged:
  assumes "CHR '' '' \<notin> set (vp_GetString V PostgreSQLPassword)"
    and "names_no_password (dsn_head (vp_GetString V PostgreSQLHost) (vp_GetString V PostgreSQLPort) (vp_GetString V PostgreSQLUser))"
  shows "snd (fst (Run gorm_Open (postgres_New V))) =
    (if isl (gorm_Open (pg_dsn (postgres_New V)))
     then [dsn_head (vp_GetString V PostgreSQLHost) (vp_GetString V PostgreSQLPort) (vp_GetString V PostgreSQLUser)
             @ ''password=***'' @ dsn_tail (vp_GetString V PostgreSQLDatabase) (vp_GetString V PostgreSQLSSLMode)]
     else [])"
  using maskDSN_format [OF assms]
  by (cases "gorm_Open (pg_dsn (postgres_New V))") (simp_all add: Run_def postgres_New_def)

definition ex_viper :: viper where
  "ex_viper = \<lparr> vp_GetString = (\<lambda>k.
       case map_of GetDefaultConfigValues k of Some (CfgString v) \<Rightarrow> v
       | _ \<Rightarrow> if k = DiscoveryPersistenceURL then ''http://p/'' else if k = CafePersistenceServiceToken then ''tok''
             else if k = JWTSecret then ''s'' else ''''),
     vp_GetInt = (\<lambda>_. 0), vp_GetBool = (\<lambda>k. map_of GetDefaultConfigValues k = Some (CfgBool True)) \<rparr>"

lemma password_not_logged_witness:
  "snd (fst (Run (\<lambda>_. Inl (ErrNew ''refused'')) (postgres_New ex_viper :: unit postgreSQLConnection)))
     = [''host=127.0.0.1 port=5432 user=cafe password=*** dbname=cafe sslmode=disable'']"
proof -
  have s: "CHR '' '' \<notin> set (vp_GetString ex_viper PostgreSQLPassword)" by code_simp
  have n: "names_no_password (dsn_head (vp_GetString ex_viper PostgreSQLHost) (vp_GetString ex_viper PostgreSQLPort)
    (vp_GetString ex_viper PostgreSQLUser))" by code_simp
  have "dsn_head (vp_GetString ex_viper PostgreSQLHost) (vp_GetString ex_viper PostgreSQLPort) (vp_GetString ex_viper PostgreSQLUser)
      @ ''password=***'' @ dsn_tail (vp_GetString ex_viper PostgreSQLDatabase) (vp_GetString ex_viper PostgreSQLSSLMode)
    = ''host=127.0.0.1 port=5432 user=cafe password=*** dbname=cafe sslmode=disable''" by code_simp
  then show ?thesis
    using password_not_logged [OF s n, of "\<lambda>_. (Inl (ErrNew ''refused'') :: unit result)"] by simp
qed

end
