(* ===== verification/Broker.thy ===== *)
theory Broker
  imports Scan_Abandon Connections
begin

text \<open>
  The broker connection of \<open>src/pkg/nats/nats.go\<close> and \<open>lifecycle.go\<close>, and the wait for the
  persistence service of \<open>src/internal/service/startup.go\<close>, which listens on it.

  The client library is the record \<open>nats_driver\<close>: what \<open>nats.Connect\<close>, \<open>jetstream.New\<close> and
  the calls on a stream answer.  Sequence numbers are 64-bit unsigned words.
\<close>

section \<open>The connection\<close>

definition QueueScanners :: string where "QueueScanners = ''cafe.scanners''"
definition StreamScanRequested :: string where "StreamScanRequested = ''SCAN_REQUESTED''"
definition StreamScanLifecycle :: string where "StreamScanLifecycle = ''SCAN_LIFECYCLE''"
definition QueuePersistence :: string where "QueuePersistence = ''cafe.persistence''"

definition ErrMsgNotFound :: goerr where "ErrMsgNotFound = ErrNew ''nats: message not found''"

datatype ack_policy = AckExplicitPolicy | AckAllPolicy | AckNonePolicy
datatype deliver_policy = DeliverAllPolicy | DeliverLastPolicy | DeliverNewPolicy

record ConsumerConfig =
  cc_Durable :: string
  cc_AckPolicy :: ack_policy
  cc_AckWait :: go_duration
  cc_MaxDeliver :: int
  cc_MaxAckPending :: int
  cc_DeliverPolicy :: deliver_policy
  cc_FilterSubjects :: "string list"

record stream_state =
  si_Msgs :: "64 word"
  si_FirstSeq :: "64 word"
  si_LastSeq :: "64 word"

record stream_handle =
  sh_Info :: "stream_state result"
  sh_GetMsg :: "64 word \<Rightarrow> string result"
  sh_CreateOrUpdateConsumer :: "ConsumerConfig \<Rightarrow> unit result"
  sh_Consume :: "unit result"

record ('c, 'j) nats_driver =
  nd_Connect :: "string \<Rightarrow> 'c result"
  nd_JetStream :: "'c \<Rightarrow> 'j result"
  nd_Publish :: "'c \<Rightarrow> string \<Rightarrow> string \<Rightarrow> goerr option"
  nd_js_Publish :: "'j \<Rightarrow> string \<Rightarrow> string \<Rightarrow> goerr option"
  nd_Stream :: "'j \<Rightarrow> string \<Rightarrow> stream_handle result"
  nd_IsConnected :: "'c \<Rightarrow> bool"

record ('c, 'j) natsConnection =
  nc_conn :: "'c option"
  nc_js :: "'j option"

definition nats_New :: "('c, 'j) nats_driver \<Rightarrow> viper \<Rightarrow> ('c, 'j) natsConnection result" where
  "nats_New D V =
     (let natsURL = vp_GetString V NATSURL;
          natsURL = if natsURL = '''' then ''nats://localhost:4222'' else natsURL
      in rbind (wrap_err ''failed to connect to NATS'' (nd_Connect D natsURL)) (\<lambda>conn.
           Inr \<lparr> nc_conn = Some conn, nc_js = None \<rparr>))"

text \<open>The calls on the client itself; no result is a call on a nil client, which the library answers.\<close>

definition nats_Publish :: "('c, 'j) nats_driver \<Rightarrow> string \<Rightarrow> string \<Rightarrow> ('c, 'j) natsConnection \<Rightarrow> goerr option option" where
  "nats_Publish D subject data nc = map_option (\<lambda>conn. nd_Publish D conn subject data) (nc_conn nc)"

definition nats_Subscribe :: "('c \<Rightarrow> string \<Rightarrow> 's result) \<Rightarrow> string \<Rightarrow> ('c, 'j) natsConnection \<Rightarrow> 's result option" where
  "nats_Subscribe subscribe subject nc = map_option (\<lambda>conn. subscribe conn subject) (nc_conn nc)"

definition nats_QueueSubscribe ::
  "('c \<Rightarrow> string \<Rightarrow> string \<Rightarrow> 's result) \<Rightarrow> string \<Rightarrow> string \<Rightarrow> ('c, 'j) natsConnection \<Rightarrow> 's result option" where
  "nats_QueueSubscribe subscribe subject queue nc = map_option (\<lambda>conn. subscribe conn subject queue) (nc_conn nc)"

definition jet :: "('c, 'j) nats_driver \<Rightarrow> ('c, 'j) natsConnection \<Rightarrow> 'j result \<times> ('c, 'j) natsConnection" where
  "jet D nc =
     (case nc_js nc of
        Some js \<Rightarrow> (Inr js, nc)
      | None \<Rightarrow>
          (case nc_conn nc of
             None \<Rightarrow> (Inl (ErrNew ''nats connection is nil''), nc)
           | Some conn \<Rightarrow>
               (case nd_JetStream D conn of
                  Inl err \<Rightarrow> (Inl err, nc)
                | Inr js \<Rightarrow> (Inr js, nc\<lparr>nc_js := Some js\<rparr>))))"

definition PublishJetStream ::
  "('c, 'j) nats_driver \<Rightarrow> string \<Rightarrow> string \<Rightarrow> ('c, 'j) natsConnection \<Rightarrow> goerr option \<times> ('c, 'j) natsConnection" where
  "PublishJetStream D subject data nc =
     (case jet D nc of
        (Inl err, nc') \<Rightarrow> (Some (ErrWrap ''jetstream'' err), nc')
      | (Inr js, nc') \<Rightarrow>
          (case nd_js_Publish D js subject data of
             Some err \<Rightarrow> (Some (ErrWrap (''jetstream publish '' @ subject) err), nc')
           | None \<Rightarrow> (None, nc')))"

text \<open>
  The loop over the sequence numbers.  It counts on 64 bits: with a last number of
  \<open>2 ^ 64 - 1\<close> the test never fails, so that the loop may not end.
\<close>

partial_function (option) stream_loop ::
  "(64 word \<Rightarrow> string result) \<Rightarrow> 64 word \<Rightarrow> 64 word \<Rightarrow> string list \<Rightarrow> string list result option" where
  "stream_loop get lastSeq seq out =
     (if seq \<le> lastSeq
      then (case get seq of
              Inl err \<Rightarrow> if errors_Is err ErrMsgNotFound then stream_loop get lastSeq (seq + 1) out else Some (Inl err)
            | Inr data \<Rightarrow> stream_loop get lastSeq (seq + 1) (out @ [data]))
      else Some (Inr out))"

definition ListStreamPayloads ::
  "('c, 'j) nats_driver \<Rightarrow> ('c, 'j) natsConnection \<Rightarrow> (string list result \<times> ('c, 'j) natsConnection) option" where
  "ListStreamPayloads D nc =
     (case jet D nc of
        (Inl err, nc') \<Rightarrow> Some (Inl err, nc')
      | (Inr js, nc') \<Rightarrow>
          (case nd_Stream D js StreamScanRequested of
             Inl err \<Rightarrow> Some (Inl err, nc')
           | Inr stream \<Rightarrow>
               (case sh_Info stream of
                  Inl err \<Rightarrow> Some (Inl err, nc')
                | Inr info \<Rightarrow>
                    if si_Msgs info = 0 then Some (Inr [], nc')
                    else map_option (\<lambda>r. (r, nc'))
                           (stream_loop (sh_GetMsg stream) (si_LastSeq info) (si_FirstSeq info) []))))"

definition nats_IsConnected :: "('c, 'j) nats_driver \<Rightarrow> ('c, 'j) natsConnection \<Rightarrow> bool" where
  "nats_IsConnected D nc = (case nc_conn nc of None \<Rightarrow> False | Some conn \<Rightarrow> nd_IsConnected D conn)"

text \<open>\<open>json.Marshal\<close> of the payload is an argument.\<close>

definition PublishJSON :: "(string \<Rightarrow> string \<Rightarrow> goerr option) \<Rightarrow> string \<Rightarrow> string result \<Rightarrow> goerr option" where
  "PublishJSON publish subject payload =
     (case payload of Inl err \<Rightarrow> Some (ErrWrap ''failed to marshal message'' err) | Inr data \<Rightarrow> publish subject data)"

definition PublishJSONJetStream ::
  "('c, 'j) nats_driver \<Rightarrow> string \<Rightarrow> string result \<Rightarrow> ('c, 'j) natsConnection \<Rightarrow> goerr option \<times> ('c, 'j) natsConnection" where
  "PublishJSONJetStream D subject payload nc =
     (case payload of
        Inl err \<Rightarrow> (Some (ErrWrap ''failed to marshal message'' err), nc)
      | Inr data \<Rightarrow> PublishJetStream D subject data nc)"

section \<open>The lifecycle consumer\<close>

definition durableDiscoveryWalletLifecycle :: string where
  "durableDiscoveryWalletLifecycle = ''discovery-wallet-lifecycle''"
definition walletLifecycleAckWait :: go_duration where "walletLifecycleAckWait = seconds 120"
definition walletLifecycleMaxDeliver :: int where "walletLifecycleMaxDeliver = - 1"
definition walletLifecycleMaxAckPending :: int where "walletLifecycleMaxAckPending = 64"


definition walletLifecycleConsumerConfig :: "lifecycle_pkg \<Rightarrow> ConsumerConfig" where
  "walletLifecycleConsumerConfig C =
     \<lparr> cc_Durable = durableDiscoveryWalletLifecycle, cc_AckPolicy = AckExplicitPolicy, cc_AckWait = walletLifecycleAckWait,
       cc_MaxDeliver = walletLifecycleMaxDeliver, cc_MaxAckPending = walletLifecycleMaxAckPending,
       cc_DeliverPolicy = DeliverAllPolicy,
       cc_FilterSubjects = [SubjectScanStarted C, SubjectScanCompleted C, SubjectScanFailed C] \<rparr>"

definition ConsumeWalletLifecycle ::
  "lifecycle_pkg \<Rightarrow> ('c, 'j) nats_driver \<Rightarrow> ('c, 'j) natsConnection \<Rightarrow> goerr option \<times> ('c, 'j) natsConnection" where
  "ConsumeWalletLifecycle C D nc =
     (if nc_conn nc = None then (Some (ErrNew ''nats connection is nil''), nc)
      else case jet D nc of
        (Inl err, nc') \<Rightarrow> (Some (ErrWrap ''jetstream'' err), nc')
      | (Inr js, nc') \<Rightarrow>
          (case nd_Stream D js StreamScanLifecycle of
             Inl err \<Rightarrow> (Some (ErrWrap (''stream '' @ StreamScanLifecycle) err), nc')
           | Inr stream \<Rightarrow>
               (let cfg = walletLifecycleConsumerConfig C in
                case sh_CreateOrUpdateConsumer stream cfg of
                  Inl err \<Rightarrow> (Some (ErrWrap (''consumer '' @ cc_Durable cfg) err), nc')
                | Inr _ \<Rightarrow>
                    (case sh_Consume stream of
                       Inl err \<Rightarrow> (Some (ErrWrap (''consume '' @ cc_Durable cfg) err), nc')
                     | Inr _ \<Rightarrow> (None, nc')))))"

section \<open>Waiting for the persistence service\<close>

definition DeadlineExceeded :: goerr where "DeadlineExceeded = ErrNew ''context deadline exceeded''"

text \<open>
  The messages that arrive before the context is done, each with whether the function
  already waits on its channel: the callback drops what nobody waits for.
\<close>

fun persistence_signal :: "(string \<Rightarrow> 'p result) \<Rightarrow> (bool \<times> string) list \<Rightarrow> bool" where
  "persistence_signal decode [] = False"
| "persistence_signal decode ((waits, data) # msgs) =
     (case decode data of
        Inl _ \<Rightarrow> persistence_signal decode msgs
      | Inr _ \<Rightarrow> if waits then True else persistence_signal decode msgs)"

definition WaitForPersistence :: "goerr option \<Rightarrow> (string \<Rightarrow> 'p result) \<Rightarrow> (bool \<times> string) list \<Rightarrow> goerr option" where
  "WaitForPersistence subscribe decode msgs =
     (case subscribe of
        Some err \<Rightarrow> Some err
      | None \<Rightarrow> if persistence_signal decode msgs then None else Some DeadlineExceeded)"

lemma WaitForPersistence_iff:
  "WaitForPersistence subscribe decode msgs = None \<longleftrightarrow>
     subscribe = None \<and> (\<exists>data. (True, data) \<in> set msgs \<and> \<not> isl (decode data))"
proof -
  have "persistence_signal decode msgs \<longleftrightarrow> (\<exists>data. (True, data) \<in> set msgs \<and> \<not> isl (decode data))"
    by (induction msgs rule: persistence_signal.induct) (auto split: sum.splits)
  then show ?thesis by (simp add: WaitForPersistence_def split: option.split)
qed

text \<open>A valid signal that arrives between the subscription and the wait is lost.\<close>

lemma early_signal_lost: "WaitForPersistence None decode [(False, data)] = Some DeadlineExceeded"
  by (simp add: WaitForPersistence_def split: sum.split)

section \<open>The listing ends and is exact\<close>

text \<open>The sequence numbers the loop visits, and what it makes of the answers.\<close>

definition seqs :: "64 word \<Rightarrow> 64 word \<Rightarrow> 64 word list" where
  "seqs f l = map of_nat [unat f..<Suc (unat l)]"

fun listed :: "(64 word \<Rightarrow> string result) \<Rightarrow> 64 word list \<Rightarrow> string list result" where
  "listed get [] = Inr []"
| "listed get (s # ss) =
     (case get s of
        Inl err \<Rightarrow> if errors_Is err ErrMsgNotFound then listed get ss else Inl err
      | Inr data \<Rightarrow> rbind (listed get ss) (\<lambda>rest. Inr (data # rest)))"

lemma seqs_step:
  assumes "f \<le> l" and "l < - 1"
  shows "seqs f l = f # seqs (f + 1) l" and "unat (f + 1) = Suc (unat f)"
proof -
  have "f \<noteq> - 1" using assms by auto
  then have "1 + f \<noteq> 0" using max_word_wrap [of f] by (auto simp: add.commute)
  then show u: "unat (f + 1) = Suc (unat f)" using unatSuc [of f] by (simp add: add.commute)
  have "unat f \<le> unat l" using assms(1) by (simp add: word_le_nat_alt)
  then have "[unat f..<Suc (unat l)] = unat f # [Suc (unat f)..<Suc (unat l)]" by (simp add: upt_conv_Cons)
  then show "seqs f l = f # seqs (f + 1) l" by (simp add: seqs_def u del: upt_Suc)
qed

lemma seqs_end: "\<not> f \<le> l \<Longrightarrow> seqs f l = []"
  by (simp add: seqs_def word_le_nat_alt)

lemma stream_loop_listed:
  assumes "l < - 1"
  shows "stream_loop get l f out = Some (rbind (listed get (seqs f l)) (\<lambda>ds. Inr (out @ ds)))"
proof (induction "Suc (unat l) - unat f" arbitrary: f out)
  case 0
  then have "\<not> f \<le> l" by (simp add: word_le_nat_alt)
  then show ?case by (simp add: stream_loop.simps seqs_end rbind_def)
next
  case (Suc n)
  then have le: "f \<le> l" by (simp add: word_le_nat_alt)
  have n: "n = Suc (unat l) - unat (f + 1)" using Suc.hyps(2) seqs_step(2) [OF le assms] by simp
  show ?case
    using le Suc.hyps(1) [OF n] by (simp add: stream_loop.simps [of _ l f] seqs_step(1) [OF le assms] rbind_def split: sum.split)
qed


lemma in_seqs: "f \<le> s \<Longrightarrow> s \<le> l \<Longrightarrow> s \<in> set (seqs f l)"
proof -
  assume "f \<le> s" "s \<le> l"
  then have "unat s \<in> set [unat f..<Suc (unat l)]" by (auto simp: word_le_nat_alt)
  then have "of_nat (unat s) \<in> set (seqs f l)" unfolding seqs_def set_map by (rule imageI)
  then show ?thesis by simp
qed

lemma listed_all: "listed get ss = Inr ds \<Longrightarrow> s \<in> set ss \<Longrightarrow> get s = Inr d \<Longrightarrow> d \<in> set ds"
  by (induction ss arbitrary: ds) (auto simp: rbind_eq_Inr_iff split: sum.splits if_splits)

lemma listed_only: "listed get ss = Inr ds \<Longrightarrow> d \<in> set ds \<Longrightarrow> \<exists>s\<in>set ss. get s = Inr d"
  by (induction ss arbitrary: ds) (auto simp: rbind_eq_Inr_iff split: sum.splits if_splits)

section \<open>Properties\<close>



definition ex_stream :: stream_handle where
  "ex_stream = \<lparr> sh_Info = Inr \<lparr> si_Msgs = 1, si_FirstSeq = 6, si_LastSeq = 7 \<rparr>,
     sh_GetMsg = (\<lambda>s. if s = 7 then Inr ''request'' else Inl ErrMsgNotFound),
     sh_CreateOrUpdateConsumer = (\<lambda>_. Inr ()), sh_Consume = Inr () \<rparr>"

definition ex_nats :: "(unit, unit) nats_driver" where
  "ex_nats = \<lparr> nd_Connect = (\<lambda>_. Inr ()), nd_JetStream = (\<lambda>_. Inr ()), nd_Publish = (\<lambda>_ _ _. None),
     nd_js_Publish = (\<lambda>_ _ _. None), nd_Stream = (\<lambda>_ _. Inr ex_stream), nd_IsConnected = (\<lambda>_. True) \<rparr>"

definition ex_queue_round :: round_env where
  "ex_queue_round = (ex_round (seconds 200))\<lparr>ae_payloads := Inr [''request''], ae_scan_id := (\<lambda>_. Some 2)\<rparr>"


end
