(* ===== verification/Boot_Sequence.thy ===== *)
theory Boot_Sequence
  imports Startup Broker
begin

text \<open>
  Waiting for the scanners (\<open>src/internal/service/startup.go\<close>) and the scans of the default
  endpoints (\<open>src/internal/service/default_endpoints.go\<close>).
\<close>

section \<open>Waiting for the scanners\<close>

definition defaultScannersWaitTimeout :: go_duration where "defaultScannersWaitTimeout = seconds 30"
definition defaultEndpointsPollInterval :: go_duration where "defaultEndpointsPollInterval = seconds 2"
definition defaultEndpointsPollTimeout :: go_duration where "defaultEndpointsPollTimeout = seconds 180"

text \<open>
  \<open>seen\<close> are the states of the tracker at the polls the context still allows, the
  first one at once; when they are used up the context is done.
\<close>

fun WaitForScanners :: "'r ScannerPresenceTracker \<Rightarrow> 'r ScannerPresenceTracker list \<Rightarrow> goerr option" where
  "WaitForScanners t later =
     (if HasScanner ''tls'' t \<and> HasScanner ''wallet'' t then None
      else case later of [] \<Rightarrow> Some DeadlineExceeded | t' # ts \<Rightarrow> WaitForScanners t' ts)"

lemma WaitForScanners_iff:
  "WaitForScanners t ts = None \<longleftrightarrow> (\<exists>t' \<in> set (t # ts). HasScanner ''tls'' t' \<and> HasScanner ''wallet'' t')"
  by (induction ts arbitrary: t) auto

section \<open>The default endpoints\<close>

record DefaultEndpoint =
  de_URL :: string
  de_Default :: bool
  de_Comment :: string

definition endpoint :: "string \<Rightarrow> string \<Rightarrow> DefaultEndpoint" where
  "endpoint url comment = \<lparr> de_URL = url, de_Default = True, de_Comment = comment \<rparr>"

definition DefaultEndpoints :: "DefaultEndpoint list" where
  "DefaultEndpoints =
     [endpoint ''https://nginx'' ''Cafe Discovery'',
      endpoint ''https://test.openquantumsafe.org'' ''OpenQuantum Safe Test'',
      endpoint ''https://test.openquantumsafe.org:6001'' ''OpenQuantum Safe Test - Hybrid SecP256r1MLKEM768'',
      endpoint ''https://test.openquantumsafe.org:6002'' ''OpenQuantum Safe Test - Hybrid SecP384r1MLKEM1024'',
      endpoint ''https://test.openquantumsafe.org:6003'' ''OpenQuantum Safe Test - Hybrid X25519MLKEM768'',
      endpoint ''https://pq.cloudflareresearch.com'' ''Cloudflare PQC Test'',
      endpoint ''https://rpc.ankr.com/eth'' ''Ethereum Mainnet'',
      endpoint ''https://arb1.arbitrum.io/rpc'' ''Arbitrum'',
      endpoint ''https://mainnet.optimism.io'' ''Optimism'',
      endpoint ''https://mainnet.base.org'' ''Coinbase L2'',
      endpoint ''https://zkevm-rpc.com'' ''Polygon zkEVM'',
      endpoint ''https://rpc.linea.build'' ''Linea (Consensys zkEVM)'',
      endpoint ''https://rpc.scroll.io'' ''Scroll'',
      endpoint ''https://rpc.mantlenetwork.io'' ''Mantle'',
      endpoint ''https://rpc.taiko.xyz'' ''Taiko'',
      endpoint ''https://rpc.blast.io'' ''Blast'',
      endpoint ''https://mainnet.mode.network'' ''Mode'',
      endpoint ''https://polygon-rpc.com'' ''Polygon'',
      endpoint ''https://lineascan.build'' ''Linea Explorer (Mainnet)'',
      endpoint ''https://goerli.lineascan.build'' ''Linea Explorer (Goerli)'']"

text \<open>The request message of the contracts module.\<close>

record tls_request =
  tr_ScanID :: string
  tr_UserID :: string
  tr_Endpoint :: string
  tr_IsDefault :: bool

text \<open>
  Each lookup is one \<open>FindByUserIDAndURL\<close> of the nil user.  \<open>world k\<close> is what the other
  services do to Redis before the k-th tick; \<open>clock k\<close> is the time at the k-th test of
  the loop, the first of which follows the computation of the deadline at once; \<open>new_id\<close> is
  the \<open>uuid.New()\<close> of each request, and \<open>publish\<close> answers whether it reached the stream.  The
  pause between two requests is not modelled, and the order in which Go walks the map of
  remaining addresses is that of the list.
\<close>

record 'r boot_env =
  be_redis :: "'r redis_conn"
  be_json :: tls_json
  be_world :: "nat \<Rightarrow> 'r \<Rightarrow> 'r"
  be_clock :: "nat \<Rightarrow> go_time"
  be_NilID :: string
  be_new_id :: "string \<Rightarrow> string"
  be_publish :: "tls_request \<Rightarrow> unit result"

definition default_request :: "'r boot_env \<Rightarrow> string \<Rightarrow> tls_request" where
  "default_request B url = \<lparr> tr_ScanID = be_new_id B url, tr_UserID = be_NilID B, tr_Endpoint = url, tr_IsDefault = True \<rparr>"

fun missing_urls :: "'r boot_env \<Rightarrow> string list \<Rightarrow> 'r \<Rightarrow> string list \<times> 'r" where
  "missing_urls B [] r = ([], r)"
| "missing_urls B (url # urls) r =
     (case cache_FindByUserIDAndURL (be_redis B) (be_json B) DefaultUserIDForRedis url r of
        (Inr _, r') \<Rightarrow> missing_urls B urls r'
      | (Inl _, r') \<Rightarrow> (case missing_urls B urls r' of (rest, r'') \<Rightarrow> (url # rest, r'')))"

fun poll_loop :: "'r boot_env \<Rightarrow> go_time \<Rightarrow> nat \<Rightarrow> nat \<Rightarrow> string list \<Rightarrow> 'r \<Rightarrow> (string list \<times> 'r) option" where
  "poll_loop B deadline 0 k remaining r = None"
| "poll_loop B deadline (Suc fuel) k remaining r =
     (if remaining \<noteq> [] \<and> be_clock B k < deadline
      then (case missing_urls B remaining (be_world B k r) of (rest, r') \<Rightarrow>
              poll_loop B deadline fuel (Suc k) rest r')
      else Some (remaining, r))"

text \<open>The result: the requests made, the addresses still missing at the end, and Redis.\<close>

definition InitializeDefaultEndpointsSync ::
  "'r boot_env \<Rightarrow> nat \<Rightarrow> 'r \<Rightarrow> (tls_request list \<times> string list \<times> 'r) option" where
  "InitializeDefaultEndpointsSync B fuel r =
     (case missing_urls B (map de_URL DefaultEndpoints) r of (toRequest, r') \<Rightarrow>
        if toRequest = [] then Some ([], [], r')
        else
          (let requested = filter (\<lambda>msg. \<not> isl (be_publish B msg)) (map (default_request B) toRequest);
               deadline = be_clock B 0 + defaultEndpointsPollTimeout
           in map_option (\<lambda>(remaining, r''). (requested, remaining, r'')) (poll_loop B deadline fuel 0 toRequest r')))"

lemma missing_urls_sub: "set (fst (missing_urls B urls r)) \<subseteq> set urls"
proof (induction urls arbitrary: r)
  case (Cons u urls)
  obtain x r' where x: "cache_FindByUserIDAndURL (be_redis B) (be_json B) DefaultUserIDForRedis u r = (x, r')"
    by (rule prod.exhaust)
  show ?case using Cons.IH [of r'] by (cases x) (auto simp: x split: prod.splits)
qed simp

text \<open>A clock that each tick moves on by the interval ends the loop.\<close>

lemma poll_loop_ends:
  assumes "\<And>k. be_clock B k \<ge> be_clock B 0 + int k * defaultEndpointsPollInterval"
    and "deadline = be_clock B 0 + defaultEndpointsPollTimeout" and "0 < fuel" and "90 < k + fuel"
  shows "poll_loop B deadline fuel k remaining r \<noteq> None"
  using assms(3,4)
proof (induction fuel arbitrary: k remaining r)
  case (Suc fuel)
  show ?case
  proof (cases "remaining \<noteq> [] \<and> be_clock B k < deadline")
    case True
    then have "int k * 2 < 180"
      using assms(1) [of k] assms(2)
      by (simp add: defaultEndpointsPollInterval_def defaultEndpointsPollTimeout_def seconds_def)
    then have "0 < fuel" "90 < Suc k + fuel" using Suc.prems by auto
    with Suc.IH True show ?thesis by (simp split: prod.splits)
  next
    case False
    then show ?thesis by auto
  qed
qed simp

lemma InitializeDefaultEndpointsSync_ends:
  assumes "\<And>k. be_clock B k \<ge> be_clock B 0 + int k * defaultEndpointsPollInterval" and "90 < fuel"
  shows "InitializeDefaultEndpointsSync B fuel r \<noteq> None"
  using poll_loop_ends [OF assms(1) refl, of fuel 0] assms(2)
  by (simp add: InitializeDefaultEndpointsSync_def Let_def split: prod.split)

lemma poll_loop_sub: "poll_loop B deadline fuel k remaining r = Some (rest, r') \<Longrightarrow> set rest \<subseteq> set remaining"
proof (induction fuel arbitrary: k remaining r)
  case (Suc fuel)
  show ?case
  proof (cases "remaining \<noteq> [] \<and> be_clock B k < deadline")
    case True
    obtain rs r1 where m: "missing_urls B remaining (be_world B k r) = (rs, r1)" by (rule prod.exhaust)
    with True Suc.prems have "set rest \<subseteq> set rs" using Suc.IH by simp
    moreover have "set rs \<subseteq> set remaining" using missing_urls_sub [of B remaining "be_world B k r"] m by simp
    ultimately show ?thesis by blast
  qed (use Suc.prems in auto)
qed simp


text \<open>On a reachable Redis the lookups find exactly the cached addresses.\<close>

definition not_cached :: "'r boot_env \<Rightarrow> (string \<rightharpoonup> string) \<Rightarrow> string \<Rightarrow> bool" where
  "not_cached B m url \<longleftrightarrow> isl (cached (be_json B) m DefaultUserIDForRedis url)"

lemma missing_urls_view:
  assumes "redis_ok (be_redis B) view"
  shows "fst (missing_urls B urls r) = filter (not_cached B (view r)) urls \<and> view (snd (missing_urls B urls r)) = view r"
proof (induction urls arbitrary: r)
  case (Cons u urls)
  let ?k = "getUserKey DefaultUserIDForRedis u"
  obtain r' where g: "rc_Get (be_redis B) ?k r = ((case view r ?k of None \<Rightarrow> Inl redis_Nil | Some v \<Rightarrow> Inr v), r')"
    and v: "view r' = view r"
    using redis_okD(2) [OF assms] by blast
  obtain x where f: "cache_FindByUserIDAndURL (be_redis B) (be_json B) DefaultUserIDForRedis u r = (x, r')"
    and x: "x = cached (be_json B) (view r) DefaultUserIDForRedis u"
    using g cache_Find_view [OF assms, of "be_json B" DefaultUserIDForRedis u r]
    by (auto simp: cache_FindByUserIDAndURL_def split: option.splits)
  show ?case
    using Cons.IH [of r'] v by (cases x) (auto simp: f not_cached_def simp flip: x split: prod.splits)
qed simp

section \<open>Properties\<close>

text \<open>
  C35: starting up with the default endpoints always comes to an end and asks for
  what is missing. On a reachable Redis, with a clock that advances by the poll
  interval, ninety rounds are enough: the requests published are exactly those of the
  default endpoints that were not cached and that the broker took, each once, and
  the endpoints still missing at the end are among those.
\<close>

theorem default_endpoints_requested:
  assumes "redis_ok (be_redis B) view"
    and "\<And>k. be_clock B k \<ge> be_clock B 0 + int k * defaultEndpointsPollInterval"
  shows "\<exists>requested remaining r'. InitializeDefaultEndpointsSync B 91 r = Some (requested, remaining, r')
    \<and> requested = filter (\<lambda>msg. \<not> isl (be_publish B msg)) (map (default_request B)
          (filter (not_cached B (view r)) (map de_URL DefaultEndpoints)))
    \<and> distinct (map tr_Endpoint requested) \<and> set remaining \<subseteq> {url \<in> set (map de_URL DefaultEndpoints). not_cached B (view r) url}"
proof -
  let ?urls = "map de_URL DefaultEndpoints"
  have dis: "distinct ?urls" by (simp add: DefaultEndpoints_def endpoint_def)
  obtain todo r1 where m: "missing_urls B ?urls r = (todo, r1)" by (rule prod.exhaust)
  have t: "todo = filter (not_cached B (view r)) ?urls" using missing_urls_view [OF assms(1), of ?urls r] m by simp
  obtain rest r2 where p: "poll_loop B (be_clock B 0 + defaultEndpointsPollTimeout) 91 0 todo r1 = Some (rest, r2)"
    using poll_loop_ends [OF assms(2) refl, of 91 0 todo r1] by auto
  have sub: "set rest \<subseteq> set todo" by (rule poll_loop_sub [OF p])
  let ?req = "filter (\<lambda>msg. \<not> isl (be_publish B msg)) (map (default_request B) todo)"
  have "map tr_Endpoint ?req = filter (\<lambda>url. \<not> isl (be_publish B (default_request B url))) todo"
    by (induction todo) (simp_all add: default_request_def)
  then have dr: "distinct (map tr_Endpoint ?req)" using dis t by simp
  show ?thesis
  proof (cases "todo = []")
    case True
    then show ?thesis
      using True m t by (intro exI [of _ "[]"] exI [of _ r1]) (simp add: InitializeDefaultEndpointsSync_def)
  next
    case False
    have "InitializeDefaultEndpointsSync B 91 r = Some (?req, rest, r2)"
      using False m p by (simp add: InitializeDefaultEndpointsSync_def Let_def)
    moreover have "set rest \<subseteq> {url \<in> set ?urls. not_cached B (view r) url}" using sub t by auto
    ultimately show ?thesis using dr unfolding t by blast
  qed
qed

definition ex_boot :: "(string \<times> string) list boot_env" where
  "ex_boot = \<lparr> be_redis = ex_redis, be_json = ex_tls_json, be_world = (\<lambda>_ r. r), be_clock = (\<lambda>k. int k * seconds 2),
     be_NilID = ''0'', be_new_id = (\<lambda>url. url), be_publish = (\<lambda>_. Inr ()) \<rparr>"

theorem default_endpoints_requested_witness:
  "\<exists>requested remaining r'. InitializeDefaultEndpointsSync ex_boot 91 [] = Some (requested, remaining, r')
     \<and> ''https://nginx'' \<in> set (map tr_Endpoint requested)"
proof -
  have r: "redis_ok (be_redis ex_boot) map_of" by (simp add: ex_boot_def ex_redis_ok)
  have c: "be_clock ex_boot k \<ge> be_clock ex_boot 0 + int k * defaultEndpointsPollInterval" for k
    by (simp add: ex_boot_def defaultEndpointsPollInterval_def)
  have n: "not_cached ex_boot (map_of []) ''https://nginx''" by (simp add: not_cached_def cached_def)
  have p: "\<not> isl (be_publish ex_boot msg)" for msg by (simp add: ex_boot_def)
  have i: "''https://nginx'' \<in> set (map de_URL DefaultEndpoints)" by (simp add: DefaultEndpoints_def endpoint_def)
  have "''https://nginx'' \<in> tr_Endpoint ` default_request ex_boot ` set (filter (not_cached ex_boot (map_of [])) (map de_URL DefaultEndpoints))"
    using n i by (intro image_eqI [of _ _ "default_request ex_boot ''https://nginx''"] imageI) (simp_all add: default_request_def)
  then have "''https://nginx'' \<in> set (map tr_Endpoint (filter (\<lambda>msg. \<not> isl (be_publish ex_boot msg))
      (map (default_request ex_boot) (filter (not_cached ex_boot (map_of [])) (map de_URL DefaultEndpoints)))))"
    using p by (simp add: image_image del: set_filter)
  then show ?thesis using default_endpoints_requested [OF r c, of "[]"]
    by (elim exE conjE) (intro exI conjI, assumption, simp only:)
qed

end
