(* ===== verification/Routes.thy ===== *)
theory Routes
  imports Go_Strings
begin

text \<open>
  The routes of the service: \<open>setupRoutes\<close> of \<open>src/internal/app/container.go\<close>,
  \<open>registerDiscoveryV1Routes\<close> of \<open>src/internal/app/discovery_v1_routes.go\<close> and the paths of
  \<open>src/internal/discoveryroutes/routes.go\<close>.

  The registrations are a list in the order of the calls.  Fiber walks that list: a
  middleware whose prefix matches may refuse the request, and the first route whose
  method and pattern match handles it.  How a pattern or a prefix matches a path is
  Fiber's, the record \<open>fiber\<close>, with the laws \<open>fiber_ok\<close> from its documentation.  The
  CORS and metrics middlewares pass every request on and are left out.
\<close>

section \<open>Paths\<close>

definition discovery_V1Base :: string where "discovery_V1Base = ''/discovery/v1''"
definition Wallets :: string where "Wallets = discovery_V1Base @ ''/wallets''"
definition WalletScansPath :: string where "WalletScansPath = Wallets @ ''/scans''"
definition TLSScansPath :: string where "TLSScansPath = discovery_V1Base @ ''/tls/scans''"
definition TLSScansDefaultsPath :: string where "TLSScansDefaultsPath = TLSScansPath @ ''/defaults''"
definition PostScanPath :: string where "PostScanPath = discovery_V1Base @ ''/scan''"

definition WalletScanByIDPath :: "string \<Rightarrow> string" where "WalletScanByIDPath scanID = WalletScansPath @ ''/'' @ scanID"
definition WalletScanCBOMByID :: "string \<Rightarrow> string" where
  "WalletScanCBOMByID scanID = WalletScansPath @ ''/'' @ scanID @ ''/cbom''"
definition TLSScanByIDPath :: "string \<Rightarrow> string" where "TLSScanByIDPath scanID = TLSScansPath @ ''/'' @ scanID"
definition TLSScanCBOMByID :: "string \<Rightarrow> string" where
  "TLSScanCBOMByID scanID = TLSScansPath @ ''/'' @ scanID @ ''/cbom''"

definition walletPubKeyHashPath :: string where "walletPubKeyHashPath = ''/:pubKeyHash''"

section \<open>Registrations\<close>

datatype route_guard = GuardJWT | GuardService

datatype route_endpoint =
    EpSignup | EpSignin | EpHealth | EpVersion | EpMetrics
  | EpListRPCs | EpListAvailableScanners | EpGetOnchainScanner
  | EpGetAllWallets | EpCreateWallet | EpGetWallet | EpUpdateWallet | EpDeleteWallet
  | EpListWalletScans | EpGetWalletScanCBOM | EpGetWalletScan | EpDeleteWalletScan
  | EpListTLSScans | EpListTLSDefaultScans | EpGetTLSScanCBOM | EpGetTLSScan | EpDeleteTLSScan
  | EpPostScan | EpNotImplemented string
  | EpGetAllPlans | EpGetUserPlan | EpGetPlanUsage
  | EpValidateSession | EpCanReadScan

datatype registration = Use string route_guard | Handle string string route_endpoint

text \<open>The path of a route in a group: the prefix without trailing slashes and the path.\<close>

definition in_group :: "string \<Rightarrow> registration list \<Rightarrow> registration list" where
  "in_group prefix rs = map (\<lambda>r. case r of Handle m p e \<Rightarrow> Handle m (prefix @ p) e | Use p g \<Rightarrow> Use (prefix @ p) g) rs"

definition discoveryV1NotImplemented :: "string \<Rightarrow> route_endpoint" where
  "discoveryV1NotImplemented feature = EpNotImplemented feature"

definition wallet_scan_routes :: "bool \<Rightarrow> registration list" where
  "wallet_scan_routes discovery =
     (if discovery
      then [Handle ''GET'' ''/scans'' EpListWalletScans, Handle ''GET'' ''/scans/:scan_id/cbom'' EpGetWalletScanCBOM,
            Handle ''GET'' ''/scans/:scan_id'' EpGetWalletScan, Handle ''DELETE'' ''/scans/:scan_id'' EpDeleteWalletScan]
      else [Handle ''GET'' ''/scans'' (discoveryV1NotImplemented (''GET '' @ WalletScansPath)),
            Handle ''GET'' ''/scans/:scan_id/cbom'' (discoveryV1NotImplemented (''GET '' @ WalletScanCBOMByID '':scan_id'')),
            Handle ''GET'' ''/scans/:scan_id'' (discoveryV1NotImplemented (''GET '' @ WalletScansPath @ ''/:scan_id'')),
            Handle ''DELETE'' ''/scans/:scan_id'' (discoveryV1NotImplemented (''DELETE '' @ WalletScansPath @ ''/:scan_id''))])"

definition tls_scan_routes :: "bool \<Rightarrow> registration list" where
  "tls_scan_routes tls =
     (if tls
      then [Handle ''GET'' ''/scans'' EpListTLSScans, Handle ''GET'' ''/scans/defaults'' EpListTLSDefaultScans,
            Handle ''GET'' ''/scans/:scan_id/cbom'' EpGetTLSScanCBOM, Handle ''GET'' ''/scans/:scan_id'' EpGetTLSScan,
            Handle ''DELETE'' ''/scans/:scan_id'' EpDeleteTLSScan]
      else [Handle ''GET'' ''/scans'' (discoveryV1NotImplemented (''GET '' @ TLSScansPath)),
            Handle ''GET'' ''/scans/defaults'' (discoveryV1NotImplemented (''GET '' @ TLSScansDefaultsPath)),
            Handle ''GET'' ''/scans/:scan_id/cbom'' (discoveryV1NotImplemented (''GET '' @ TLSScanCBOMByID '':scan_id'')),
            Handle ''GET'' ''/scans/:scan_id'' (discoveryV1NotImplemented (''GET '' @ TLSScansPath @ ''/:scan_id'')),
            Handle ''DELETE'' ''/scans/:scan_id'' (discoveryV1NotImplemented (''DELETE '' @ TLSScansPath @ ''/:scan_id''))])"

definition registerDiscoveryV1Routes :: "bool \<Rightarrow> bool \<Rightarrow> registration list" where
  "registerDiscoveryV1Routes discovery tls =
     in_group ''/wallets''
       ([Handle ''GET'' ''/'' EpGetAllWallets, Handle ''POST'' ''/'' EpCreateWallet]
        @ wallet_scan_routes discovery
        @ [Handle ''GET'' walletPubKeyHashPath EpGetWallet, Handle ''PUT'' walletPubKeyHashPath EpUpdateWallet,
           Handle ''DELETE'' walletPubKeyHashPath EpDeleteWallet])
     @ in_group ''/tls'' (tls_scan_routes tls)
     @ [Handle ''POST'' ''/scan'' (if discovery then EpPostScan else discoveryV1NotImplemented (''POST '' @ PostScanPath))]"

definition setupRoutes :: "registration list" where
  "setupRoutes =
     in_group ''/auth'' [Handle ''POST'' ''/signup'' EpSignup, Handle ''POST'' ''/signin'' EpSignin]
     @ [Handle ''GET'' ''/health'' EpHealth, Handle ''GET'' ''/version'' EpVersion, Handle ''GET'' ''/metrics'' EpMetrics]
     @ in_group discovery_V1Base
         [Handle ''GET'' ''/rpcs'' EpListRPCs, Handle ''GET'' ''/scanners'' EpListAvailableScanners,
          Handle ''GET'' ''/onchainscanner'' EpGetOnchainScanner]
     @ Use discovery_V1Base GuardJWT # in_group discovery_V1Base (registerDiscoveryV1Routes True True)
     @ Use ''/plans'' GuardJWT # in_group ''/plans''
         [Handle ''GET'' ''/'' EpGetAllPlans, Handle ''GET'' ''/current'' EpGetUserPlan, Handle ''GET'' ''/usage'' EpGetPlanUsage]
     @ Use ''/internal/auth'' GuardService # in_group ''/internal/auth'' [Handle ''POST'' ''/session/validate'' EpValidateSession]
     @ Use ''/internal/authz'' GuardService # in_group ''/internal/authz''
         [Handle ''POST'' ''/scans/:scanId/can-read'' EpCanReadScan]"

section \<open>Dispatch\<close>

record fiber =
  route_match :: "string \<Rightarrow> string \<Rightarrow> bool"
  use_match :: "string \<Rightarrow> string \<Rightarrow> bool"

text \<open>A GET route answers HEAD requests too.\<close>

definition takes :: "string \<Rightarrow> string \<Rightarrow> bool" where
  "takes m m' \<longleftrightarrow> m = m' \<or> m = ''HEAD'' \<and> m' = ''GET''"

datatype dispatched = NotFound | Rejected route_guard | Reached route_endpoint

fun dispatch :: "fiber \<Rightarrow> (route_guard \<Rightarrow> bool) \<Rightarrow> string \<Rightarrow> string \<Rightarrow> registration list \<Rightarrow> dispatched" where
  "dispatch F passes m path [] = NotFound"
| "dispatch F passes m path (Use p g # rs) =
     (if use_match F p path \<and> \<not> passes g then Rejected g else dispatch F passes m path rs)"
| "dispatch F passes m path (Handle m' p e # rs) =
     (if takes m m' \<and> route_match F p path then Reached e else dispatch F passes m path rs)"

text \<open>
  Fiber's defaults: letter case and trailing slashes do not matter; a pattern without
  a parameter matches its own path only; a parameter at the end takes a segment; and
  a path that a route matches has the prefix of every group the route is in.
\<close>

definition canon :: "string \<Rightarrow> string" where
  "canon path = rev (dropWhile (\<lambda>c. c = CHR ''/'') (rev (ToLower path)))"

definition literal :: "string \<Rightarrow> bool" where
  "literal p \<longleftrightarrow> set p \<inter> {CHR '':'', CHR ''*'', CHR ''+'', CHR ''?''} = {}"

definition has_prefix :: "string \<Rightarrow> string \<Rightarrow> bool" where
  "has_prefix q path \<longleftrightarrow> canon path = canon q \<or> HasPrefix (canon path) (canon q @ ''/'')"

definition fiber_ok :: "fiber \<Rightarrow> bool" where
  "fiber_ok F \<longleftrightarrow>
     (\<forall>p path. literal p \<longrightarrow> (route_match F p path \<longleftrightarrow> canon path = canon p))
   \<and> (\<forall>q r path. literal q \<and> q \<noteq> [] \<and> last q \<noteq> CHR ''/'' \<and> route_match F (q @ ''/'' @ r) path \<longrightarrow> has_prefix q path)
   \<and> (\<forall>q path. use_match F q path \<longleftrightarrow> has_prefix q path)"

section \<open>Every route behind its guard\<close>

text \<open>Which middleware a handler must be behind.\<close>

fun needed :: "route_endpoint \<Rightarrow> route_guard option" where
  "needed EpSignup = None" | "needed EpSignin = None" | "needed EpHealth = None" | "needed EpVersion = None"
| "needed EpMetrics = None" | "needed EpListRPCs = None" | "needed EpListAvailableScanners = None"
| "needed EpGetOnchainScanner = None"
| "needed EpValidateSession = Some GuardService" | "needed EpCanReadScan = Some GuardService"
| "needed _ = Some GuardJWT"

text \<open>A check on the list: every handler comes after its middleware, on a prefix of its pattern.\<close>

definition covers :: "string \<Rightarrow> string \<Rightarrow> bool" where
  "covers q p \<longleftrightarrow> literal q \<and> q \<noteq> [] \<and> last q \<noteq> CHR ''/'' \<and> HasPrefix p (q @ ''/'')"

fun guards_ok :: "(string \<times> route_guard) list \<Rightarrow> registration list \<Rightarrow> bool" where
  "guards_ok used [] = True"
| "guards_ok used (Use p g # rs) = guards_ok ((p, g) # used) rs"
| "guards_ok used (Handle m p e # rs) =
     ((case needed e of None \<Rightarrow> True | Some g \<Rightarrow> list_ex (\<lambda>(q, g'). g' = g \<and> covers q p) used) \<and> guards_ok used rs)"

lemma covered_match:
  assumes "fiber_ok F" and "covers q p" and "route_match F p path"
  shows "use_match F q path"
proof -
  have "p = q @ ''/'' @ drop (length q + 1) p"
    using assms(2) append_take_drop_id [of "length q + 1" p] by (simp add: covers_def HasPrefix_def)
  with assms show ?thesis unfolding fiber_ok_def covers_def by metis
qed

lemma guards_ok_sound:
  assumes "fiber_ok F" and "guards_ok used rs" and "\<And>q g. (q, g) \<in> set used \<Longrightarrow> use_match F q path \<Longrightarrow> passes g"
    and "dispatch F passes m path rs = Reached e" and "needed e = Some g"
  shows "passes g"
  using assms(2-4)
proof (induction used rs rule: guards_ok.induct)
  case (2 used p g' rs)
  have d: "dispatch F passes m path rs = Reached e" and k: "use_match F p path \<Longrightarrow> passes g'"
    using 2(4) by (auto split: if_splits)
  show ?case
    by (rule 2(1) [OF _ _ d]) (use 2(2,3) k in auto)
next
  case (3 used m' p e' rs)
  show ?case
  proof (cases "takes m m' \<and> route_match F p path")
    case True
    then have "e' = e" using 3(4) by simp
    then obtain q where "(q, g) \<in> set used" and "covers q p"
      using 3(2) assms(5) by (auto simp: list_ex_iff)
    with 3(3) True covered_match [OF assms(1)] show ?thesis by blast
  next
    case False
    then have "dispatch F passes m path rs = Reached e" using 3(4) by auto
    with 3 show ?thesis by simp
  qed
qed simp

lemma setupRoutes_guards: "guards_ok [] setupRoutes"
  by code_simp


section \<open>Which route takes a path\<close>

text \<open>The group a pattern with a parameter is surely in: what stands before its first parameter.\<close>

definition stem :: "string \<Rightarrow> string" where
  "stem p = butlast (takeWhile (\<lambda>c. c \<noteq> CHR '':'') p)"

text \<open>Paths in lower case, the registered ones, are compared without folding letter case.\<close>

definition low :: "string \<Rightarrow> bool" where
  "low p \<longleftrightarrow> list_all (\<lambda>c. c \<in> set ''abcdefghijklmnopqrstuvwxyz0123456789/:_-'') p"

definition trimmed :: "string \<Rightarrow> string" where
  "trimmed p = rev (dropWhile (\<lambda>c. c = CHR ''/'') (rev p))"

definition below :: "string \<Rightarrow> string \<Rightarrow> bool" where
  "below q path \<longleftrightarrow> trimmed path = trimmed q \<or> HasPrefix (trimmed path) (trimmed q @ ''/'')"

text \<open>A check that the path goes to a handler behind the JWT middleware and to no earlier route.\<close>

fun settles :: "string \<Rightarrow> string \<Rightarrow> route_endpoint \<Rightarrow> registration list \<Rightarrow> bool" where
  "settles m path e [] = False"
| "settles m path e (Use p g # rs) = (low p \<and> (below p path \<longrightarrow> g = GuardJWT) \<and> settles m path e rs)"
| "settles m path e (Handle m' p e' # rs) =
     (if \<not> takes m m' then settles m path e rs
      else if literal p then low p \<and> (if trimmed path = trimmed p then e' = e else settles m path e rs)
      else covers (stem p) p \<and> low (stem p) \<and> \<not> below (stem p) path \<and> settles m path e rs)"

lemma low_canon: "low p \<Longrightarrow> canon p = trimmed p"
proof -
  assume "low p"
  have "lower_char c = c" if "c \<in> set p" for c
  proof -
    have "c \<in> set ''abcdefghijklmnopqrstuvwxyz0123456789/:_-''"
      using \<open>low p\<close> that by (auto simp: low_def list_all_iff)
    then show ?thesis by (auto simp: lower_char_def byte_def)
  qed
  then have "ToLower p = p" by (simp add: ToLower_def map_idI)
  then show ?thesis by (simp add: canon_def trimmed_def)
qed

lemma low_below: "low q \<Longrightarrow> low path \<Longrightarrow> has_prefix q path \<longleftrightarrow> below q path"
  by (simp add: has_prefix_def below_def low_canon)

lemma settles_dispatch:
  assumes "fiber_ok F" and "passes GuardJWT"
  shows "settles m path e rs \<Longrightarrow> low path \<Longrightarrow> dispatch F passes m path rs = Reached e"
proof (induction m path e rs rule: settles.induct)
  case (2 m path e p g rs)
  then show ?case using assms low_below [of p path] by (auto simp: fiber_ok_def)
next
  case (3 m path e m' p e' rs)
  have u: "use_match F q path \<longleftrightarrow> has_prefix q path" for q using assms(1) by (simp add: fiber_ok_def)
  have l: "route_match F p path \<longleftrightarrow> canon path = canon p" if "literal p"
    using assms(1) that by (simp add: fiber_ok_def)
  show ?case
  proof (cases "takes m m' \<and> \<not> literal p")
    case True
    then have c: "covers (stem p) p" "low (stem p)" "\<not> below (stem p) path" "settles m path e rs"
      using 3(4) by auto
    then have "\<not> route_match F p path"
      using covered_match [OF assms(1)] u low_below [OF _ 3(5)] by blast
    with True c 3 show ?thesis by simp
  next
    case False
    with 3 l show ?thesis by (auto simp: low_canon split: if_splits)
  qed
qed simp

definition settled_paths :: "(string \<times> string \<times> route_endpoint) list" where
  "settled_paths =
     [(''GET'', WalletScansPath, EpListWalletScans), (''GET'', Wallets, EpGetAllWallets),
      (''GET'', TLSScansPath, EpListTLSScans), (''GET'', TLSScansDefaultsPath, EpListTLSDefaultScans),
      (''POST'', PostScanPath, EpPostScan), (''GET'', ''/plans/current'', EpGetUserPlan),
      (''GET'', ''/plans/usage'', EpGetPlanUsage)]"

lemma setupRoutes_settles: "list_all (\<lambda>(m, path, e). low path \<and> settles m path e setupRoutes) settled_paths"
  by code_simp

section \<open>Properties\<close>

text \<open>
  No handler is reachable around its middleware. Whatever the request, a handler
  of a signed-in route runs only after the JWT middleware let the request pass, and a
  handler of an internal route only after the service-token middleware did; and with
  a session the fixed collection paths go to their own handlers, never to a route
  with a parameter that would take their last segment for an identifier.
\<close>

lemma routes_guarded:
  assumes "fiber_ok F"
  shows "(\<forall>passes m path e g. dispatch F passes m path setupRoutes = Reached e \<and> needed e = Some g \<longrightarrow> passes g)
    \<and> (\<forall>passes m path e. (m, path, e) \<in> set settled_paths \<and> passes GuardJWT \<longrightarrow>
         dispatch F passes m path setupRoutes = Reached e)"
proof (intro conjI allI impI)
  fix passes m path e g
  assume "dispatch F passes m path setupRoutes = Reached e \<and> needed e = Some g"
  then show "passes g" using guards_ok_sound [OF assms setupRoutes_guards] by auto
next
  fix passes m path e
  assume "(m, path, e) \<in> set settled_paths \<and> passes GuardJWT"
  then show "dispatch F passes m path setupRoutes = Reached e"
    using setupRoutes_settles settles_dispatch [OF assms] by (auto simp: list_all_iff)
qed


text \<open>A concrete Fiber: patterns and paths are compared segment by segment.\<close>

definition segment_ok :: "string \<Rightarrow> string \<Rightarrow> bool" where
  "segment_ok s x \<longleftrightarrow> (if HasPrefix s '':'' then x \<noteq> '''' else x = s)"

definition ex_fiber :: fiber where
  "ex_fiber = \<lparr> route_match = (\<lambda>p path. list_all2 segment_ok (Split (canon p) CHR ''/'') (Split (canon path) CHR ''/'')),
     use_match = has_prefix \<rparr>"

fun join_slash :: "string list \<Rightarrow> string" where
  "join_slash [] = []"
| "join_slash [x] = x"
| "join_slash (x # y # ys) = x @ CHR ''/'' # join_slash (y # ys)"

lemma join_Split: "join_slash (Split s CHR ''/'') = s"
proof (induction s)
  case (Cons a s)
  obtain p ps where "Split s CHR ''/'' = p # ps" by (cases "Split s CHR ''/''") simp_all
  with Cons show ?case by (cases ps) auto
qed simp

lemma Split_append: "Split (q @ CHR ''/'' # r) CHR ''/'' = Split q CHR ''/'' @ Split r CHR ''/''"
  by (induction q) (simp_all split: list.splits)

lemma join_append: "xs \<noteq> [] \<Longrightarrow> ys \<noteq> [] \<Longrightarrow> join_slash (xs @ ys) = join_slash xs @ CHR ''/'' # join_slash ys"
proof (induction xs rule: join_slash.induct)
  case (2 x)
  then show ?case by (cases ys) simp_all
qed simp_all

lemma segments_literal:
  assumes "\<And>s. s \<in> set ps \<Longrightarrow> \<not> HasPrefix s '':''"
  shows "list_all2 segment_ok ps xs \<longleftrightarrow> xs = ps"
  using assms
proof (induction ps arbitrary: xs)
  case (Cons s ps)
  then show ?case by (cases xs) (auto simp: segment_ok_def)
qed simp

lemma set_Split: "s \<in> set (Split t c) \<Longrightarrow> set s \<subseteq> set t"
proof (induction t arbitrary: s)
  case (Cons a t)
  obtain p ps where p: "Split t c = p # ps" by (cases "Split t c") simp_all
  then have "set p \<subseteq> set t" "\<And>q. q \<in> set ps \<Longrightarrow> set q \<subseteq> set t" using Cons.IH by auto
  with Cons.prems p show ?case by (auto split: if_splits)
qed simp

lemma lower_colon: "lower_char c = CHR '':'' \<Longrightarrow> c = CHR '':''"
proof (rule ccontr)
  assume l: "lower_char c = CHR '':''" and n: "c \<noteq> CHR '':''"
  then have "65 \<le> byte c" "byte c \<le> 90" "char_of (byte c + 32) = CHR '':''"
    by (auto simp: lower_char_def split: if_splits)
  then have "byte (CHR '':'') = byte c + 32"
    using byte_char_of [of "byte c + 32"] by simp
  with \<open>65 \<le> byte c\<close> show False by (simp add: byte_def)
qed

lemma canon_literal:
  assumes "literal p" and "s \<in> set (Split (canon p) CHR ''/'')"
  shows "\<not> HasPrefix s '':''"
proof
  assume "HasPrefix s '':''"
  then have "CHR '':'' \<in> set s" by (cases s) (auto simp: HasPrefix_def)
  then have "CHR '':'' \<in> set (canon p)" using set_Split [OF assms(2)] by blast
  then have "CHR '':'' \<in> set (ToLower p)"
    unfolding canon_def by (metis set_dropWhileD set_rev)
  then have "CHR '':'' \<in> set p" using lower_colon unfolding ToLower_def by (metis image_iff image_set)
  with assms(1) show False by (auto simp: literal_def)
qed


lemma canon_append:
  assumes "q \<noteq> []" and "last q \<noteq> CHR ''/''"
  shows "canon (q @ CHR ''/'' # r) = canon q \<or> (\<exists>r'. canon (q @ CHR ''/'' # r) = canon q @ CHR ''/'' # r')"
    and "canon q = ToLower q"
proof -
  have sl: "lower_char c = CHR ''/'' \<longleftrightarrow> c = CHR ''/''" for c
  proof
    assume l: "lower_char c = CHR ''/''"
    show "c = CHR ''/''"
    proof (rule ccontr)
      assume "c \<noteq> CHR ''/''"
      with l have b: "65 \<le> byte c" "byte c \<le> 90" "char_of (byte c + 32) = CHR ''/''"
        by (auto simp: lower_char_def split: if_splits)
      then have "byte (CHR ''/'') = byte c + 32" using byte_char_of [of "byte c + 32"] by simp
      with b show False by (simp add: byte_def)
    qed
  qed (simp add: lower_char_def byte_def)
  obtain q0 a where q: "q = q0 @ [a]" and a: "a \<noteq> CHR ''/''"
    using assms by (metis append_butlast_last_id)
  show cq: "canon q = ToLower q"
    using a sl by (simp add: canon_def q ToLower_def)
  have t: "canon (q @ CHR ''/'' # r) = (if dropWhile (\<lambda>c. c = CHR ''/'') (rev (ToLower r)) = [] then ToLower q
      else ToLower q @ CHR ''/'' # rev (dropWhile (\<lambda>c. c = CHR ''/'') (rev (ToLower r))))"
    using a sl by (auto simp: canon_def q ToLower_def dropWhile_append dropWhile_eq_Nil_conv)
  then show "canon (q @ CHR ''/'' # r) = canon q \<or> (\<exists>r'. canon (q @ CHR ''/'' # r) = canon q @ CHR ''/'' # r')"
    using cq by auto
qed

lemma ex_fiber_ok: "fiber_ok ex_fiber"
proof -
  have lit: "route_match ex_fiber p path \<longleftrightarrow> canon path = canon p" if "literal p" for p path
  proof -
    have "list_all2 segment_ok (Split (canon p) CHR ''/'') (Split (canon path) CHR ''/'')
        \<longleftrightarrow> Split (canon path) CHR ''/'' = Split (canon p) CHR ''/''"
      by (rule segments_literal) (rule canon_literal [OF that])
    also have "\<dots> \<longleftrightarrow> canon path = canon p" by (metis join_Split)
    finally show ?thesis by (simp add: ex_fiber_def)
  qed
  have pre: "has_prefix q path"
    if q: "literal q" "q \<noteq> []" "last q \<noteq> CHR ''/''" and m: "route_match ex_fiber (q @ ''/'' @ r) path" for q r path
  proof -
    let ?xs = "Split (canon path) CHR ''/''"
    have s: "list_all2 segment_ok (Split (canon q) CHR ''/'') xs \<longleftrightarrow> xs = Split (canon q) CHR ''/''" for xs
      by (rule segments_literal) (rule canon_literal [OF q(1)])
    from canon_append(1) [OF q(2,3), of r] show ?thesis
    proof
      assume "canon (q @ CHR ''/'' # r) = canon q"
      then have "?xs = Split (canon q) CHR ''/''" using m s by (simp add: ex_fiber_def)
      then show ?thesis unfolding has_prefix_def by (metis join_Split)
    next
      assume "\<exists>r'. canon (q @ CHR ''/'' # r) = canon q @ CHR ''/'' # r'"
      then obtain r' where "canon (q @ CHR ''/'' # r) = canon q @ CHR ''/'' # r'" by blast
      then have "list_all2 segment_ok (Split (canon q) CHR ''/'' @ Split r' CHR ''/'') ?xs"
        using m by (simp add: ex_fiber_def Split_append)
      then obtain us vs where x: "?xs = us @ vs" and u: "us = Split (canon q) CHR ''/''"
        and v: "list_all2 segment_ok (Split r' CHR ''/'') vs"
        using s unfolding list_all2_append1 by blast
      have "vs \<noteq> []" using v by (cases vs) auto
      then have "canon path = canon q @ CHR ''/'' # join_slash vs"
        using x u join_append [of us vs] join_Split [of "canon path"] join_Split [of "canon q"] by simp
      then show ?thesis by (simp add: has_prefix_def HasPrefix_def)
    qed
  qed
  show ?thesis
    unfolding fiber_ok_def using lit pre by (auto simp: ex_fiber_def)
qed

lemma routes_guarded_witness:
  "fiber_ok ex_fiber
   \<and> dispatch ex_fiber (\<lambda>g. g = GuardJWT) ''GET'' WalletScansPath setupRoutes = Reached EpListWalletScans
   \<and> (\<forall>path. dispatch ex_fiber (\<lambda>g. False) ''GET'' path setupRoutes \<noteq> Reached EpListWalletScans)"
proof -
  note r = routes_guarded [OF ex_fiber_ok]
  have "dispatch ex_fiber (\<lambda>g. False) ''GET'' path setupRoutes \<noteq> Reached EpListWalletScans" for path
    using conjunct1 [OF r, rule_format, of "\<lambda>g. False" "''GET''" path EpListWalletScans GuardJWT] by auto
  moreover have "(''GET'', WalletScansPath, EpListWalletScans) \<in> set settled_paths" by (simp add: settled_paths_def)
  ultimately show ?thesis using r ex_fiber_ok by simp
qed

end
