(* ===== verification/Metrics.thy ===== *)
theory Metrics
  imports Http_Model
begin

text \<open>
  The metrics of \<open>src/internal/metrics\<close>: the collectors \<open>Init\<close> registers, the recording
  methods, and the HTTP middleware with the labels it writes.

  A counter or a histogram with labels is the list of its observations, the newest
  last: the values of its labels (durations are not modelled).  Prometheus' registry
  is the list of the names registered; registering a name twice panics.
\<close>

section \<open>UTF-8\<close>

text \<open>
  The number of bytes of the first rune of a string, \<open>0\<close> when its bytes are not the
  UTF-8 encoding of a rune (\<open>utf8.DecodeRune\<close>).
\<close>

definition byte_in :: "nat \<Rightarrow> nat \<Rightarrow> string \<Rightarrow> nat \<Rightarrow> bool" where
  "byte_in lo hi s i \<longleftrightarrow> i < length s \<and> lo \<le> byte (s ! i) \<and> byte (s ! i) \<le> hi"

definition starts_three :: "string \<Rightarrow> bool" where
  "starts_three s \<longleftrightarrow> byte_in 224 224 s 0 \<and> byte_in 160 191 s 1 \<or> byte_in 225 236 s 0 \<and> byte_in 128 191 s 1
     \<or> byte_in 237 237 s 0 \<and> byte_in 128 159 s 1 \<or> byte_in 238 239 s 0 \<and> byte_in 128 191 s 1"

definition starts_four :: "string \<Rightarrow> bool" where
  "starts_four s \<longleftrightarrow> byte_in 240 240 s 0 \<and> byte_in 144 191 s 1 \<or> byte_in 241 243 s 0 \<and> byte_in 128 191 s 1
     \<or> byte_in 244 244 s 0 \<and> byte_in 128 143 s 1"

definition rune_len :: "string \<Rightarrow> nat" where
  "rune_len s =
     (if byte_in 0 127 s 0 then 1
      else if byte_in 194 223 s 0 \<and> byte_in 128 191 s 1 then 2
      else if starts_three s \<and> byte_in 128 191 s 2 then 3
      else if starts_four s \<and> byte_in 128 191 s 2 \<and> byte_in 128 191 s 3 then 4
      else 0)"

lemma byte_in_length: "byte_in lo hi s i \<Longrightarrow> i < length s"
  by (simp add: byte_in_def)

lemma rune_len_le: "rune_len s \<le> length s"
  using byte_in_length [of 0 127 s 0] byte_in_length [of 128 191 s 1]
    byte_in_length [of 128 191 s 2] byte_in_length [of 128 191 s 3]
  by (auto simp: rune_len_def Suc_le_eq)

function valid_utf8 :: "string \<Rightarrow> bool" where
  "valid_utf8 s = (if s = [] then True else if rune_len s = 0 then False else valid_utf8 (drop (rune_len s) s))"
  by pat_completeness auto
termination
proof (relation "measure length", goal_cases)
  case (2 s)
  then show ?case using rune_len_le [of s] by simp
qed simp

declare valid_utf8.simps [simp del]

text \<open>\<open>strings.ToValidUTF8\<close>: each run of invalid bytes becomes one replacement.\<close>

function to_valid :: "string \<Rightarrow> bool \<Rightarrow> string \<Rightarrow> string" where
  "to_valid rep invalid s =
     (if s = [] then []
      else if rune_len s = 0 then (if invalid then [] else rep) @ to_valid rep True (drop 1 s)
      else take (rune_len s) s @ to_valid rep False (drop (rune_len s) s))"
  by pat_completeness auto
termination
proof (relation "measure (\<lambda>(_, _, s). length s)", goal_cases)
  case (3 rep invalid s)
  then show ?case using rune_len_le [of s] by simp
qed simp_all

declare to_valid.simps [simp del]

definition ToValidUTF8 :: "string \<Rightarrow> string \<Rightarrow> string" where
  "ToValidUTF8 s rep = to_valid rep False s"

section \<open>Labels\<close>

definition maxLabelValueLen :: nat where "maxLabelValueLen = 128"

definition sanitizeLabelValue :: "string \<Rightarrow> string" where
  "sanitizeLabelValue v =
     (let v = ToValidUTF8 (TrimSpace v) ''_'' in
      if v = '''' then ''_empty''
      else if length v > maxLabelValueLen then take maxLabelValueLen v else v)"

definition canonicalHTTPMethod :: "string \<Rightarrow> string" where
  "canonicalHTTPMethod m =
     (let s = ToUpper (TrimSpace m) in
      if s \<in> set [''GET'', ''HEAD'', ''POST'', ''PUT'', ''PATCH'', ''DELETE'', ''OPTIONS'', ''CONNECT'', ''TRACE''] then s
      else if s = ''POS'' then ''POST''
      else if s = ''GETT'' then ''GET''
      else if s = '''' then ''UNKNOWN'' else ''OTHER'')"

text \<open>\<open>c.Route()\<close> is nil or has a path.\<close>

definition routePath :: "string option \<Rightarrow> string" where
  "routePath route =
     (case route of
        None \<Rightarrow> ''_unmatched''
      | Some path \<Rightarrow> if path \<noteq> '''' then sanitizeLabelValue path else ''_unmatched'')"

section \<open>The HTTP middleware\<close>

type_synonym observations = "string list list"

record http_line =
  hl_Method :: string
  hl_Path :: string
  hl_Route :: "string option"

definition HTTPMiddleware ::
  "http_line \<Rightarrow> (ctx \<Rightarrow> 'w \<Rightarrow> (goerr option \<times> ctx) \<times> 'w) \<Rightarrow> ctx \<Rightarrow> 'w \<times> observations
     \<Rightarrow> (goerr option \<times> ctx) \<times> 'w \<times> observations" where
  "HTTPMiddleware l next_handler c w =
     (let method = sanitizeLabelValue (canonicalHTTPMethod (hl_Method l)) in
      case next_handler c (fst w) of
        ((err, c'), w') \<Rightarrow>
          if hl_Path l = ''/metrics'' then ((err, c'), w', snd w)
          else
            let path = routePath (hl_Route l);
                status = sanitizeLabelValue (FormatInt (resp_status c'))
            in ((err, c'), w', snd w @ [[method, status, path]]))"

section \<open>The scan metrics\<close>

record collector =
  col_Name :: string
  col_Labels :: "string list"
  col_Seen :: observations

record ScanMetrics =
  WalletScansTotal :: collector
  WalletScanDuration :: collector
  WalletScanSuccessTotal :: collector
  WalletScanErrorTotal :: collector
  TLSScansTotal :: collector
  TLSScanDuration :: collector
  TLSScanSuccessTotal :: collector
  TLSScanErrorTotal :: collector
  ScanAuthzDecisionsTotal :: collector
  WalletLifecycleTotal :: collector

definition new_vec :: "string \<Rightarrow> string list \<Rightarrow> collector" where
  "new_vec name labels = \<lparr> col_Name = name, col_Labels = labels, col_Seen = [] \<rparr>"

definition new_metrics :: ScanMetrics where
  "new_metrics =
     \<lparr> WalletScansTotal = new_vec ''cafe_discovery_wallet_scans_total'' [''scan_type''],
       WalletScanDuration = new_vec ''cafe_discovery_wallet_scan_duration_seconds'' [''scan_type''],
       WalletScanSuccessTotal = new_vec ''cafe_discovery_wallet_scan_success_total'' [''scan_type'', ''result''],
       WalletScanErrorTotal = new_vec ''cafe_discovery_wallet_scan_error_total'' [''scan_type'', ''result''],
       TLSScansTotal = new_vec ''cafe_discovery_tls_scans_total'' [''scan_type''],
       TLSScanDuration = new_vec ''cafe_discovery_tls_scan_duration_seconds'' [''scan_type''],
       TLSScanSuccessTotal = new_vec ''cafe_discovery_tls_scan_success_total'' [''scan_type'', ''result''],
       TLSScanErrorTotal = new_vec ''cafe_discovery_tls_scan_error_total'' [''scan_type'', ''result''],
       ScanAuthzDecisionsTotal = new_vec ''discovery_scan_authz_decisions_total'' [''outcome'', ''reason_code'', ''route''],
       WalletLifecycleTotal = new_vec ''cafe_discovery_wallet_lifecycle_total'' [''reason''] \<rparr>"

definition collectors :: "ScanMetrics \<Rightarrow> collector list" where
  "collectors m = [WalletScansTotal m, WalletScanDuration m, WalletScanSuccessTotal m, WalletScanErrorTotal m,
     TLSScansTotal m, TLSScanDuration m, TLSScanSuccessTotal m, TLSScanErrorTotal m, ScanAuthzDecisionsTotal m,
     WalletLifecycleTotal m]"

definition http_collectors :: "collector list" where
  "http_collectors = [new_vec ''http_requests_total'' [''method'', ''status'', ''path''],
     new_vec ''http_request_duration_seconds'' [''method'', ''status'', ''path'']]"

record metrics_state =
  ms_default :: "ScanMetrics option"
  ms_http :: bool
  ms_registry :: "string list"

text \<open>\<open>MustRegister\<close>: \<open>None\<close> is the panic on a name that is already registered.\<close>

fun registerCollectors :: "collector list \<Rightarrow> metrics_state \<Rightarrow> metrics_state option" where
  "registerCollectors [] s = Some s"
| "registerCollectors (c # cs) s =
     (if col_Name c \<in> set (ms_registry s) then None
      else registerCollectors cs (s\<lparr>ms_registry := ms_registry s @ [col_Name c]\<rparr>))"

definition initHTTPMetrics :: "metrics_state \<Rightarrow> metrics_state option" where
  "initHTTPMetrics s = (if ms_http s then Some s else registerCollectors http_collectors (s\<lparr>ms_http := True\<rparr>))"

definition metrics_Init :: "metrics_state \<Rightarrow> metrics_state option" where
  "metrics_Init s =
     (case ms_default s of
        Some _ \<Rightarrow> Some s
      | None \<Rightarrow>
          (case registerCollectors (collectors new_metrics) (s\<lparr>ms_default := Some new_metrics\<rparr>) of
             None \<Rightarrow> None
           | Some s' \<Rightarrow> initHTTPMetrics s'))"

definition metrics_Get :: "metrics_state \<Rightarrow> metrics_state option" where
  "metrics_Get s = (case ms_default s of None \<Rightarrow> metrics_Init s | Some _ \<Rightarrow> Some s)"

section \<open>Recording\<close>

definition observe :: "string list \<Rightarrow> collector \<Rightarrow> collector" where
  "observe labels c = c\<lparr>col_Seen := col_Seen c @ [labels]\<rparr>"

text \<open>A nil receiver records nothing.\<close>

definition RecordWalletLifecycle :: "string \<Rightarrow> ScanMetrics option \<Rightarrow> ScanMetrics option" where
  "RecordWalletLifecycle why m =
     map_option (\<lambda>m. m\<lparr>WalletLifecycleTotal := observe [why] (WalletLifecycleTotal m)\<rparr>) m"

definition RecordScanAuthzDecision :: "string \<Rightarrow> string \<Rightarrow> string \<Rightarrow> ScanMetrics option \<Rightarrow> ScanMetrics option" where
  "RecordScanAuthzDecision outcome reasonCode route m =
     map_option (\<lambda>m. m\<lparr>ScanAuthzDecisionsTotal := observe [outcome, reasonCode, route] (ScanAuthzDecisionsTotal m)\<rparr>) m"

definition RecordWalletScan :: "bool \<Rightarrow> ScanMetrics \<Rightarrow> ScanMetrics" where
  "RecordWalletScan success m =
     (let m = m\<lparr>WalletScansTotal := observe [''wallet''] (WalletScansTotal m),
                WalletScanDuration := observe [''wallet''] (WalletScanDuration m)\<rparr>
      in if success then m\<lparr>WalletScanSuccessTotal := observe [''wallet'', ''success''] (WalletScanSuccessTotal m)\<rparr>
         else m\<lparr>WalletScanErrorTotal := observe [''wallet'', ''failure''] (WalletScanErrorTotal m)\<rparr>)"


section \<open>Labels are valid UTF-8\<close>

lemma byte_in_take: "i < n \<Longrightarrow> n \<le> length s \<Longrightarrow> byte_in lo hi (take n s @ t) i = byte_in lo hi s i"
  by (simp add: byte_in_def nth_append)

lemma rune_len_le_4: "rune_len s = 0 \<or> rune_len s = 1 \<or> rune_len s = 2 \<or> rune_len s = 3 \<or> rune_len s = 4"
  unfolding rune_len_def by simp

lemma rune_len_iff:
  "rune_len s = 1 \<longleftrightarrow> byte_in 0 127 s 0"
  "rune_len s = 2 \<longleftrightarrow> \<not> byte_in 0 127 s 0 \<and> byte_in 194 223 s 0 \<and> byte_in 128 191 s 1"
  "rune_len s = 3 \<longleftrightarrow> \<not> byte_in 0 127 s 0 \<and> \<not> (byte_in 194 223 s 0 \<and> byte_in 128 191 s 1)
     \<and> starts_three s \<and> byte_in 128 191 s 2"
  "rune_len s = 4 \<longleftrightarrow> \<not> byte_in 0 127 s 0 \<and> \<not> (byte_in 194 223 s 0 \<and> byte_in 128 191 s 1)
     \<and> \<not> (starts_three s \<and> byte_in 128 191 s 2) \<and> starts_four s \<and> byte_in 128 191 s 2 \<and> byte_in 128 191 s 3"
  unfolding rune_len_def by (simp_all split del: if_split split: if_split)

lemma starts_take:
  assumes "2 \<le> n" "n \<le> length s"
  shows "starts_three (take n s @ t) = starts_three s" "starts_four (take n s @ t) = starts_four s"
  using byte_in_take [of 0 n s _ _ t] byte_in_take [of 1 n s _ _ t] assms
  by (simp_all add: starts_three_def starts_four_def)

lemma rune_len_take:
  assumes "rune_len s \<noteq> 0"
  shows "rune_len (take (rune_len s) s @ t) = rune_len s"
proof -
  define n where "n = rune_len s"
  have le: "n \<le> length s" using rune_len_le n_def by simp
  note b = byte_in_take [OF _ le]
  consider "rune_len s = 1" | "rune_len s = 2" | "rune_len s = 3" | "rune_len s = 4"
    using assms rune_len_le_4 [of s] by metis
  then have "rune_len (take n s @ t) = n"
  proof cases
    case 1
    then have "n = 1" by (simp add: n_def)
    with 1 b [of 0] show ?thesis by (simp add: rune_len_iff [simplified])
  next
    case 2
    then have "n = 2" by (simp add: n_def)
    with 2 b [of 0] b [of 1] show ?thesis by (simp add: rune_len_iff)
  next
    case 3
    then have "n = 3" by (simp add: n_def)
    with 3 b [of 0] b [of 1] b [of 2] starts_take [of n s t] le show ?thesis by (simp add: rune_len_iff)
  next
    case 4
    then have "n = 4" by (simp add: n_def)
    with 4 b [of 0] b [of 1] b [of 2] b [of 3] starts_take [of n s t] le show ?thesis
      by (auto simp: rune_len_iff)
  qed
  then show ?thesis by (simp add: n_def)
qed

lemma valid_utf8_Nil [simp]: "valid_utf8 []"
  by (simp add: valid_utf8.simps)

lemma valid_utf8_rune: "rune_len s \<noteq> 0 \<Longrightarrow> valid_utf8 t \<Longrightarrow> valid_utf8 (take (rune_len s) s @ t)"
  using rune_len_take [of s t] rune_len_le [of s] by (simp add: valid_utf8.simps [of "take (rune_len s) s @ t"])

lemma rune_len_ascii: "s \<noteq> [] \<Longrightarrow> byte (hd s) < 128 \<Longrightarrow> rune_len s = 1"
  by (simp add: rune_len_def byte_in_def hd_conv_nth)

lemma valid_utf8_ascii: "\<forall>c\<in>set s. byte c < 128 \<Longrightarrow> valid_utf8 s"
  by (induction s) (simp_all add: valid_utf8.simps rune_len_ascii)

lemma valid_utf8_ascii_Cons: "byte c < 128 \<Longrightarrow> valid_utf8 (c # s) = valid_utf8 s"
  by (simp add: valid_utf8.simps [of "c # s"] rune_len_ascii)

lemma to_valid_valid: "byte c < 128 \<Longrightarrow> valid_utf8 (to_valid [c] invalid s)"
proof (induction "[c]" invalid s rule: to_valid.induct)
  case (1 invalid s)
  then show ?case
    by (simp add: to_valid.simps [of _ _ s] valid_utf8_ascii_Cons valid_utf8_rune)
qed

lemma to_valid_length: "length (to_valid [c] invalid s) \<le> length s"
proof (induction "[c]" invalid s rule: to_valid.induct)
  case (1 invalid s)
  show ?case
  proof (cases "s = []")
    case False
    then obtain a r where s: "s = a # r" by (cases s) auto
    with 1 rune_len_le [of s] show ?thesis
      by (cases "rune_len s = 0") (auto simp: to_valid.simps [of _ _ "a # r"])
  qed (simp add: to_valid.simps)
qed

lemma sanitize_bounds: "sanitizeLabelValue v \<noteq> []" "length (sanitizeLabelValue v) \<le> maxLabelValueLen"
  by (simp_all add: sanitizeLabelValue_def maxLabelValueLen_def Let_def)


lemma length_TrimSpace: "length (TrimSpace s) \<le> length s"
proof -
  obtain m n where "TrimSpace s = take m (drop n s)" using TrimSpace_substring [of s] by blast
  then show ?thesis by simp
qed

lemma byte_underscore: "byte (CHR ''_'') < 128"
  by (simp add: byte_def)

lemma sanitize_valid:
  assumes "length v \<le> maxLabelValueLen"
  shows "valid_utf8 (sanitizeLabelValue v)"
proof -
  let ?v = "ToValidUTF8 (TrimSpace v) ''_''"
  have "length ?v \<le> maxLabelValueLen"
    using to_valid_length [of "CHR ''_''" False "TrimSpace v"] length_TrimSpace [of v] assms
    by (simp add: ToValidUTF8_def)
  moreover have "valid_utf8 ?v" using to_valid_valid [OF byte_underscore] by (simp add: ToValidUTF8_def)
  moreover have "valid_utf8 ''_empty''" by (rule valid_utf8_ascii) (simp add: byte_def)
  ultimately show ?thesis by (simp add: sanitizeLabelValue_def Let_def not_less)
qed

definition method_labels :: "string list" where
  "method_labels = [''GET'', ''HEAD'', ''POST'', ''PUT'', ''PATCH'', ''DELETE'', ''OPTIONS'', ''CONNECT'', ''TRACE'',
     ''UNKNOWN'', ''OTHER'']"

lemma canonicalHTTPMethod_labels: "canonicalHTTPMethod m \<in> set method_labels"
  by (simp add: canonicalHTTPMethod_def method_labels_def Let_def)


lemma to_valid_ascii: "\<forall>c\<in>set s. byte c < 128 \<Longrightarrow> to_valid rep False s = s"
  by (induction s) (simp_all add: to_valid.simps rune_len_ascii)

lemma sanitize_ascii:
  assumes "\<forall>c\<in>set s. byte c < 128"
  shows "valid_utf8 (sanitizeLabelValue s)"
proof -
  let ?t = "TrimSpace s"
  have t: "\<forall>c\<in>set ?t. byte c < 128" using assms set_TrimSpace [of s] by blast
  then have "\<forall>c\<in>set (take maxLabelValueLen ?t). byte c < 128" using set_take_subset by fast
  then have "valid_utf8 (take maxLabelValueLen ?t)" by (rule valid_utf8_ascii)
  moreover have "valid_utf8 ''_empty''" by (rule valid_utf8_ascii) (simp add: byte_def)
  ultimately show ?thesis using valid_utf8_ascii [OF t] to_valid_ascii [OF t]
    by (simp add: sanitizeLabelValue_def ToValidUTF8_def Let_def)
qed

lemma sanitize_plain:
  assumes "s \<noteq> []" "\<forall>c\<in>set s. plain_char c" "length s \<le> maxLabelValueLen"
  shows "sanitizeLabelValue s = s"
proof -
  have "TrimSpace s = s" using assms by (simp add: TrimSpace_plain)
  moreover have "to_valid rep False s = s" for rep
    by (rule to_valid_ascii) (use assms(2) in \<open>auto simp: plain_char_def\<close>)
  ultimately show ?thesis using assms by (simp add: sanitizeLabelValue_def ToValidUTF8_def Let_def)
qed

lemma method_labels_fixed: "m \<in> set method_labels \<Longrightarrow> sanitizeLabelValue m = m"
  by (rule sanitize_plain) (auto simp: method_labels_def plain_char_def byte_def maxLabelValueLen_def)


lemma FormatInt_ascii: "\<forall>c\<in>set (FormatInt i). byte c < 128"
proof -
  have "\<forall>c\<in>set (FormatUint n). byte c < 128" for n
    using FormatUint_digits [of n] by (auto simp: list_all_iff is_digit_def)
  then show ?thesis by (simp add: FormatInt_def byte_def)
qed

section \<open>What the middleware writes\<close>

definition good_label :: "string \<Rightarrow> bool" where
  "good_label v \<longleftrightarrow> v \<noteq> [] \<and> length v \<le> maxLabelValueLen \<and> valid_utf8 v"

lemma good_routePath: "(\<And>t. route = Some t \<Longrightarrow> length t \<le> maxLabelValueLen) \<Longrightarrow> good_label (routePath route)"
proof -
  assume short: "\<And>t. route = Some t \<Longrightarrow> length t \<le> maxLabelValueLen"
  have "good_label ''_unmatched''"
    using valid_utf8_ascii [of "''_unmatched''"] by (simp add: good_label_def maxLabelValueLen_def byte_def)
  with short show ?thesis
    by (cases route) (auto simp: routePath_def good_label_def sanitize_bounds sanitize_valid)
qed

text \<open>
  C36: One request through the metrics middleware adds at most one observation, and none for
  \<open>/metrics\<close>.  What it adds has the three labels of the collector; the method is one
  of eleven names whatever the client sent; every label is non-empty, at most 128 bytes
  and valid UTF-8 (Prometheus panics on another) for a route template of at most 128
  bytes; and the answer of the next handler is passed on as it is.
\<close>

theorem http_labels_typed:
  assumes "\<And>t. hl_Route l = Some t \<Longrightarrow> length t \<le> maxLabelValueLen"
    and "HTTPMiddleware l next_handler c (w, obs) = (r, w', obs')"
  shows "next_handler c w = (r, w')
    \<and> (if hl_Path l = ''/metrics'' then obs' = obs
       else \<exists>method status path. obs' = obs @ [[method, status, path]] \<and> method \<in> set method_labels
         \<and> good_label status \<and> good_label path)"
proof -
  obtain err c' w1 where n: "next_handler c w = ((err, c'), w1)" by (metis prod.exhaust)
  let ?m = "canonicalHTTPMethod (hl_Method l)"
  have "sanitizeLabelValue ?m \<in> set method_labels"
    using canonicalHTTPMethod_labels [of "hl_Method l"] method_labels_fixed [of ?m] by simp
  moreover have "good_label (routePath (hl_Route l))" using assms(1) by (rule good_routePath)
  moreover have "good_label (sanitizeLabelValue (FormatInt (resp_status c')))"
    using sanitize_ascii [OF FormatInt_ascii] by (simp add: good_label_def sanitize_bounds)
  ultimately show ?thesis using assms(2) n by (auto simp: HTTPMiddleware_def Let_def)
qed


text \<open>A cut at 128 bytes may fall inside a rune: the label of a long enough template is then no longer valid.\<close>

definition long_template :: string where
  "long_template = replicate 127 (CHR ''a'') @ [char_of (195 :: nat), char_of (169 :: nat), CHR ''a'']"


lemma to_valid_ascii_append:
  "\<forall>c\<in>set s. byte c < 128 \<Longrightarrow> s \<noteq> [] \<Longrightarrow> to_valid rep b (s @ t) = s @ to_valid rep False t"
proof (induction s arbitrary: b)
  case (Cons c s)
  then show ?case by (cases "s = []") (simp_all add: to_valid.simps [of _ _ "c # _"] rune_len_ascii)
qed simp

lemma valid_utf8_ascii_append: "\<forall>c\<in>set s. byte c < 128 \<Longrightarrow> valid_utf8 (s @ t) = valid_utf8 t"
  by (induction s) (simp_all add: valid_utf8_ascii_Cons)

lemma long_label_not_valid: "\<not> valid_utf8 (sanitizeLabelValue long_template)"
proof -
  let ?as = "replicate 127 (CHR ''a'')"
  let ?e = "[char_of (195 :: nat), char_of (169 :: nat), CHR ''a'']"
  have as: "\<forall>c\<in>set ?as. byte c < 128" by (simp add: byte_def)
  have "TrimSpace long_template = long_template"
    by (rule TrimSpace_plain) (simp_all add: long_template_def plain_char_def byte_def numeral_eq_Suc)
  moreover have "to_valid ''_'' False (?as @ ?e) = ?as @ to_valid ''_'' False ?e"
    by (rule to_valid_ascii_append [OF as]) simp
  moreover have "to_valid ''_'' False ?e = ?e"
    by (simp add: to_valid.simps rune_len_def byte_in_def byte_def)
  ultimately have "sanitizeLabelValue long_template = ?as @ [char_of (195 :: nat)]"
    by (simp add: sanitizeLabelValue_def ToValidUTF8_def long_template_def maxLabelValueLen_def)
  moreover have "\<not> valid_utf8 [char_of (195 :: nat)]"
    by (simp add: valid_utf8.simps rune_len_def starts_three_def starts_four_def byte_in_def byte_def)
  ultimately show ?thesis using valid_utf8_ascii_append [OF as] by simp
qed

section \<open>Registration\<close>

lemma registerCollectors_ok:
  "distinct (map col_Name cs) \<Longrightarrow> set (map col_Name cs) \<inter> set (ms_registry s) = {}
     \<Longrightarrow> registerCollectors cs s = Some (s\<lparr>ms_registry := ms_registry s @ map col_Name cs\<rparr>)"
  by (induction cs s rule: registerCollectors.induct) auto

definition no_metrics :: metrics_state where
  "no_metrics = \<lparr> ms_default = None, ms_http = False, ms_registry = [] \<rparr>"

definition identity_labels :: "string list" where
  "identity_labels = [''user_id'', ''tenant_id'', ''scan_id'', ''request_id'', ''address'']"

lemma new_metrics_anonymous: "\<forall>c\<in>set (collectors new_metrics). set (col_Labels c) \<inter> set identity_labels = {}"
  by (simp add: collectors_def new_metrics_def new_vec_def identity_labels_def)

lemma metrics_Init_ok:
  "metrics_Init no_metrics = Some \<lparr> ms_default = Some new_metrics, ms_http = True,
     ms_registry = map col_Name (collectors new_metrics @ http_collectors) \<rparr>"
proof -
  have "registerCollectors (collectors new_metrics) (no_metrics\<lparr>ms_default := Some new_metrics\<rparr>)
      = Some (no_metrics\<lparr>ms_default := Some new_metrics, ms_registry := map col_Name (collectors new_metrics)\<rparr>)"
    by (subst registerCollectors_ok) (simp_all add: no_metrics_def collectors_def new_metrics_def new_vec_def)
  then show ?thesis
    by (simp add: metrics_Init_def initHTTPMetrics_def registerCollectors_ok no_metrics_def collectors_def new_metrics_def
        http_collectors_def new_vec_def)
qed

text \<open>Once initialised, \<open>Init\<close> and \<open>Get\<close> change nothing: neither panics on a second call.\<close>

lemma metrics_Init_once:
  "metrics_Init s = Some s' \<Longrightarrow> ms_default s' \<noteq> None \<Longrightarrow> metrics_Init s' = Some s' \<and> metrics_Get s' = Some s'"
  by (auto simp: metrics_Init_def metrics_Get_def)

lemma RecordWalletScan_counts:
  "length (col_Seen (WalletScansTotal (RecordWalletScan b m))) = Suc (length (col_Seen (WalletScansTotal m)))"
  "length (col_Seen (WalletScanSuccessTotal (RecordWalletScan b m))) + length (col_Seen (WalletScanErrorTotal (RecordWalletScan b m)))
     = Suc (length (col_Seen (WalletScanSuccessTotal m)) + length (col_Seen (WalletScanErrorTotal m)))"
  by (simp_all add: RecordWalletScan_def observe_def Let_def)

section \<open>Example\<close>

definition ex_line :: http_line where
  "ex_line = \<lparr> hl_Method = ''GET'', hl_Path = ''/x'', hl_Route = Some ''/x'' \<rparr>"

definition ex_metrics_ctx :: ctx where
  "ex_metrics_ctx = \<lparr> req_Get = (\<lambda>_. ''''), req_Params = (\<lambda>_. ''''), req_Query = (\<lambda>_. ''''), req_QueryInt = (\<lambda>_ d. d),
     req_QueryKeys = [], loc_user_id = None, loc_user_email = None, resp_status = 200, resp_body = None,
     resp_headers = [] \<rparr>"

theorem http_labels_typed_witness:
  "\<exists>r w' method status path.
     HTTPMiddleware ex_line (\<lambda>c w. ((None, c), w)) ex_metrics_ctx ((), []) = (r, w', [[method, status, path]])
     \<and> method \<in> set method_labels \<and> good_label status \<and> good_label path"
proof -
  obtain r w' obs where h: "HTTPMiddleware ex_line (\<lambda>c w. ((None, c), w)) ex_metrics_ctx ((), []) = (r, w', obs)"
    by (metis prod.exhaust)
  have "\<And>t. hl_Route ex_line = Some t \<Longrightarrow> length t \<le> maxLabelValueLen"
    by (simp add: ex_line_def maxLabelValueLen_def)
  from http_labels_typed [OF this h] h show ?thesis by (auto simp: ex_line_def)
qed

end
