(* ===== verification/Service_Container.thy ===== *)
theory Service_Container
  imports Boot_Sequence Auth_Service Routes Metrics
begin

text \<open>
  The container of the service, \<open>NewContainer\<close> of \<open>src/internal/app/container.go\<close>: the order in
  which the service connects, migrates, builds its parts, registers its routes and
  waits for the others, with the error of every step.

  The arguments are the parts outside the repository (\<open>container_env\<close>), the state of the
  metrics package and the database; the result is the container with the database and
  the metrics after it.  No result (\<open>None\<close>) is a panic of the metrics registry or a wait
  that the fuel does not cover.  The sizes of Fiber's buffers and the repositories, which
  only hold the connection, are left out; the background loops that it starts are \<open>Scan_Abandon\<close>
  and \<open>Wallet_Lifecycle\<close>.
\<close>

section \<open>The container\<close>

record 'r container_env =
  ce_viper :: viper
  ce_gorm_Open :: "string \<Rightarrow> unit result"
  ce_nats :: "(unit, unit) nats_driver"
  ce_redis :: "unit redis_driver"
  ce_migration :: migration_env
  ce_auth :: auth_pkg
  ce_Subscribe :: "string \<Rightarrow> goerr option"
  ce_SubjectPresence :: string
  ce_SubjectHeartbeatTLS :: string
  ce_SubjectHeartbeatWallet :: string
  ce_SubjectPersistenceReady :: string
  ce_SubjectScanReady :: string
  ce_ready_Decode :: "string \<Rightarrow> unit result"
  ce_ready_msgs :: "(bool \<times> string) list"
  ce_tracker :: "'r ScannerPresenceTracker"
  ce_tracker_later :: "'r ScannerPresenceTracker list"
  ce_boot :: "'r boot_env"
  ce_cache :: 'r

record services =
  sv_AuthService :: AuthService
  sv_scanClient :: http_client
  sv_policyRef :: http_client
  sv_scanAuthzEnabled :: bool
  sv_scanAuthzServiceToken :: string

record Container =
  ct_services :: services
  ct_DB :: "unit postgreSQLConnection"
  ct_NATSConn :: "(unit, unit) natsConnection"
  ct_AllowOrigins :: "string list"
  ct_AllowMethods :: "string list"
  ct_App :: "registration list"
  ct_requested :: "tls_request list"
  ct_warnings :: "string list"

definition open_connections :: "'r container_env \<Rightarrow> (unit postgreSQLConnection \<times> (unit, unit) natsConnection) result" where
  "open_connections E =
     (case Run (ce_gorm_Open E) (postgres_New (ce_viper E)) of
        ((Some err, _), _) \<Rightarrow> Inl (ErrWrap ''failed to initialize PostgreSQL database'' err)
      | ((None, _), db) \<Rightarrow>
          rbind (wrap_err ''failed to initialize NATS'' (nats_New (ce_nats E) (ce_viper E))) (\<lambda>natsConn.
          rbind (wrap_err ''failed to initialize Redis'' (redis_New (ce_redis E) (ce_viper E))) (\<lambda>_.
          Inr (db, natsConn))))"

text \<open>The subscriptions of the presence tracker; Redis is always given here.\<close>

definition presence_subscriptions :: "'r container_env \<Rightarrow> goerr option" where
  "presence_subscriptions E =
     (case ce_Subscribe E (ce_SubjectPresence E) of
        Some err \<Rightarrow> Some err
      | None \<Rightarrow>
          (case ce_Subscribe E (ce_SubjectHeartbeatTLS E) of
             Some err \<Rightarrow> Some err
           | None \<Rightarrow> ce_Subscribe E (ce_SubjectHeartbeatWallet E)))"

definition build_services :: "'r container_env \<Rightarrow> services result" where
  "build_services E =
     (let V = ce_viper E; jwtSecret = vp_GetString V JWTSecret in
      if jwtSecret = '''' then Inl (ErrNew ''JWT_SECRET not set in config file or environment variable'')
      else
        rbind (wrap_err ''failed to initialize auth service'' (NewAuthService (ce_auth E) jwtSecret (seconds (24 * 3600)))) (\<lambda>authService.
        case presence_subscriptions E of
          Some err \<Rightarrow> Inl (ErrWrap ''failed to create scanner presence tracker'' err)
        | None \<Rightarrow>
            rbind (newScanPersistenceClient V) (\<lambda>scanClient.
            rbind (newPolicyReferenceChecker V) (\<lambda>policyRef.
            Inr \<lparr> sv_AuthService = authService, sv_scanClient = scanClient, sv_policyRef = policyRef,
                  sv_scanAuthzEnabled = vp_GetBool V DiscoveryInternalAuthzEnabled,
                  sv_scanAuthzServiceToken = vp_GetString V DiscoveryInternalAuthzServiceToken \<rparr>))))"

definition warn :: "bool \<Rightarrow> string \<Rightarrow> string list" where
  "warn b w = (if b then [w] else [])"

text \<open>The warnings are shortened; the hint at the end of \<open>persistence not ready\<close> is left out.\<close>

definition NewContainer ::
  "'r container_env \<Rightarrow> nat \<Rightarrow> metrics_state \<Rightarrow> db \<Rightarrow> (Container result \<times> metrics_state \<times> db) option" where
  "NewContainer E fuel m d =
     (case open_connections E of
        Inl err \<Rightarrow> Some (Inl err, m, d)
      | Inr (db, natsConn) \<Rightarrow>
     (case runMigrations (ce_migration E) d of
        (Some err, d') \<Rightarrow> Some (Inl (ErrWrap ''failed to run migrations'' err), m, d')
      | (None, d') \<Rightarrow>
     (case build_services E of
        Inl err \<Rightarrow> Some (Inl err, m, d')
      | Inr sv \<Rightarrow>
     (case metrics_Init m of
        None \<Rightarrow> None
      | Some m' \<Rightarrow>
     (case WaitForPersistence (ce_Subscribe E (ce_SubjectPersistenceReady E)) (ce_ready_Decode E) (ce_ready_msgs E) of
        Some err \<Rightarrow> Some (Inl (ErrWrap ''persistence not ready'' err), m', d')
      | None \<Rightarrow>
     (case InitializeDefaultEndpointsSync (ce_boot E) fuel (ce_cache E) of
        None \<Rightarrow> None
      | Some (requested, _, _) \<Rightarrow>
          Some (Inr \<lparr> ct_services = sv, ct_DB = db, ct_NATSConn = natsConn,
            ct_AllowOrigins = splitCSV (vp_GetString (ce_viper E) CORSAllowOrigins),
            ct_AllowMethods = splitCSV (vp_GetString (ce_viper E) CORSAllowMethods),
            ct_App = setupRoutes, ct_requested = requested,
            ct_warnings =
              warn (sv_scanAuthzEnabled sv \<and> sv_scanAuthzServiceToken sv = '''') ''internal endpoint without a service token''
              @ warn (WaitForScanners (ce_tracker E) (ce_tracker_later E) \<noteq> None) ''scanners not ready in time''
              @ warn (ce_Subscribe E (ce_SubjectScanReady E) \<noteq> None) ''subscribe scan.ready failed'' \<rparr>, m', d')))))))"

section \<open>What a container stands on\<close>

lemma NewContainer_Inr:
  assumes "NewContainer E fuel m d = Some (Inr c, m', d')"
  shows "(\<exists>db nc. open_connections E = Inr (db, nc)) \<and> runMigrations (ce_migration E) d = (None, d')
    \<and> build_services E = Inr (ct_services c) \<and> metrics_Init m = Some m' \<and> ct_App c = setupRoutes
    \<and> WaitForPersistence (ce_Subscribe E (ce_SubjectPersistenceReady E)) (ce_ready_Decode E) (ce_ready_msgs E) = None"
  using assms by (auto simp: NewContainer_def split: sum.splits option.splits prod.splits)

lemma build_services_Inr:
  assumes "build_services E = Inr sv"
  shows "vp_GetString (ce_viper E) JWTSecret \<noteq> ''''
    \<and> NewAuthService (ce_auth E) (vp_GetString (ce_viper E) JWTSecret) (seconds (24 * 3600)) = Inr (sv_AuthService sv)
    \<and> newScanPersistenceClient (ce_viper E) = Inr (sv_scanClient sv)
    \<and> newPolicyReferenceChecker (ce_viper E) = Inr (sv_policyRef sv)"
  using assms by (auto simp: build_services_def Let_def rbind_eq_Inr_iff split: if_splits option.splits)

lemma scan_tables_present:
  "ensureScanTablesPresent hasTable = None \<longleftrightarrow> (\<forall>t \<in> set scanTablesOwnedByPersistence. hasTable t)"
proof -
  have "missing_table hasTable ts = None \<longleftrightarrow> (\<forall>t \<in> set ts. hasTable t)" for ts
    by (induction ts) simp_all
  then show ?thesis by (simp add: ensureScanTablesPresent_def)
qed

lemma runMigrations_tables: "runMigrations M d = (None, d') \<Longrightarrow> ensureScanTablesPresent (me_HasTable M) = None"
  by (auto simp: runMigrations_def split: option.splits prod.splits sum.splits)

lemma client_token: "newScanPersistenceClient V = Inr c \<Longrightarrow> cl_token (ht_Client c) \<noteq> ''''"
  "newPolicyReferenceChecker V = Inr c \<Longrightarrow> cl_token (ht_Client c) \<noteq> ''''"
  by (auto simp: newScanPersistenceClient_def newPolicyReferenceChecker_def loadPersistenceHTTPConfig_def NewClient_def cp_NewClient_def Let_def
      rbind_eq_Inr_iff split: if_splits)

text \<open>With an active free plan, a valid registration with an unused address goes through.\<close>

definition signup_form :: "auth_env \<Rightarrow> SignupRequest \<Rightarrow> db \<Rightarrow> bool" where
  "signup_form A req d \<longleftrightarrow>
     verifyTurnstileToken (ae_turnstile A) (su_TurnstileToken req) = None
     \<and> su_Password req = su_ConfirmPassword req \<and> su_Email req \<noteq> '''' \<and> 6 \<le> length (su_Password req)
     \<and> \<not> isl (ae_Generate A (ae_salt A) (su_Password req))
     \<and> su_Email req \<notin> user_Email ` set (db_users d) \<and> ae_fresh A \<notin> user_ID ` set (db_users d)"

definition signup_valid :: "auth_env \<Rightarrow> AuthService \<Rightarrow> SignupRequest \<Rightarrow> db \<Rightarrow> bool" where
  "signup_valid A s req d \<longleftrightarrow> signup_form A req d
     \<and> \<not> isl (generateToken (ae_pkg A) (ae_rnd A) s (Auth_Service.ae_now A) (ae_fresh A) (su_Email req))"

lemma Signup_form:
  assumes "db_faults d = []" and "active_plans PlanTypeFree d \<noteq> []" and "signup_form A req d"
  shows "\<exists>r. user_ID r = ae_fresh A \<and> user_Email r = su_Email req
    \<and> Signup A s req d =
        (rbind (wrap_err ''failed to generate token''
            (generateToken (ae_pkg A) (ae_rnd A) s (Auth_Service.ae_now A) (ae_fresh A) (su_Email req)))
           (\<lambda>tok. Inr \<lparr> ar_Token = tok, ar_User = r \<rparr>), d\<lparr>db_users := db_users d @ [r]\<rparr>)"
proof -
  obtain h where h: "ae_Generate A (ae_salt A) (su_Password req) = Inr h"
    using assms(3) by (cases "ae_Generate A (ae_salt A) (su_Password req)") (simp_all add: signup_form_def)
  obtain p where p: "Plan_FindByType PlanTypeFree d = (Inr (Some p), d)"
  proof -
    have "first_of (sort_key (\<lambda>p. uint (plan_ID p)) (active_plans PlanTypeFree d)) \<noteq> None"
      using assms(2) by (metis first_of_None set_empty set_sort)
    then obtain p where "first_of (sort_key (\<lambda>p. uint (plan_ID p)) (active_plans PlanTypeFree d)) = Some p" by blast
    with assms(1) show ?thesis by (intro that [of p]) (simp add: FindByType_calm)
  qed
  have e: "filter (\<lambda>u. user_Email u = su_Email req) (live_users d) = []"
  proof -
    have "su_Email req \<notin> user_Email ` set (db_users d)" using assms(3) by (simp add: signup_form_def)
    then have "user_Email u \<noteq> su_Email req" if "u \<in> set (db_users d)" for u using that by (metis imageI)
    then show ?thesis by (simp add: live_users_def filter_empty_conv)
  qed
  have len: "su_Password req \<noteq> ''''" "\<not> length (su_Password req) < 6" using assms(3) by (auto simp: signup_form_def)
  let ?u = "\<lparr> user_ID = uuid_Nil, user_Email = su_Email req, user_Password = h, user_PlanID = plan_ID p,
              user_CreatedAt = 0, user_UpdatedAt = 0, user_DeletedAt = None \<rparr>"
  let ?r = "user_row (ae_fresh A) (ae_created A) ?u"
  have r: "user_ID ?r = ae_fresh A" "user_Email ?r = su_Email req"
    by (simp_all add: user_row_def User_BeforeCreate_def Let_def)
  have c: "User_Create (ae_fresh A) (ae_created A) ?u d = (Inr ?r, d\<lparr>db_users := db_users d @ [?r]\<rparr>)"
    using assms(1,3) r by (simp add: User_Create_def Let_def dbind_def sql_change_def dreturn_def signup_form_def)
  have "Signup A s req d =
      (rbind (wrap_err ''failed to generate token''
          (generateToken (ae_pkg A) (ae_rnd A) s (Auth_Service.ae_now A) (ae_fresh A) (su_Email req)))
         (\<lambda>tok. Inr \<lparr> ar_Token = tok, ar_User = ?r \<rparr>), d\<lparr>db_users := db_users d @ [?r]\<rparr>)"
    using assms(1,3) len e h p c r
    by (simp add: Signup_def signup_form_def dlift_def dbind_def wrap_stm_def wrap_err_def dreturn_def rbind_def Let_def split: sum.split)
  with r show ?thesis by blast
qed

lemma Signup_live:
  assumes "db_faults d = []" and "active_plans PlanTypeFree d \<noteq> []" and "signup_valid A s req d"
  shows "\<exists>resp d'. Signup A s req d = (Inr resp, d')"
proof -
  have f: "signup_form A req d" using assms(3) by (simp add: signup_valid_def)
  obtain tok where "generateToken (ae_pkg A) (ae_rnd A) s (Auth_Service.ae_now A) (ae_fresh A) (su_Email req) = Inr tok"
    using assms(3) by (cases "generateToken (ae_pkg A) (ae_rnd A) s (Auth_Service.ae_now A) (ae_fresh A) (su_Email req)")
      (simp_all add: signup_valid_def)
  with Signup_form [OF assms(1,2) f, of s] show ?thesis by auto
qed

section \<open>Properties\<close>

text \<open>
  C27: a service that starts can serve. When \<open>NewContainer\<close> answers a container, on a
  reachable database in which no plan has the nil identifier: the tables of the scans
  exist, the persistence service has announced itself, the two persistence clients
  carry a token, the signing keys are there, the routes are those of \<open>setupRoutes\<close>, and
  every valid registration with an unused address goes through on the database as the
  start left it.
\<close>

theorem container_ready:
  assumes "db_faults d = []" and "\<forall>p\<in>set (db_plans d). plan_ID p \<noteq> uuid_Nil" and "me_fresh1 (ce_migration E) \<noteq> uuid_Nil"
    and "NewContainer E fuel m d = Some (Inr c, m', d')"
  shows "(\<forall>t \<in> set scanTablesOwnedByPersistence. me_HasTable (ce_migration E) t)
    \<and> (\<exists>data. (True, data) \<in> set (ce_ready_msgs E) \<and> \<not> isl (ce_ready_Decode E data))
    \<and> cl_token (ht_Client (sv_scanClient (ct_services c))) \<noteq> '''' \<and> cl_token (ht_Client (sv_policyRef (ct_services c))) \<noteq> ''''
    \<and> as_keys (sv_AuthService (ct_services c)) \<noteq> None \<and> ct_App c = setupRoutes
    \<and> (\<forall>A req. signup_valid A (sv_AuthService (ct_services c)) req d' \<longrightarrow>
         (\<exists>resp d''. Signup A (sv_AuthService (ct_services c)) req d' = (Inr resp, d'')))"
proof -
  note n = NewContainer_Inr [OF assms(4)]
  have b: "build_services E = Inr (ct_services c)" and r: "runMigrations (ce_migration E) d = (None, d')" using n by simp_all
  note s = build_services_Inr [OF b]
  have f: "active_plans PlanTypeFree d' \<noteq> []" and e: "\<exists>ps us. d' = d\<lparr>db_plans := ps, db_users := us\<rparr>"
    using migrations_calm [OF assms(1-3) r] by blast+
  have d: "db_faults d' = []" using e assms(1) by auto
  have k: "as_keys (sv_AuthService (ct_services c)) \<noteq> None"
    using s keys_shape [of "ce_auth E"] by blast
  have w: "\<exists>data. (True, data) \<in> set (ce_ready_msgs E) \<and> \<not> isl (ce_ready_Decode E data)"
    using n by (simp add: WaitForPersistence_iff)
  have t: "\<forall>t \<in> set scanTablesOwnedByPersistence. me_HasTable (ce_migration E) t"
    using runMigrations_tables [OF r] by (simp add: scan_tables_present)
  have "cl_token (ht_Client (sv_scanClient (ct_services c))) \<noteq> []" "cl_token (ht_Client (sv_policyRef (ct_services c))) \<noteq> []"
    using s client_token by blast+
  with n k w t Signup_live [OF d f] show ?thesis by simp
qed


definition ex_container_env :: "(string \<times> string) list container_env" where
  "ex_container_env =
     \<lparr> ce_viper = ex_viper, ce_gorm_Open = (\<lambda>_. Inr ()), ce_nats = ex_nats,
       ce_redis = \<lparr> rd_ParseURL = Inr, rd_NewClient = (\<lambda>_. ()), rd_Ping = (\<lambda>_. None) \<rparr>,
       ce_migration = ex_migration, ce_auth = ex_auth (\<lambda>_. True), ce_Subscribe = (\<lambda>_. None),
       ce_SubjectPresence = ''p'', ce_SubjectHeartbeatTLS = ''t'', ce_SubjectHeartbeatWallet = ''w'',
       ce_SubjectPersistenceReady = ''r'', ce_SubjectScanReady = ''s'', ce_ready_Decode = (\<lambda>_. Inr ()),
       ce_ready_msgs = [(True, '''')], ce_tracker = NewScannerPresenceTracker None [], ce_tracker_later = [],
       ce_boot = ex_boot, ce_cache = [] \<rparr>"

lemma ex_services: "\<exists>sv. build_services ex_container_env = Inr sv \<and> as_keys (sv_AuthService sv) = Some ex_keys"
proof -
  have k: "vp_GetString ex_viper JWTSecret = ''s''" "vp_GetString ex_viper DiscoveryPersistenceURL = ''http://p/''"
    "vp_GetString ex_viper CafePersistenceServiceToken = ''tok''"
    by code_simp+
  have t: "TrimSpace ''http://p/'' \<noteq> ''''" "TrimSpace ''tok'' \<noteq> ''''" by code_simp+
  have "NewAuthService (ex_auth (\<lambda>_. True)) ''s'' (seconds 86400)
      = Inr \<lparr> as_jwtSecret = ''s'', as_jwtExpiry = seconds 86400, as_keys = Some ex_keys \<rparr>"
    by (simp add: NewAuthService_def newServerKeys_def NewMLDSA_def ex_auth_def ex_keys_def)
  with k t show ?thesis
    by (simp add: build_services_def ex_container_env_def presence_subscriptions_def newScanPersistenceClient_def
        newPolicyReferenceChecker_def loadPersistenceHTTPConfig_def Let_def)
qed


lemma ex_signup_valid:
  assumes "as_keys s = Some ex_keys" and "db_users d = []"
  shows "signup_valid ex_auth_env s ex_signup d"
proof -
  obtain tok where "generateToken (ae_pkg ex_auth_env) (ae_rnd ex_auth_env) s (Auth_Service.ae_now ex_auth_env)
      (ae_fresh ex_auth_env) (su_Email ex_signup) = Inr tok"
    using ex_token_keys [OF assms(1), of "\<lambda>_. True" "Auth_Service.ae_now ex_auth_env" "ae_fresh ex_auth_env"
        "su_Email ex_signup" "ae_rnd ex_auth_env"]
    by (auto simp: ex_auth_env_def)
  then show ?thesis
    using assms(2) by (simp add: signup_valid_def signup_form_def) (simp add: ex_auth_env_def ex_signup_def verifyTurnstileToken_def)
qed

lemma ex_container_starts:
  "\<exists>c m' d'. NewContainer ex_container_env 91 no_metrics ex_empty_db = Some (Inr c, m', d')
     \<and> as_keys (sv_AuthService (ct_services c)) = Some ex_keys \<and> db_users d' = []"
proof -
  have f: "db_faults ex_empty_db = []" and p: "\<forall>p\<in>set (db_plans ex_empty_db). plan_ID p \<noteq> uuid_Nil"
    and n: "me_fresh1 (ce_migration ex_container_env) \<noteq> uuid_Nil"
    by (simp_all add: ex_empty_db_def ex_container_env_def ex_migration_def)
  have "fst (runMigrations ex_migration ex_empty_db) = None" by code_simp
  then obtain d' where r: "runMigrations (ce_migration ex_container_env) ex_empty_db = (None, d')"
    by (metis prod.collapse container_env.select_convs(5) ex_container_env_def)
  have u: "db_users d' = []" using migrations_calm [OF f p n r] by (auto simp: ex_empty_db_def)
  obtain db nc where o': "open_connections ex_container_env = Inr (db, nc)"
    by (simp add: open_connections_def Run_def ex_container_env_def nats_New_def redis_New_def ex_nats_def Let_def)
  obtain sv where sv: "build_services ex_container_env = Inr sv" "as_keys (sv_AuthService sv) = Some ex_keys"
    using ex_services by blast
  have c: "be_clock ex_boot k \<ge> be_clock ex_boot 0 + int k * defaultEndpointsPollInterval" for k
    by (simp add: ex_boot_def defaultEndpointsPollInterval_def)
  obtain q where i: "InitializeDefaultEndpointsSync (ce_boot ex_container_env) 91 (ce_cache ex_container_env) = Some q"
    using InitializeDefaultEndpointsSync_ends [OF c, of 91 "[]"] by (auto simp: ex_container_env_def)
  have w: "WaitForPersistence (ce_Subscribe ex_container_env (ce_SubjectPersistenceReady ex_container_env))
      (ce_ready_Decode ex_container_env) (ce_ready_msgs ex_container_env) = None"
    by (simp add: WaitForPersistence_def ex_container_env_def)
  obtain ct m' where "NewContainer ex_container_env 91 no_metrics ex_empty_db = Some (Inr ct, m', d')" and "ct_services ct = sv"
    using r o' sv(1) i w metrics_Init_ok by (cases q) (simp add: NewContainer_def)
  with sv(2) u show ?thesis by blast
qed

theorem container_ready_witness:
  "\<exists>c m' d' resp d''. NewContainer ex_container_env 91 no_metrics ex_empty_db = Some (Inr c, m', d')
     \<and> ct_App c = setupRoutes \<and> Signup ex_auth_env (sv_AuthService (ct_services c)) ex_signup d' = (Inr resp, d'')"
proof -
  have f: "db_faults ex_empty_db = []" and p: "\<forall>p\<in>set (db_plans ex_empty_db). plan_ID p \<noteq> uuid_Nil"
    and n: "me_fresh1 (ce_migration ex_container_env) \<noteq> uuid_Nil"
    by (simp_all add: ex_empty_db_def ex_container_env_def ex_migration_def)
  obtain c m' d' where x: "NewContainer ex_container_env 91 no_metrics ex_empty_db = Some (Inr c, m', d')"
    and k: "as_keys (sv_AuthService (ct_services c)) = Some ex_keys" "db_users d' = []"
    using ex_container_starts by blast
  from container_ready [OF f p n x] x ex_signup_valid [OF k] show ?thesis by blast
qed

end
