(* ===== verification/Request_Path.thy ===== *)
theory Request_Path
  imports Service_Container
begin

text \<open>
  The way of a request through the application that \<open>NewContainer\<close> of
  \<open>src/internal/app/container.go\<close> puts together: the metrics middleware, the routes in
  their order with the two middlewares of the groups, and the handlers.

  \<open>serve\<close> is how Fiber walks the registrations: a middleware is called with the rest of
  the walk as its next handler.  The handlers and the answer for a path without a route
  are arguments, and the results hold whatever they do.  A request that the CORS
  middleware answers itself (a preflight) does not come this far.
\<close>

section \<open>Walking the routes\<close>

fun serve ::
  "fiber \<Rightarrow> (route_guard \<Rightarrow> 'w handler \<Rightarrow> 'w handler) \<Rightarrow> (ctx \<Rightarrow> goerr option \<times> ctx) \<Rightarrow> (route_endpoint \<Rightarrow> 'w handler)
     \<Rightarrow> string \<Rightarrow> string \<Rightarrow> registration list \<Rightarrow> 'w handler" where
  "serve F G not_found H m path [] c w = (not_found c, w)"
| "serve F G not_found H m path (Use p g # rs) c w =
     (if use_match F p path then G g (serve F G not_found H m path rs) c w
      else serve F G not_found H m path rs c w)"
| "serve F G not_found H m path (Handle m' p e # rs) c w =
     (if takes m m' \<and> route_match F p path then H e c w
      else serve F G not_found H m path rs c w)"

text \<open>A request ends in one handler, whose guard the context has passed, or in a refusal.\<close>

definition outcome ::
  "(route_guard \<Rightarrow> 'w handler \<Rightarrow> 'w handler) \<Rightarrow> (route_guard \<Rightarrow> ctx \<Rightarrow> bool) \<Rightarrow> fiber \<Rightarrow> (ctx \<Rightarrow> goerr option \<times> ctx) \<Rightarrow> string \<Rightarrow> string \<Rightarrow> registration list \<Rightarrow> ctx \<Rightarrow> bool" where
  "outcome guard passed F not_found m path rs c \<longleftrightarrow>
     (\<exists>e c'. (\<forall>H w. serve F guard not_found H m path rs c w = H e c' w) \<and> (\<forall>g. needed e = Some g \<longrightarrow> passed g c'))
   \<or> (\<exists>r. (\<forall>H w. serve F guard not_found H m path rs c w = (r, w)) \<and> (resp_status (snd r) = 401 \<or> (\<exists>c'. r = not_found c')))"

text \<open>
  What the routes need of a middleware: it refuses with 401 and leaves the world alone,
  or it calls the next handler with a context that has passed it, and that keeps what
  the context passed before.
\<close>

locale guarded_router =
  fixes guard :: "route_guard \<Rightarrow> 'w handler \<Rightarrow> 'w handler"
    and passed :: "route_guard \<Rightarrow> ctx \<Rightarrow> bool"
  assumes guard_cases:
    "(\<exists>r. (\<forall>h w. guard g h c w = (r, w)) \<and> resp_status (snd r) = 401)
     \<or> (\<exists>c'. (\<forall>h w. guard g h c w = h c' w) \<and> passed g c' \<and> (\<forall>g'. passed g' c \<longrightarrow> passed g' c'))"
begin

lemma outcome_Use:
  assumes "use_match F p path"
    and "\<And>c'. passed g c' \<Longrightarrow> (\<And>g'. passed g' c \<Longrightarrow> passed g' c') \<Longrightarrow> outcome guard passed F not_found m path rs c'"
  shows "outcome guard passed F not_found m path (Use p g # rs) c"
  using guard_cases [of g c]
proof (elim disjE exE conjE)
  fix r assume "\<forall>h w. guard g h c w = (r, w)" "resp_status (snd r) = 401"
  then show ?thesis using assms(1) by (auto simp: outcome_def)
next
  fix c' assume n: "\<forall>h w. guard g h c w = h c' w" "passed g c'" "\<forall>g'. passed g' c \<longrightarrow> passed g' c'"
  then have "outcome guard passed F not_found m path rs c'" using assms(2) by blast
  then show ?thesis using n(1) assms(1) by (simp add: outcome_def)
qed

lemma routes_outcome:
  assumes "fiber_ok F"
  shows "guards_ok used rs \<Longrightarrow> (\<And>q g. (q, g) \<in> set used \<Longrightarrow> use_match F q path \<Longrightarrow> passed g c)
    \<Longrightarrow> outcome guard passed F not_found m path rs c"
proof (induction used rs arbitrary: c rule: guards_ok.induct)
  case (1 used)
  then show ?case by (auto simp: outcome_def)
next
  case (2 used p g rs)
  show ?case
  proof (cases "use_match F p path")
    case True
    show ?thesis
    proof (rule outcome_Use [OF True])
      fix c' assume "passed g c'" and k: "\<And>g'. passed g' c \<Longrightarrow> passed g' c'"
      then show "outcome guard passed F not_found m path rs c'"
        using 2(2,3) by (intro 2(1)) auto
    qed
  next
    case False
    then have "outcome guard passed F not_found m path rs c" using 2(2,3) by (intro 2(1)) auto
    with False show ?thesis by (simp add: outcome_def)
  qed
next
  case (3 used m' p e rs)
  show ?case
  proof (cases "takes m m' \<and> route_match F p path")
    case True
    have "passed g c" if n: "needed e = Some g" for g
    proof -
      obtain q where "(q, g) \<in> set used" "covers q p" using 3(2) n by (auto simp: list_ex_iff)
      with 3(3) True covered_match [OF assms] show ?thesis by blast
    qed
    with True show ?thesis by (auto simp: outcome_def)
  next
    case False
    have g: "guards_ok used rs" using 3(2) by simp
    have "outcome guard passed F not_found m path rs c" by (rule 3(1) [OF g 3(3)])
    moreover have "serve F guard not_found H m path (Handle m' p e # rs) c w = serve F guard not_found H m path rs c w" for H w
      using False by (simp only: serve.simps if_False)
    ultimately show ?thesis by (simp only: outcome_def)
  qed
qed

end

section \<open>The middlewares of the application\<close>

definition app_guard ::
  "auth_pkg \<Rightarrow> AuthService \<Rightarrow> go_time \<Rightarrow> string option \<Rightarrow> string \<Rightarrow> route_guard \<Rightarrow> 'w handler \<Rightarrow> 'w handler" where
  "app_guard K s now rnd token g =
     (case g of
        GuardJWT \<Rightarrow> JWTMiddleware (session_of K s now)
      | GuardService \<Rightarrow> InternalServiceAuth rnd \<lparr> cfg_ExpectedToken = token, cfg_OnReject = None \<rparr>)"

text \<open>Having passed: a valid token names the user of the context; the service token was presented.\<close>

definition signed_in :: "auth_pkg \<Rightarrow> AuthService \<Rightarrow> go_time \<Rightarrow> ctx \<Rightarrow> bool" where
  "signed_in K s now c \<longleftrightarrow>
     (\<exists>tok cl. Split (req_Get c ''Authorization'') CHR '' '' = [''Bearer'', tok] \<and> ValidateToken K s now tok = Inr cl
        \<and> jc_UserID cl \<noteq> uuid_Nil \<and> getAuthenticatedUserID c = (jc_UserID cl, None, c))"

definition service_call :: "string \<Rightarrow> ctx \<Rightarrow> bool" where
  "service_call token c \<longleftrightarrow> TrimSpace token \<noteq> ''''
     \<and> TrimSpace (drop 7 (TrimSpace (req_Get c ''Authorization''))) = TrimSpace token"

definition app_passed :: "auth_pkg \<Rightarrow> AuthService \<Rightarrow> go_time \<Rightarrow> string \<Rightarrow> route_guard \<Rightarrow> ctx \<Rightarrow> bool" where
  "app_passed K s now token g c = (case g of GuardJWT \<Rightarrow> signed_in K s now c | GuardService \<Rightarrow> service_call token c)"

lemma jwt_guard:
  "(\<exists>r. (\<forall>(h :: 'w handler) w. JWTMiddleware (session_of K s now) h c w = (r, w)) \<and> resp_status (snd r) = 401)
   \<or> (\<exists>c'. (\<forall>(h :: 'w handler) w. JWTMiddleware (session_of K s now) h c w = h c' w)
        \<and> signed_in K s now c' \<and> req_Get c' = req_Get c)"
  using jwt_middleware_cases [where v = "session_of K s now" and c = c and 'w = 'w]
proof (elim disjE exE conjE)
  fix c' claims tok
  assume r: "\<forall>(h :: 'w handler) w. JWTMiddleware (session_of K s now) h c w = h c' w"
    and t: "Split (req_Get c ''Authorization'') CHR '' '' = [''Bearer'', tok]" "session_of K s now tok = Inr claims"
      "claim_UserID claims \<noteq> uuid_Nil" "getAuthenticatedUserID c' = (claim_UserID claims, None, c')"
    and g: "req_Get c' = req_Get c"
  obtain cl where "ValidateToken K s now tok = Inr cl" "claim_UserID claims = jc_UserID cl"
    using t(2) by (auto simp: session_of_def rbind_eq_Inr_iff)
  then have "signed_in K s now c'" using t g by (auto simp: signed_in_def)
  with r g show ?thesis by blast
qed blast

lemma service_guard:
  "(\<exists>r. (\<forall>(h :: 'w handler) w. InternalServiceAuth rnd \<lparr> cfg_ExpectedToken = token, cfg_OnReject = None \<rparr> h c w = (r, w))
      \<and> resp_status (snd r) = 401)
   \<or> (\<forall>(h :: 'w handler) w. InternalServiceAuth rnd \<lparr> cfg_ExpectedToken = token, cfg_OnReject = None \<rparr> h c w = h c w)
      \<and> service_call token c"
proof -
  let ?cfg = "\<lparr> cfg_ExpectedToken = token, cfg_OnReject = None \<rparr> :: 'w InternalServiceAuthConfig"
  define r where "r = (let requestID = EnsureRequestID rnd (req_Get c HeaderRequestID) in
    authz_respond 401 False ReasonCodeServiceAuthRequired requestID (ctx_Set HeaderRequestID requestID c))"
  have r: "rejectInternalServiceAuth rnd ?cfg c w = (r, w)" for w by (simp add: rejectInternalServiceAuth_def r_def Let_def)
  have s: "resp_status (snd r) = 401" by (simp add: r_def authz_respond_def Let_def)
  show ?thesis
  proof (cases "service_call token c \<and> HasPrefix (ToLower (TrimSpace (req_Get c ''Authorization''))) ''bearer ''")
    case True
    then show ?thesis by (simp add: InternalServiceAuth_def service_call_def Let_def eval_nat_numeral)
  next
    case False
    then have "InternalServiceAuth rnd ?cfg h c w = (r, w)" for h w
      using r by (auto simp: InternalServiceAuth_def service_call_def Let_def eval_nat_numeral)
    with s show ?thesis by blast
  qed
qed

interpretation app: guarded_router "app_guard K s now rnd token :: route_guard \<Rightarrow> 'w handler \<Rightarrow> 'w handler"
  "app_passed K s now token" for K s now rnd token
proof
  fix g c
  show "(\<exists>r. (\<forall>(h :: 'w handler) w. app_guard K s now rnd token g h c w = (r, w)) \<and> resp_status (snd r) = 401)
     \<or> (\<exists>c'. (\<forall>(h :: 'w handler) w. app_guard K s now rnd token g h c w = h c' w) \<and> app_passed K s now token g c'
          \<and> (\<forall>g'. app_passed K s now token g' c \<longrightarrow> app_passed K s now token g' c'))"
  proof (cases g)
    case GuardJWT
    have k: "app_passed K s now token g' c'" if "signed_in K s now c'" "req_Get c' = req_Get c" "app_passed K s now token g' c" for c' g'
      using that by (cases g') (simp_all add: app_passed_def service_call_def)
    have e: "app_guard K s now rnd token g = JWTMiddleware (session_of K s now)" "app_passed K s now token g = signed_in K s now"
      by (simp_all add: GuardJWT app_guard_def app_passed_def fun_eq_iff)
    have "(\<exists>r. (\<forall>(h :: 'w handler) w. app_guard K s now rnd token g h c w = (r, w)) \<and> resp_status (snd r) = 401)
      \<or> (\<exists>c'. (\<forall>(h :: 'w handler) w. app_guard K s now rnd token g h c w = h c' w) \<and> app_passed K s now token g c'
          \<and> req_Get c' = req_Get c)"
      unfolding e by (rule jwt_guard)
    then show ?thesis
    proof (elim disjE exE conjE)
      fix c' assume n: "\<forall>(h :: 'w handler) w. app_guard K s now rnd token g h c w = h c' w"
        and p: "app_passed K s now token g c'" "req_Get c' = req_Get c"
      have "\<forall>g'. app_passed K s now token g' c \<longrightarrow> app_passed K s now token g' c'" using k [of c'] p by (simp add: e)
      with n p show ?thesis by (intro disjI2 exI [of _ c'] conjI)
    qed (rule disjI1, rule exI, rule conjI)
  next
    case GuardService
    have e: "app_guard K s now rnd token g = InternalServiceAuth rnd \<lparr> cfg_ExpectedToken = token, cfg_OnReject = None \<rparr>"
      "app_passed K s now token g = service_call token"
      by (simp_all add: GuardService app_guard_def app_passed_def fun_eq_iff)
    show ?thesis unfolding e using service_guard [of rnd token c] by metis
  qed
qed


section \<open>The application\<close>

definition app_handler ::
  "fiber \<Rightarrow> auth_pkg \<Rightarrow> AuthService \<Rightarrow> go_time \<Rightarrow> string option \<Rightarrow> string \<Rightarrow> (ctx \<Rightarrow> goerr option \<times> ctx) \<Rightarrow> http_line
     \<Rightarrow> (route_endpoint \<Rightarrow> 'w handler) \<Rightarrow> ctx \<Rightarrow> 'w \<times> observations \<Rightarrow> (goerr option \<times> ctx) \<times> 'w \<times> observations" where
  "app_handler F K s now rnd token not_found l H =
     HTTPMiddleware l (serve F (app_guard K s now rnd token) not_found H (hl_Method l) (hl_Path l) setupRoutes)"

lemma HTTPMiddleware_transparent:
  "fst (HTTPMiddleware l h c (w, obs)) = fst (h c w)" "fst (snd (HTTPMiddleware l h c (w, obs))) = snd (h c w)"
  by (simp_all add: HTTPMiddleware_def Let_def split: prod.split)

text \<open>
  C6: every request to the application takes one of these ways, whatever the handlers
  do. It runs exactly one handler: a public one, one of a signed-in route with a context
  whose user is that of an issued, unexpired token, or one of an internal route with
  the configured, non-empty service token; the middlewares add nothing to its answer and
  its effects. Or no handler runs, nothing but the metrics changes, and the answer is 401 or
  that for an unknown path.
\<close>

theorem request_guarded:
  assumes "fiber_ok F" and "json_ok K" and "as_keys s = Some keys"
    and "ed_unforgeable K keys issued \<or> pqc_unforgeable K keys issued" and "\<forall>cl\<in>issued. json_claims cl"
  shows "(\<exists>e c'. (\<forall>(H :: route_endpoint \<Rightarrow> 'w handler) w obs.
            fst (app_handler F K s now rnd token not_found l H c (w, obs)) = fst (H e c' w)
            \<and> fst (snd (app_handler F K s now rnd token not_found l H c (w, obs))) = snd (H e c' w))
        \<and> (needed e = Some GuardJWT \<longrightarrow>
             (\<exists>cl\<in>issued. \<not> expired now cl \<and> jc_UserID cl \<noteq> uuid_Nil \<and> getAuthenticatedUserID c' = (jc_UserID cl, None, c')))
        \<and> (needed e = Some GuardService \<longrightarrow> service_call token c'))
   \<or> (\<exists>r. (\<forall>(H :: route_endpoint \<Rightarrow> 'w handler) w obs.
            fst (app_handler F K s now rnd token not_found l H c (w, obs)) = r
            \<and> fst (snd (app_handler F K s now rnd token not_found l H c (w, obs))) = w)
        \<and> (resp_status (snd r) = 401 \<or> (\<exists>c'. r = not_found c')))"
proof -
  have o': "outcome (app_guard K s now rnd token :: route_guard \<Rightarrow> 'w handler \<Rightarrow> 'w handler) (app_passed K s now token) F not_found
      (hl_Method l) (hl_Path l) setupRoutes c"
    by (rule app.routes_outcome [OF assms(1) setupRoutes_guards]) simp
  have i: "\<exists>cl\<in>issued. \<not> expired now cl \<and> jc_UserID cl \<noteq> uuid_Nil \<and> getAuthenticatedUserID c' = (jc_UserID cl, None, c')"
    if "app_passed K s now token GuardJWT c'" for c'
    using that accepted_issued [OF assms(2-5)] by (auto simp: app_passed_def signed_in_def)
  have v: "service_call token c'" if "app_passed K s now token GuardService c'" for c'
    using that by (simp add: app_passed_def)
  note t = HTTPMiddleware_transparent app_handler_def
  from o' show ?thesis unfolding outcome_def
  proof (elim disjE exE conjE)
    fix e c'
    assume "\<forall>H w. serve F (app_guard K s now rnd token :: route_guard \<Rightarrow> 'w handler \<Rightarrow> 'w handler) not_found H
        (hl_Method l) (hl_Path l) setupRoutes c w = H e c' w"
      and "\<forall>g. needed e = Some g \<longrightarrow> app_passed K s now token g c'"
    with i [of c'] v [of c'] show ?thesis by (intro disjI1 exI [of _ e] exI [of _ c'] conjI) (simp_all add: t)
  qed (auto simp: t)
qed

text \<open>With no token issued, a request with a bearer token runs no handler of a signed-in route.\<close>

definition ex_app :: "(route_endpoint \<Rightarrow> unit handler) \<Rightarrow> unit \<times> observations \<Rightarrow> (goerr option \<times> ctx) \<times> unit \<times> observations" where
  "ex_app H = app_handler ex_fiber (ex_auth (\<lambda>_. False)) ex_service 0 None ''t'' (\<lambda>c. (Some (ErrNew ''Not Found''), c)) ex_line H
     (ex_session_ctx ''Bearer x'')"

theorem request_guarded_witness:
  "(\<exists>e c'. needed e \<in> {None, Some GuardService} \<and> (\<forall>H obs. fst (ex_app H ((), obs)) = fst (H e c' ())))
   \<or> (\<exists>r. \<forall>H obs. fst (ex_app H ((), obs)) = r)"
proof -
  have u: "pqc_unforgeable (ex_auth (\<lambda>_. False)) ex_keys {}"
    by (auto simp: pqc_unforgeable_def MLDSA_Verify_def ex_auth_def split: if_splits)
  have k: "as_keys ex_service = Some ex_keys" by (simp add: ex_service_def)
  have j: "\<forall>cl\<in>{}. json_claims cl" by simp
  from request_guarded [OF ex_fiber_ok ex_json_ok k disjI2 [OF u] j, of 0 None "''t''" "\<lambda>c. (Some (ErrNew ''Not Found''), c)" ex_line
      "ex_session_ctx ''Bearer x''", where 'w = unit, folded ex_app_def]
  show ?thesis
  proof (elim disjE exE conjE)
    fix e c'
    assume h: "\<forall>H w obs. fst (ex_app H (w, obs)) = fst (H e c' w) \<and> fst (snd (ex_app H (w, obs))) = snd (H e c' w)"
      and n: "needed e = Some GuardJWT \<longrightarrow> (\<exists>cl\<in>{}. \<not> expired 0 cl \<and> jc_UserID cl \<noteq> uuid_Nil
        \<and> getAuthenticatedUserID c' = (jc_UserID cl, None, c'))"
    have "needed e \<in> {None, Some GuardService}"
    proof (cases "needed e")
      case (Some g)
      with n show ?thesis by (cases g) simp_all
    qed simp
    with h show ?thesis by (intro disjI1 exI [of _ e] exI [of _ c']) simp
  qed blast+
qed

end
