(* ===== verification/Presence_Shutdown.thy ===== *)
theory Presence_Shutdown
  imports Scanner_Presence
begin

text \<open>
  The life of the presence tracker of \<open>src/internal/service/scanner_presence.go\<close> from its
  subscriptions to \<open>Close\<close>: the goroutine of \<open>runWalletSweep\<close> and any number of concurrent
  calls of \<open>Close\<close>, interleaved with the messages of the broker.

  A channel that carries no value is \<open>None\<close> (nil) or \<open>Some b\<close>, where \<open>b\<close> tells whether it is
  closed: a receive on it goes on only when it is closed, and closing it twice (or closing nil)
  panics.  \<open>sync.Once\<close> has three states: the first call of \<open>Do\<close> runs the function, a call made
  while it runs waits, and a later call does nothing.  The subscriptions are the subjects;
  the calls to the broker's connection are recorded in order.
\<close>

section \<open>The constructor\<close>

datatype conn_event = Subscribed string | Unsubscribed string

record presence_subjects =
  psu_Presence :: string
  psu_HeartbeatTLS :: string
  psu_HeartbeatWallet :: string

datatype once_state = Once_New | Once_Running | Once_Done

datatype sweep_pc = Sw_Select | Sw_Return | Sw_Done

datatype stop_pc = St_Enter | St_CloseStop | St_Wait | St_End

datatype close_pc = Cl_stopSweep stop_pc | Cl_subTLS | Cl_subWallet | Cl_sub | Cl_Returned "goerr option"

record 'r presence_sys =
  ps_tracker :: "'r ScannerPresenceTracker"
  ps_sub :: "string option"
  ps_subTLS :: "string option"
  ps_subWallet :: "string option"
  ps_sweepEvery :: go_duration
  ps_sweepStop :: "bool option"
  ps_sweepDone :: "bool option"
  ps_stopSweepOnce :: once_state
  ps_sweeper :: sweep_pc
  ps_closers :: "close_pc list"
  ps_events :: "conn_event list"
  ps_panicked :: bool

definition started_tracker ::
  "'r redis_ops option \<Rightarrow> 'r \<Rightarrow> string \<Rightarrow> string option \<Rightarrow> string option \<Rightarrow> conn_event list \<Rightarrow> 'r presence_sys" where
  "started_tracker redis r sub subTLS subWallet ev =
     \<lparr> ps_tracker = NewScannerPresenceTracker redis r, ps_sub = Some sub, ps_subTLS = subTLS, ps_subWallet = subWallet,
       ps_sweepEvery = walletPresenceSweepInterval, ps_sweepStop = Some False, ps_sweepDone = Some False,
       ps_stopSweepOnce = Once_New, ps_sweeper = Sw_Select, ps_closers = [], ps_events = ev, ps_panicked = False \<rparr>"

definition start_tracker ::
  "(string \<Rightarrow> goerr option) \<Rightarrow> presence_subjects \<Rightarrow> 'r redis_ops option \<Rightarrow> 'r \<Rightarrow> 'r presence_sys result \<times> conn_event list" where
  "start_tracker Subscribe S redis r =
     (let p = psu_Presence S; tls = psu_HeartbeatTLS S; wallet = psu_HeartbeatWallet S in
      case Subscribe p of
        Some err \<Rightarrow> (Inl err, [])
      | None \<Rightarrow>
          if redis = None
          then (Inr (started_tracker redis r p None None [Subscribed p]), [Subscribed p])
          else
            (case Subscribe tls of
               Some err \<Rightarrow> (Inl err, [Subscribed p, Unsubscribed p])
             | None \<Rightarrow>
                 (case Subscribe wallet of
                    Some err \<Rightarrow> (Inl err, [Subscribed p, Subscribed tls, Unsubscribed tls, Unsubscribed p])
                  | None \<Rightarrow>
                      (let ev = [Subscribed p, Subscribed tls, Subscribed wallet]
                       in (Inr (started_tracker redis r p (Some tls) (Some wallet) ev), ev)))))"

section \<open>The sweep and the calls of \<open>Close\<close>\<close>

text \<open>\<open>clock\<close> prefers the injected clock, \<open>handlePresence\<close> is the subscribed callback.\<close>

definition clock :: "go_time option \<Rightarrow> go_time \<Rightarrow> go_time" where
  "clock injected wall = (case injected of Some now \<Rightarrow> now | None \<Rightarrow> wall)"

definition handlePresence ::
  "presence_contract \<Rightarrow> (string \<Rightarrow> presence_message result) \<Rightarrow> go_time option \<Rightarrow> go_time \<Rightarrow> string \<Rightarrow>
     'r ScannerPresenceTracker \<Rightarrow> 'r ScannerPresenceTracker" where
  "handlePresence K Decode injected wall data t = handleMessage K Decode (clock injected wall) data t"

definition sweep_period :: "'r presence_sys \<Rightarrow> go_duration" where
  "sweep_period s = (if ps_sweepEvery s \<le> 0 then walletPresenceSweepInterval else ps_sweepEvery s)"

definition sweepStop_closed :: "'r presence_sys \<Rightarrow> 'r presence_sys" where
  "sweepStop_closed s =
     (if ps_sweepStop s = Some False then s\<lparr>ps_sweepStop := Some True\<rparr> else s\<lparr>ps_panicked := True\<rparr>)"

definition sweepDone_closed :: "'r presence_sys \<Rightarrow> 'r presence_sys" where
  "sweepDone_closed s =
     (if ps_sweepDone s = Some False then s\<lparr>ps_sweepDone := Some True\<rparr> else s\<lparr>ps_panicked := True\<rparr>)"

text \<open>
  One move of the sweep: a case of its \<open>select\<close>, or, after the return, the deferred calls.  No
  result is a case that is not ready, or a goroutine that has ended.
\<close>

datatype sweep_case = Case_sweepStop | Case_tick go_time

fun runWalletSweep :: "sweep_pc \<Rightarrow> sweep_case \<Rightarrow> 'r presence_sys \<Rightarrow> 'r presence_sys option" where
  "runWalletSweep Sw_Select Case_sweepStop s =
     (if ps_sweepStop s = Some True then Some (s\<lparr>ps_sweeper := Sw_Return\<rparr>) else None)"
| "runWalletSweep Sw_Select (Case_tick now) s = Some (s\<lparr>ps_tracker := expireSilentWallets now (ps_tracker s)\<rparr>)"
| "runWalletSweep Sw_Return c s = Some ((sweepDone_closed s)\<lparr>ps_sweeper := Sw_Done\<rparr>)"
| "runWalletSweep Sw_Done c s = None"

fun stopSweep :: "stop_pc \<Rightarrow> 'r presence_sys \<Rightarrow> (stop_pc \<times> 'r presence_sys) option" where
  "stopSweep St_Enter s =
     (if ps_sweepStop s = None then Some (St_End, s)
      else case ps_stopSweepOnce s of
             Once_New \<Rightarrow> Some (St_CloseStop, s\<lparr>ps_stopSweepOnce := Once_Running\<rparr>)
           | Once_Running \<Rightarrow> None
           | Once_Done \<Rightarrow> Some (St_Wait, s))"
| "stopSweep St_CloseStop s = Some (St_Wait, (sweepStop_closed s)\<lparr>ps_stopSweepOnce := Once_Done\<rparr>)"
| "stopSweep St_Wait s = (if ps_sweepDone s = Some False then None else Some (St_End, s))"
| "stopSweep St_End s = None"

definition Unsubscribe :: "string option \<Rightarrow> 'r presence_sys \<Rightarrow> 'r presence_sys" where
  "Unsubscribe sub s = (case sub of None \<Rightarrow> s | Some x \<Rightarrow> s\<lparr>ps_events := ps_events s @ [Unsubscribed x]\<rparr>)"

text \<open>One move of a call of \<open>Close\<close>; \<open>err\<close> is the answer of its last \<open>Unsubscribe\<close>.\<close>

fun tracker_Close :: "goerr option \<Rightarrow> close_pc \<Rightarrow> 'r presence_sys \<Rightarrow> (close_pc \<times> 'r presence_sys) option" where
  "tracker_Close err (Cl_stopSweep p) s =
     (case stopSweep p s of
        None \<Rightarrow> None
      | Some (p', s') \<Rightarrow> Some (if p' = St_End then Cl_subTLS else Cl_stopSweep p', s'))"
| "tracker_Close err Cl_subTLS s = Some (Cl_subWallet, Unsubscribe (ps_subTLS s) s)"
| "tracker_Close err Cl_subWallet s = Some (Cl_sub, Unsubscribe (ps_subWallet s) s)"
| "tracker_Close err Cl_sub s = Some (Cl_Returned (if ps_sub s = None then None else err), Unsubscribe (ps_sub s) s)"
| "tracker_Close err (Cl_Returned r) s = None"

section \<open>Interleavings\<close>

text \<open>
  The moves of the protocol are those of the calls of \<open>Close\<close> and the end of the sweep; the others,
  which may come at any time, are a new call of \<open>Close\<close>, a tick and the messages.  After a panic the
  process is gone.
\<close>

inductive closing_step :: "'r presence_sys \<Rightarrow> 'r presence_sys \<Rightarrow> bool" where
  close: "\<not> ps_panicked s \<Longrightarrow> i < length (ps_closers s) \<Longrightarrow> tracker_Close err (ps_closers s ! i) s = Some (c, s') \<Longrightarrow>
    closing_step s (s'\<lparr>ps_closers := (ps_closers s')[i := c]\<rparr>)"
| sweep_end: "\<not> ps_panicked s \<Longrightarrow> runWalletSweep (ps_sweeper s) Case_sweepStop s = Some s' \<Longrightarrow> closing_step s s'"

inductive tracker_step :: "presence_contract \<Rightarrow> 'r presence_sys \<Rightarrow> 'r presence_sys \<Rightarrow> bool" for K where
  closing: "closing_step s s' \<Longrightarrow> tracker_step K s s'"
| call: "\<not> ps_panicked s \<Longrightarrow> tracker_step K s (s\<lparr>ps_closers := ps_closers s @ [Cl_stopSweep St_Enter]\<rparr>)"
| tick: "\<not> ps_panicked s \<Longrightarrow> runWalletSweep (ps_sweeper s) (Case_tick now) s = Some s' \<Longrightarrow> tracker_step K s s'"
| message: "\<not> ps_panicked s \<Longrightarrow>
    tracker_step K s (s\<lparr>ps_tracker := handlePresence K D injected wall data (ps_tracker s)\<rparr>)"
| heartbeat: "\<not> ps_panicked s \<Longrightarrow> tracker_step K s (s\<lparr>ps_tracker := handleHeartbeat H kind data (ps_tracker s)\<rparr>)"

definition tracker_started :: "'r presence_sys \<Rightarrow> bool" where
  "tracker_started s \<longleftrightarrow> (\<exists>Sub S redis r ev. start_tracker Sub S redis r = (Inr s, ev))"

text \<open>How far a call of \<open>Close\<close> is, and the moves that are left.\<close>

fun close_rank :: "close_pc \<Rightarrow> nat" where
  "close_rank (Cl_stopSweep St_Enter) = 0"
| "close_rank (Cl_stopSweep St_CloseStop) = 1"
| "close_rank (Cl_stopSweep St_Wait) = 2"
| "close_rank (Cl_stopSweep St_End) = 3"
| "close_rank Cl_subTLS = 4"
| "close_rank Cl_subWallet = 5"
| "close_rank Cl_sub = 6"
| "close_rank (Cl_Returned r) = 7"

fun sweep_left :: "sweep_pc \<Rightarrow> nat" where
  "sweep_left Sw_Select = 2"
| "sweep_left Sw_Return = 1"
| "sweep_left Sw_Done = 0"

definition closing_left :: "'r presence_sys \<Rightarrow> nat" where
  "closing_left s = sum_list (map (\<lambda>c. 7 - close_rank c) (ps_closers s)) + sweep_left (ps_sweeper s)"

section \<open>The invariant\<close>

text \<open>
  What is owed at each point of a call of \<open>Close\<close>: past the \<open>Once\<close> the stop channel is closed, past the wait
  the sweep has ended, and past each \<open>Unsubscribe\<close> the subscription is given back.
\<close>

definition given_back :: "string option \<Rightarrow> 'r presence_sys \<Rightarrow> bool" where
  "given_back sub s \<longleftrightarrow> (\<forall>x. sub = Some x \<longrightarrow> Unsubscribed x \<in> set (ps_events s))"

definition owes :: "'r presence_sys \<Rightarrow> close_pc \<Rightarrow> bool" where
  "owes s c \<longleftrightarrow> c \<noteq> Cl_stopSweep St_End
     \<and> (2 \<le> close_rank c \<longrightarrow> ps_sweepStop s = Some True) \<and> (4 \<le> close_rank c \<longrightarrow> ps_sweepDone s = Some True)
     \<and> (5 \<le> close_rank c \<longrightarrow> given_back (ps_subTLS s) s) \<and> (6 \<le> close_rank c \<longrightarrow> given_back (ps_subWallet s) s)
     \<and> (7 \<le> close_rank c \<longrightarrow> given_back (ps_sub s) s)"

definition subjects :: "'r presence_sys \<Rightarrow> string set" where
  "subjects s = set_option (ps_sub s) \<union> set_option (ps_subTLS s) \<union> set_option (ps_subWallet s)"

definition shutdown_inv :: "'r presence_sys \<Rightarrow> bool" where
  "shutdown_inv s \<longleftrightarrow> \<not> ps_panicked s
     \<and> ps_sweepStop s = Some (ps_stopSweepOnce s = Once_Done) \<and> ps_sweepDone s = Some (ps_sweeper s = Sw_Done)
     \<and> (ps_sweeper s \<noteq> Sw_Select \<longrightarrow> ps_sweepStop s = Some True)
     \<and> length (filter (\<lambda>c. c = Cl_stopSweep St_CloseStop) (ps_closers s)) = (if ps_stopSweepOnce s = Once_Running then 1 else 0)
     \<and> (\<forall>c \<in> set (ps_closers s). owes s c)
     \<and> (\<forall>x. Subscribed x \<in> set (ps_events s) \<longrightarrow> x \<in> subjects s)"

text \<open>No move takes anything back.\<close>

definition grown :: "'r presence_sys \<Rightarrow> 'r presence_sys \<Rightarrow> bool" where
  "grown s s' \<longleftrightarrow> ps_sub s' = ps_sub s \<and> ps_subTLS s' = ps_subTLS s \<and> ps_subWallet s' = ps_subWallet s
     \<and> (ps_sweepStop s = Some True \<longrightarrow> ps_sweepStop s' = Some True)
     \<and> (ps_sweepDone s = Some True \<longrightarrow> ps_sweepDone s' = Some True)
     \<and> set (ps_events s) \<subseteq> set (ps_events s')"

lemma given_back_grown: "given_back sub s \<Longrightarrow> grown s s' \<Longrightarrow> given_back sub s'"
  by (auto simp: given_back_def grown_def)

lemma owes_grown:
  assumes "owes s c" and "grown s s'"
  shows "owes s' c"
  using assms(1) given_back_grown [OF _ assms(2)] assms(2) by (simp add: owes_def grown_def)

lemma Unsubscribe_sel [simp]:
  "ps_sub (Unsubscribe sub s) = ps_sub s" "ps_subTLS (Unsubscribe sub s) = ps_subTLS s"
  "ps_subWallet (Unsubscribe sub s) = ps_subWallet s" "ps_sweepStop (Unsubscribe sub s) = ps_sweepStop s"
  "ps_sweepDone (Unsubscribe sub s) = ps_sweepDone s" "ps_stopSweepOnce (Unsubscribe sub s) = ps_stopSweepOnce s"
  "ps_sweeper (Unsubscribe sub s) = ps_sweeper s" "ps_closers (Unsubscribe sub s) = ps_closers s"
  "ps_panicked (Unsubscribe sub s) = ps_panicked s" "ps_tracker (Unsubscribe sub s) = ps_tracker s"
  "set (ps_events (Unsubscribe sub s)) = set (ps_events s) \<union> Unsubscribed ` set_option sub"
  by (cases sub; simp add: Unsubscribe_def)+

lemma given_back_Unsubscribe [simp]: "given_back sub (Unsubscribe sub s)"
  by (simp add: given_back_def)

lemma shutdown_invD:
  assumes "shutdown_inv s"
  shows "\<not> ps_panicked s" "ps_sweepStop s = Some (ps_stopSweepOnce s = Once_Done)"
    "ps_sweepDone s = Some (ps_sweeper s = Sw_Done)" "ps_sweeper s \<noteq> Sw_Select \<Longrightarrow> ps_sweepStop s = Some True"
    "length (filter (\<lambda>c. c = Cl_stopSweep St_CloseStop) (ps_closers s)) = (if ps_stopSweepOnce s = Once_Running then 1 else 0)"
    "c \<in> set (ps_closers s) \<Longrightarrow> owes s c" "Subscribed x \<in> set (ps_events s) \<Longrightarrow> x \<in> subjects s"
  using assms unfolding shutdown_inv_def by blast+

lemma Once_runs:
  assumes "shutdown_inv s" and "Cl_stopSweep St_CloseStop \<in> set (ps_closers s)"
  shows "ps_stopSweepOnce s = Once_Running"
proof (rule ccontr)
  assume "ps_stopSweepOnce s \<noteq> Once_Running"
  then have "filter (\<lambda>c. c = Cl_stopSweep St_CloseStop) (ps_closers s) = []" using shutdown_invD(5) [OF assms(1)] by simp
  then show False using assms(2) unfolding filter_empty_conv by blast
qed

text \<open>A move of a call of \<open>Close\<close>: what it changes, and what the call then owes.\<close>

lemma Close_move:
  assumes "shutdown_inv s" and "c \<in> set (ps_closers s)" and "tracker_Close err c s = Some (c', s')"
  shows "ps_closers s' = ps_closers s \<and> grown s s' \<and> owes s' c' \<and> \<not> ps_panicked s' \<and> close_rank c < close_rank c'
    \<and> ps_sweeper s' = ps_sweeper s \<and> ps_sweepDone s' = ps_sweepDone s \<and> ps_tracker s' = ps_tracker s
    \<and> ps_sweepStop s' = Some (ps_stopSweepOnce s' = Once_Done) \<and> subjects s' = subjects s
    \<and> (\<forall>x. Subscribed x \<in> set (ps_events s') \<longleftrightarrow> Subscribed x \<in> set (ps_events s))
    \<and> (if ps_stopSweepOnce s' = Once_Running then 1 else 0) + (if c = Cl_stopSweep St_CloseStop then 1 else 0)
      = (if ps_stopSweepOnce s = Once_Running then 1 else 0) + (if c' = Cl_stopSweep St_CloseStop then 1 else (0::nat))"
proof -
  note inv = shutdown_invD [OF assms(1)]
  have o: "owes s c" using assms(2) by (rule inv(6))
  note frame = grown_def owes_def subjects_def
  show ?thesis
  proof (cases c)
    case (Cl_stopSweep p)
    then show ?thesis
    proof (cases p)
      case St_Enter
      then show ?thesis using assms(3) Cl_stopSweep inv(1,2)
        by (cases "ps_stopSweepOnce s") (clarsimp simp: frame)+
    next
      case St_CloseStop
      then have "ps_stopSweepOnce s = Once_Running" using Once_runs [OF assms(1)] assms(2) Cl_stopSweep by simp
      then show ?thesis using assms(3) Cl_stopSweep St_CloseStop inv(1,2)
        by (clarsimp simp: frame sweepStop_closed_def)
    next
      case St_Wait
      then show ?thesis using assms(3) Cl_stopSweep o inv(1,2,3)
        by (clarsimp simp: frame split: if_splits)
    qed (use assms(3) in simp)
  next
    case Cl_subTLS
    then show ?thesis using assms(3) o inv(1,2) by (auto simp: frame)
  next
    case Cl_subWallet
    then show ?thesis using assms(3) o inv(1,2) by (auto simp: frame given_back_def)
  next
    case Cl_sub
    then show ?thesis using assms(3) o inv(1,2) by (auto simp: frame given_back_def)
  qed (use assms(3) in simp)
qed

lemma length_filter_update:
  "i < length xs \<Longrightarrow> length (filter P (xs[i := x])) + (if P (xs ! i) then 1 else 0) = length (filter P xs) + (if P x then 1 else 0)"
proof (induction xs arbitrary: i)
  case (Cons a xs)
  then show ?case using Cons.IH [of "i - 1"] by (cases i) auto
qed simp

lemma sum_list_update_less:
  fixes f :: "'a \<Rightarrow> nat"
  shows "i < length xs \<Longrightarrow> f x < f (xs ! i) \<Longrightarrow> sum_list (map f (xs[i := x])) < sum_list (map f xs)"
  by (induction xs arbitrary: i) (auto split: nat.splits)

lemma shutdown_inv_close:
  assumes "shutdown_inv s" and "i < length (ps_closers s)" and "tracker_Close err (ps_closers s ! i) s = Some (c, s')"
  shows "shutdown_inv (s'\<lparr>ps_closers := (ps_closers s')[i := c]\<rparr>)" (is "shutdown_inv ?t")
proof -
  note inv = shutdown_invD [OF assms(1)]
  have m: "ps_closers s ! i \<in> set (ps_closers s)" using assms(2) by simp
  note mv = Close_move [OF assms(1) m assms(3)]
  have cl: "ps_closers s' = ps_closers s" and g: "grown s s'" and o': "owes s' c" using mv by blast+
  have same: "owes ?t x = owes s' x" for x by (simp add: owes_def given_back_def)
  have "owes ?t x" if "x \<in> set (ps_closers ?t)" for x
  proof -
    have "x = c \<or> x \<in> set (ps_closers s)" using that set_update_subset_insert [of "ps_closers s" i c] cl by auto
    then show ?thesis using o' owes_grown [OF inv(6) g] unfolding same by blast
  qed
  moreover have "length (filter (\<lambda>c. c = Cl_stopSweep St_CloseStop) (ps_closers ?t)) = (if ps_stopSweepOnce ?t = Once_Running then 1 else 0)"
    using length_filter_update [OF assms(2), of "\<lambda>c. c = Cl_stopSweep St_CloseStop" c] inv(5) mv
    by (simp split: if_splits)
  moreover have "ps_sweeper s \<noteq> Sw_Select \<Longrightarrow> ps_sweepStop s' = Some True" using inv(4) g by (simp add: grown_def)
  moreover have "subjects ?t = subjects s" using mv by (simp add: subjects_def)
  ultimately show ?thesis using mv inv(3,7) unfolding shutdown_inv_def by simp
qed

lemma shutdown_inv_sweep_end:
  assumes "shutdown_inv s" and "runWalletSweep (ps_sweeper s) Case_sweepStop s = Some s'"
  shows "shutdown_inv s'"
proof -
  note inv = shutdown_invD [OF assms(1)]
  have "grown s s' \<and> ps_closers s' = ps_closers s \<and> subjects s' = subjects s \<and> ps_events s' = ps_events s
    \<and> ps_stopSweepOnce s = Once_Done \<and> ps_stopSweepOnce s' = Once_Done \<and> ps_sweepStop s' = Some True
    \<and> ps_sweepDone s' = Some (ps_sweeper s' = Sw_Done) \<and> \<not> ps_panicked s'"
    using assms(2) inv(1-4)
    by (cases "ps_sweeper s") (auto simp: grown_def subjects_def sweepDone_closed_def split: if_splits)
  then show ?thesis using inv(5,6,7) owes_grown [of s _ s'] unfolding shutdown_inv_def by simp
qed

lemma shutdown_inv_closing:
  assumes "closing_step s s'" and "shutdown_inv s"
  shows "shutdown_inv s'"
  using assms by cases (simp_all add: shutdown_inv_close shutdown_inv_sweep_end)

lemma shutdown_inv_tracker [simp]: "shutdown_inv (s\<lparr>ps_tracker := t\<rparr>) \<longleftrightarrow> shutdown_inv s"
  by (simp add: shutdown_inv_def owes_def given_back_def subjects_def)

lemma shutdown_inv_call:
  "shutdown_inv s \<Longrightarrow> shutdown_inv (s\<lparr>ps_closers := ps_closers s @ [Cl_stopSweep St_Enter]\<rparr>)"
  by (auto simp: shutdown_inv_def owes_def given_back_def subjects_def)

lemma shutdown_inv_start: "start_tracker Sub S redis r = (Inr s, ev) \<Longrightarrow> shutdown_inv s"
  by (auto simp: start_tracker_def started_tracker_def shutdown_inv_def subjects_def Let_def split: option.splits if_splits)

interpretation shutdown: invariant_of tracker_started "tracker_step K" shutdown_inv
  for K
proof
  fix s :: "'a presence_sys"
  show "tracker_started s \<Longrightarrow> shutdown_inv s" by (auto simp: tracker_started_def shutdown_inv_start)
  fix s' assume i: "shutdown_inv s" and "tracker_step K s s'"
  from this(2) show "shutdown_inv s'"
  proof cases
    case closing
    then show ?thesis using i by (rule shutdown_inv_closing)
  next
    case (tick now)
    then show ?thesis using i by (cases "ps_sweeper s") (auto simp: shutdown_inv_sweep_end [OF i])
  qed (simp_all add: i shutdown_inv_call)
qed

section \<open>Progress\<close>

definition all_returned :: "'r presence_sys \<Rightarrow> bool" where
  "all_returned s \<longleftrightarrow> (\<forall>c \<in> set (ps_closers s). close_rank c = 7)"

lemma closing_left_less:
  assumes "closing_step s s'" and "shutdown_inv s"
  shows "closing_left s' < closing_left s"
  using assms(1)
proof cases
  case (close i err c t)
  have "ps_closers s ! i \<in> set (ps_closers s)" using close(3) by simp
  note mv = Close_move [OF assms(2) this close(4)]
  have "close_rank c \<le> 7" by (cases c rule: close_rank.cases) simp_all
  then have "7 - close_rank c < 7 - close_rank (ps_closers s ! i)" using mv by linarith
  from sum_list_update_less [OF close(3) this] show ?thesis using mv close(1) by (simp add: closing_left_def)
next
  case sweep_end
  then show ?thesis
    by (cases "ps_sweeper s") (auto simp: closing_left_def sweepDone_closed_def split: if_splits)
qed

text \<open>Only the wait for the running \<open>Once\<close> and for the sweep can block, and the one waited for can move.\<close>

lemma closing_enabled:
  assumes "shutdown_inv s" and "\<not> all_returned s"
  shows "\<exists>s'. closing_step s s'"
proof -
  note inv = shutdown_invD [OF assms(1)]
  have run: "\<exists>s'. closing_step s s'" if c: "c \<in> set (ps_closers s)" and m: "tracker_Close None c s = Some (c', t)" for c c' t
  proof -
    obtain i where "i < length (ps_closers s)" "ps_closers s ! i = c" using c by (auto simp: in_set_conv_nth)
    then show ?thesis using m closing_step.close [OF inv(1)] by blast
  qed
  obtain c where c: "c \<in> set (ps_closers s)" "close_rank c \<noteq> 7" using assms(2) by (auto simp: all_returned_def)
  show ?thesis
  proof (cases "tracker_Close None c s")
    case (Some q)
    then show ?thesis using run [OF c(1)] by (cases q) simp
  next
    case None
    then consider "c = Cl_stopSweep St_Enter" "ps_stopSweepOnce s = Once_Running" | "c = Cl_stopSweep St_Wait" "ps_sweepDone s = Some False"
      using c(2) inv(2) inv(6) [OF c(1)] by (cases c rule: close_rank.cases) (auto simp: owes_def split: if_splits once_state.splits)
    then show ?thesis
    proof cases
      case 1
      then have "filter (\<lambda>c. c = Cl_stopSweep St_CloseStop) (ps_closers s) \<noteq> []" using inv(5) by auto
      then have "Cl_stopSweep St_CloseStop \<in> set (ps_closers s)" unfolding filter_empty_conv by blast
      then show ?thesis using run by fastforce
    next
      case 2
      then have "ps_sweepStop s = Some True" using inv(6) [OF c(1)] by (simp add: owes_def)
      moreover have "ps_sweeper s \<noteq> Sw_Done" using 2(2) inv(3) by auto
      ultimately show ?thesis using closing_step.sweep_end [OF inv(1)] by (cases "ps_sweeper s") auto
    qed
  qed
qed

lemma closing_completes:
  assumes "shutdown_inv s"
  shows "\<exists>s'. closing_step\<^sup>*\<^sup>* s s' \<and> all_returned s'"
  using assms
proof (induction "closing_left s" arbitrary: s rule: less_induct)
  case less
  show ?case
  proof (cases "all_returned s")
    case False
    then obtain s' where s': "closing_step s s'" using closing_enabled [OF less.prems] by blast
    from less.hyps [OF closing_left_less [OF s' less.prems] shutdown_inv_closing [OF s' less.prems]]
    show ?thesis using s' by (meson converse_rtranclp_into_rtranclp)
  qed blast
qed

text \<open>What a call of \<open>Close\<close> that has returned leaves.\<close>

lemma returned_final:
  assumes "shutdown_inv s" and "Cl_Returned r \<in> set (ps_closers s)"
  shows "ps_sweeper s = Sw_Done \<and> (\<forall>x. Subscribed x \<in> set (ps_events s) \<longrightarrow> Unsubscribed x \<in> set (ps_events s))"
proof -
  note inv = shutdown_invD [OF assms(1)]
  have o: "owes s (Cl_Returned r)" using assms(2) by (rule inv(6))
  then have "ps_sweeper s = Sw_Done" using inv(3) by (simp add: owes_def)
  moreover have "Unsubscribed x \<in> set (ps_events s)" if "Subscribed x \<in> set (ps_events s)" for x
    using inv(7) [OF that] o unfolding subjects_def owes_def given_back_def by (auto simp: elem_set)
  ultimately show ?thesis by blast
qed

section \<open>Runs by schedule\<close>

text \<open>An interleaving is given by the moves in their order.\<close>

datatype move = Move_call | Move_close nat | Move_sweep_end | Move_tick go_time

fun do_move :: "move \<Rightarrow> 'r presence_sys \<Rightarrow> 'r presence_sys option" where
  "do_move Move_call s = Some (s\<lparr>ps_closers := ps_closers s @ [Cl_stopSweep St_Enter]\<rparr>)"
| "do_move (Move_close i) s =
     (if i < length (ps_closers s)
      then map_option (\<lambda>(c, s'). s'\<lparr>ps_closers := (ps_closers s')[i := c]\<rparr>) (tracker_Close None (ps_closers s ! i) s)
      else None)"
| "do_move Move_sweep_end s = runWalletSweep (ps_sweeper s) Case_sweepStop s"
| "do_move (Move_tick now) s = runWalletSweep (ps_sweeper s) (Case_tick now) s"

fun run_moves :: "move list \<Rightarrow> 'r presence_sys \<Rightarrow> 'r presence_sys option" where
  "run_moves [] s = Some s"
| "run_moves (m # ms) s = Option.bind (do_move m s) (run_moves ms)"

lemma do_move_step: "\<not> ps_panicked s \<Longrightarrow> do_move m s = Some s' \<Longrightarrow> tracker_step K s s'"
  by (cases m) (auto split: if_splits intro: tracker_step.intros closing_step.intros)

lemma run_moves_reachable:
  assumes "reachable tracker_started (tracker_step K) s" and "run_moves ms s = Some s'"
  shows "reachable tracker_started (tracker_step K) s'"
  using assms
proof (induction ms arbitrary: s)
  case (Cons m ms)
  then obtain t where t: "do_move m s = Some t" "run_moves ms t = Some s'" by (auto simp: bind_eq_Some_conv)
  have "\<not> ps_panicked s" using shutdown.inv_reachable [OF Cons.prems(1)] by (rule shutdown_invD(1))
  then show ?case using Cons.IH t reachable.move [OF Cons.prems(1)] do_move_step by blast
qed simp

section \<open>Properties\<close>

text \<open>
  C19: closing the presence tracker is safe and final.  However the calls of \<open>Close\<close>, the sweep and the messages
  interleave after the constructor succeeded, no channel is closed twice (the process never panics); and once
  a call of \<open>Close\<close> has returned, the sweep has ended, so that no later tick can expire a wallet
  scanner, and every subject that was subscribed has been unsubscribed.
\<close>

theorem close_is_final:
  assumes "reachable tracker_started (tracker_step K) s"
  shows "\<not> ps_panicked s
    \<and> (\<forall>r. Cl_Returned r \<in> set (ps_closers s) \<longrightarrow>
         (\<forall>c. runWalletSweep (ps_sweeper s) c s = None)
         \<and> (\<forall>x. Subscribed x \<in> set (ps_events s) \<longrightarrow> Unsubscribed x \<in> set (ps_events s)))"
proof -
  have i: "shutdown_inv s" using assms by (rule shutdown.inv_reachable)
  have "(\<forall>c. runWalletSweep (ps_sweeper s) c s = None)
      \<and> (\<forall>x. Subscribed x \<in> set (ps_events s) \<longrightarrow> Unsubscribed x \<in> set (ps_events s))"
    if "Cl_Returned r \<in> set (ps_closers s)" for r
    using returned_final [OF i that] by simp
  with shutdown_invD(1) [OF i] show ?thesis by blast
qed

definition ex_subjects :: presence_subjects where
  "ex_subjects = \<lparr> psu_Presence = ''p'', psu_HeartbeatTLS = ''t'', psu_HeartbeatWallet = ''w'' \<rparr>"

definition ex_started :: "unit presence_sys" where
  "ex_started = started_tracker None () ''p'' None None [Subscribed ''p'']"

lemma ex_started_reachable: "reachable tracker_started (tracker_step K) ex_started"
proof (rule reachable.start)
  have "start_tracker (\<lambda>_. None) ex_subjects None () = (Inr ex_started, [Subscribed ''p''])"
    by (simp add: start_tracker_def ex_started_def ex_subjects_def Let_def)
  then show "tracker_started ex_started" unfolding tracker_started_def by blast
qed

definition ex_two_closes :: "move list" where
  "ex_two_closes = [Move_call, Move_call, Move_tick 0, Move_close 0, Move_close 0, Move_tick 1, Move_close 1,
     Move_sweep_end, Move_sweep_end, Move_close 1, Move_close 0, Move_close 0, Move_close 0, Move_close 0]"

theorem close_is_final_witness:
  "\<exists>s. run_moves ex_two_closes ex_started = Some s \<and> Cl_Returned None \<in> set (ps_closers s)
     \<and> \<not> ps_panicked s \<and> runWalletSweep (ps_sweeper s) (Case_tick 2) s = None
     \<and> Unsubscribed ''p'' \<in> set (ps_events s)"
proof -
  have "map_option (\<lambda>s. (ps_closers s, Subscribed ''p'' \<in> set (ps_events s))) (run_moves ex_two_closes ex_started)
      = Some ([Cl_Returned None, Cl_subTLS], True)"
    by code_simp
  then obtain s where s: "run_moves ex_two_closes ex_started = Some s" "ps_closers s = [Cl_Returned None, Cl_subTLS]"
    "Subscribed ''p'' \<in> set (ps_events s)"
    by auto
  have "reachable tracker_started (tracker_step ex_presence_contract) s"
    using run_moves_reachable [OF ex_started_reachable s(1)] .
  from close_is_final [OF this] s show ?thesis by auto
qed

text \<open>A constructor that fails leaves no subscription behind either.\<close>

lemma start_tracker_fails:
  "start_tracker Sub S redis r = (Inl err, ev) \<Longrightarrow> Subscribed x \<in> set ev \<Longrightarrow> Unsubscribed x \<in> set ev"
  by (auto simp: start_tracker_def Let_def split: option.splits if_splits)

text \<open>
  Closing never deadlocks.  In every reachable state with a call of \<open>Close\<close> under way, some call or the end of
  the sweep can move; each such move lowers the count of moves left; and from there all the calls can return
  without a further tick or message.
\<close>

lemma close_returns:
  assumes "reachable tracker_started (tracker_step K) s"
  shows "(\<exists>s'. closing_step\<^sup>*\<^sup>* s s' \<and> all_returned s')
    \<and> (\<not> all_returned s \<longrightarrow> (\<exists>s'. closing_step s s'))
    \<and> (\<forall>s'. closing_step s s' \<longrightarrow> closing_left s' < closing_left s)"
  using closing_completes closing_enabled closing_left_less shutdown.inv_reachable [OF assms] by blast

lemma close_returns_witness:
  "\<exists>s. run_moves [Move_call, Move_call, Move_close 0] ex_started = Some s \<and> \<not> all_returned s \<and> tracker_Close None (ps_closers s ! 1) s = None
     \<and> (\<exists>s'. closing_step s s') \<and> (\<exists>s'. closing_step\<^sup>*\<^sup>* s s' \<and> all_returned s')"
proof -
  have "map_option (\<lambda>s. (ps_closers s, ps_stopSweepOnce s, ps_sweepStop s)) (run_moves [Move_call, Move_call, Move_close 0] ex_started)
      = Some ([Cl_stopSweep St_CloseStop, Cl_stopSweep St_Enter], Once_Running, Some False)"
    by code_simp
  then obtain s where s: "run_moves [Move_call, Move_call, Move_close 0] ex_started = Some s"
    "ps_closers s = [Cl_stopSweep St_CloseStop, Cl_stopSweep St_Enter]" "ps_stopSweepOnce s = Once_Running" "ps_sweepStop s = Some False"
    by auto
  have "reachable tracker_started (tracker_step ex_presence_contract) s"
    using run_moves_reachable [OF ex_started_reachable s(1)] .
  moreover have "\<not> all_returned s" "tracker_Close None (ps_closers s ! 1) s = None" using s by (simp_all add: all_returned_def)
  ultimately show ?thesis using close_returns s(1) by blast
qed

end
