(* ===== verification/Signer_Lifetime.thy ===== *)
theory Signer_Lifetime
  imports Auth_Tokens
begin

text \<open>
  The memory of the ML-DSA signer of \<open>src/pkg/pqc/oqs.go\<close>: the object that \<open>OQS_SIG_new\<close> allocates, the pointer
  \<open>o.sig\<close> to it, the calls of \<open>Sign\<close> and \<open>Verify\<close>, which test the pointer and then read it again for the call into the
  library, and \<open>Close\<close>, which tests it, frees the object and clears the pointer.  None of them takes a
  lock.

  A pointer is \<open>None\<close> (nil) or the address of an object.  Reading through nil or through the address of a
  freed object, and freeing an object twice, are faults of the process; \<open>OQS_SIG_free\<close> ignores nil.
\<close>

section \<open>The calls, one access at a time\<close>

datatype fault = Null_dereference | Use_after_free | Double_free

text \<open>The points of a call; \<open>Verify_Check True\<close> is a call with an empty message or signature.\<close>

datatype signer_pc =
    Sign_Check | Verify_Check bool | Use_Load | Use_Call "nat option" | Use_Answered | Use_Refused | Use_False
  | Close_Check | Close_Load | Close_Free "nat option" | Close_Clear | Close_Returned

record signer_sys =
  sg_sig :: "nat option"
  sg_live :: "nat set"
  sg_calls :: "signer_pc list"
  sg_fault :: "fault option"

fun Sign_pc :: "signer_pc \<Rightarrow> signer_sys \<Rightarrow> signer_pc" where
  "Sign_pc Sign_Check s = (if sg_sig s = None then Use_Refused else Use_Load)"
| "Sign_pc Use_Load s = Use_Call (sg_sig s)"
| "Sign_pc (Use_Call p) s = Use_Answered"
| "Sign_pc c s = c"

fun Verify_pc :: "signer_pc \<Rightarrow> signer_sys \<Rightarrow> signer_pc" where
  "Verify_pc (Verify_Check e) s = (if sg_sig s = None then Use_Refused else if e then Use_False else Use_Load)"
| "Verify_pc Use_Load s = Use_Call (sg_sig s)"
| "Verify_pc (Use_Call p) s = Use_Answered"
| "Verify_pc c s = c"

fun Close_pc :: "signer_pc \<Rightarrow> signer_sys \<Rightarrow> signer_pc" where
  "Close_pc Close_Check s = (if sg_sig s = None then Close_Returned else Close_Load)"
| "Close_pc Close_Load s = Close_Free (sg_sig s)"
| "Close_pc (Close_Free p) s = Close_Clear"
| "Close_pc Close_Clear s = Close_Returned"
| "Close_pc c s = c"

definition deref_fault :: "nat option \<Rightarrow> signer_sys \<Rightarrow> fault option" where
  "deref_fault p s = (case p of None \<Rightarrow> Some Null_dereference | Some a \<Rightarrow> if a \<in> sg_live s then None else Some Use_after_free)"

definition free_fault :: "nat option \<Rightarrow> signer_sys \<Rightarrow> fault option" where
  "free_fault p s = (case p of None \<Rightarrow> None | Some a \<Rightarrow> if a \<in> sg_live s then None else Some Double_free)"

text \<open>What a move does to the memory.\<close>

fun signer_effect :: "signer_pc \<Rightarrow> signer_sys \<Rightarrow> signer_sys" where
  "signer_effect (Use_Call p) s = s\<lparr>sg_fault := deref_fault p s\<rparr>"
| "signer_effect (Close_Free p) s = s\<lparr>sg_fault := free_fault p s, sg_live := sg_live s - set_option p\<rparr>"
| "signer_effect Close_Clear s = s\<lparr>sg_sig := None\<rparr>"
| "signer_effect c s = s"

fun signer_ended :: "signer_pc \<Rightarrow> bool" where
  "signer_ended Use_Answered \<longleftrightarrow> True"
| "signer_ended Use_Refused \<longleftrightarrow> True"
| "signer_ended Use_False \<longleftrightarrow> True"
| "signer_ended Close_Returned \<longleftrightarrow> True"
| "signer_ended c \<longleftrightarrow> False"

fun signer_entry :: "signer_pc \<Rightarrow> bool" where
  "signer_entry Sign_Check \<longleftrightarrow> True"
| "signer_entry (Verify_Check e) \<longleftrightarrow> True"
| "signer_entry Close_Check \<longleftrightarrow> True"
| "signer_entry c \<longleftrightarrow> False"

definition signer_pc_next :: "signer_pc \<Rightarrow> signer_sys \<Rightarrow> signer_pc" where
  "signer_pc_next c s = (case c of Sign_Check \<Rightarrow> Sign_pc c s | Close_Check \<Rightarrow> Close_pc c s | Close_Load \<Rightarrow> Close_pc c s
     | Close_Free _ \<Rightarrow> Close_pc c s | Close_Clear \<Rightarrow> Close_pc c s | _ \<Rightarrow> Verify_pc c s)"

definition signer_move :: "nat \<Rightarrow> signer_sys \<Rightarrow> signer_sys" where
  "signer_move i s =
     (let c = sg_calls s ! i in (signer_effect c s)\<lparr>sg_calls := (sg_calls s)[i := signer_pc_next c s]\<rparr>)"

inductive signer_step :: "signer_sys \<Rightarrow> signer_sys \<Rightarrow> bool" where
  call: "sg_fault s = None \<Longrightarrow> signer_entry c \<Longrightarrow> signer_step s (s\<lparr>sg_calls := sg_calls s @ [c]\<rparr>)"
| move: "sg_fault s = None \<Longrightarrow> i < length (sg_calls s) \<Longrightarrow> \<not> signer_ended (sg_calls s ! i) \<Longrightarrow>
    signer_step s (signer_move i s)"

text \<open>The same with calls that do not overlap: one moves only when every other waits at its entry or has ended.\<close>

inductive serial_step :: "signer_sys \<Rightarrow> signer_sys \<Rightarrow> bool" where
  call: "sg_fault s = None \<Longrightarrow> signer_entry c \<Longrightarrow> serial_step s (s\<lparr>sg_calls := sg_calls s @ [c]\<rparr>)"
| move: "sg_fault s = None \<Longrightarrow> i < length (sg_calls s) \<Longrightarrow> \<not> signer_ended (sg_calls s ! i) \<Longrightarrow>
    (\<And>j. j < length (sg_calls s) \<Longrightarrow> j \<noteq> i \<Longrightarrow> signer_entry (sg_calls s ! j) \<or> signer_ended (sg_calls s ! j)) \<Longrightarrow>
    serial_step s (signer_move i s)"

definition signer_created :: "signer_sys \<Rightarrow> bool" where
  "signer_created s \<longleftrightarrow> (\<exists>a. s = \<lparr> sg_sig = Some a, sg_live = {a}, sg_calls = [], sg_fault = None \<rparr>)"

section \<open>Calls that do not overlap are safe\<close>

text \<open>What holds of the memory at each point of the one call under way.\<close>

fun at_point :: "signer_sys \<Rightarrow> signer_pc \<Rightarrow> bool" where
  "at_point s Use_Load \<longleftrightarrow> sg_sig s \<noteq> None \<and> set_option (sg_sig s) \<subseteq> sg_live s"
| "at_point s (Use_Call p) \<longleftrightarrow> p \<noteq> None \<and> p = sg_sig s \<and> set_option p \<subseteq> sg_live s"
| "at_point s Close_Load \<longleftrightarrow> sg_sig s \<noteq> None \<and> set_option (sg_sig s) \<subseteq> sg_live s"
| "at_point s (Close_Free p) \<longleftrightarrow> p = sg_sig s \<and> set_option p \<subseteq> sg_live s"
| "at_point s Close_Clear \<longleftrightarrow> sg_live s = {}"
| "at_point s c \<longleftrightarrow> True"

definition busy :: "signer_pc \<Rightarrow> bool" where
  "busy c \<longleftrightarrow> \<not> signer_entry c \<and> \<not> signer_ended c"

definition point_ok :: "signer_sys \<Rightarrow> signer_pc \<Rightarrow> bool" where
  "point_ok s c \<longleftrightarrow> sg_fault s = None \<and> sg_live s \<subseteq> set_option (sg_sig s)
     \<and> (c \<noteq> Close_Clear \<longrightarrow> set_option (sg_sig s) \<subseteq> sg_live s) \<and> (busy c \<longrightarrow> at_point s c)"

definition others_idle :: "nat \<Rightarrow> signer_pc list \<Rightarrow> bool" where
  "others_idle i cs \<longleftrightarrow> (\<forall>j < length cs. j \<noteq> i \<longrightarrow> \<not> busy (cs ! j))"

definition serial_inv :: "signer_sys \<Rightarrow> bool" where
  "serial_inv s \<longleftrightarrow>
     (\<exists>i < length (sg_calls s). busy (sg_calls s ! i) \<and> others_idle i (sg_calls s) \<and> point_ok s (sg_calls s ! i))
   \<or> (\<forall>c \<in> set (sg_calls s). \<not> busy c) \<and> sg_fault s = None \<and> sg_live s = set_option (sg_sig s)"

lemma point_ok_calls [simp]: "point_ok (s\<lparr>sg_calls := cs\<rparr>) c = point_ok s c"
proof -
  have "at_point (s\<lparr>sg_calls := cs\<rparr>) c = at_point s c" by (cases c) simp_all
  then show ?thesis by (simp add: point_ok_def)
qed

text \<open>One move from a good memory: the memory is good again at the point reached.\<close>

lemma serial_move:
  assumes "point_ok s c" and "\<not> signer_ended c"
  shows "point_ok (signer_effect c s) (signer_pc_next c s)"
  using assms
  by (cases c) (auto simp: point_ok_def signer_pc_next_def busy_def deref_fault_def free_fault_def split: option.splits)

lemma serial_inv_move:
  assumes "serial_inv s" and "i < length (sg_calls s)" and "\<not> signer_ended (sg_calls s ! i)" and "others_idle i (sg_calls s)"
  shows "serial_inv (signer_move i s)"
proof -
  let ?c = "sg_calls s ! i" and ?s = "signer_effect (sg_calls s ! i) s" and ?c' = "signer_pc_next (sg_calls s ! i) s"
  have ok: "point_ok s ?c"
  proof (cases "busy ?c")
    case True
    then have "point_ok s (sg_calls s ! j)" if "j < length (sg_calls s)" "busy (sg_calls s ! j)" for j
      using assms(1,2,4) that unfolding serial_inv_def others_idle_def by (metis nth_mem)
    with True assms(2) show ?thesis by blast
  next
    case False
    then have "\<not> busy c" if "c \<in> set (sg_calls s)" for c
      using assms(4) that unfolding others_idle_def by (metis in_set_conv_nth)
    then have "sg_fault s = None \<and> sg_live s = set_option (sg_sig s)"
      using assms(1) nth_mem unfolding serial_inv_def by blast
    with False show ?thesis by (simp add: point_ok_def)
  qed
  have new: "point_ok ?s ?c'" using serial_move [OF ok assms(3)] .
  have idle: "others_idle i ((sg_calls s)[i := ?c'])" using assms(4) by (simp add: others_idle_def)
  show ?thesis
  proof (cases "busy ?c'")
    case True
    then show ?thesis using new idle assms(2) unfolding serial_inv_def signer_move_def Let_def
      by (intro disjI1 exI [of _ i]) simp
  next
    case False
    have "\<not> busy c" if "c \<in> set ((sg_calls s)[i := ?c'])" for c
      using that idle False assms(2) unfolding others_idle_def by (metis in_set_conv_nth length_list_update nth_list_update_eq)
    moreover have "?c' \<noteq> Close_Clear" using False by (auto simp: busy_def)
    ultimately show ?thesis using new unfolding serial_inv_def signer_move_def Let_def by (intro disjI2) (auto simp: point_ok_def)
  qed
qed

lemma serial_inv_call:
  assumes "serial_inv s" and "signer_entry c"
  shows "serial_inv (s\<lparr>sg_calls := sg_calls s @ [c]\<rparr>)"
proof -
  have n: "\<not> busy c" using assms(2) by (simp add: busy_def)
  have "serial_inv (s\<lparr>sg_calls := sg_calls s @ [c]\<rparr>)"
    if "i < length (sg_calls s)" "busy (sg_calls s ! i)" "others_idle i (sg_calls s)" "point_ok s (sg_calls s ! i)" for i
    using that n unfolding serial_inv_def by (intro disjI1 exI [of _ i]) (simp add: nth_append others_idle_def)
  then show ?thesis using assms(1) n unfolding serial_inv_def by auto
qed

interpretation serial: invariant_of signer_created serial_step serial_inv
proof
  show "signer_created s \<Longrightarrow> serial_inv s" for s by (auto simp: signer_created_def serial_inv_def)
  fix s s' assume i: "serial_inv s" and "serial_step s s'"
  from this(2) show "serial_inv s'"
  proof cases
    case (move k)
    then have "others_idle k (sg_calls s)" by (auto simp: others_idle_def busy_def)
    with move i show ?thesis by (simp add: serial_inv_move)
  qed (simp add: i serial_inv_call)
qed

section \<open>A call that runs alone is the signer of the token service\<close>

text \<open>The signer of \<open>Auth_Tokens\<close> keeps of the pointer whether it is nil.\<close>

fun alone :: "nat \<Rightarrow> signer_pc \<Rightarrow> signer_sys \<Rightarrow> signer_pc \<times> signer_sys" where
  "alone 0 c s = (c, s)"
| "alone (Suc n) c s = (if signer_ended c then (c, s) else alone n (signer_pc_next c s) (signer_effect c s))"

definition open_signer :: "MLDSA \<Rightarrow> signer_sys \<Rightarrow> bool" where
  "open_signer m s \<longleftrightarrow> ml_sig m = (sg_sig s \<noteq> None) \<and> sg_live s = set_option (sg_sig s) \<and> sg_fault s = None"

lemma Verify_alone:
  assumes "open_signer m s"
  shows "fst (alone 3 (Verify_Check (sig = [] \<or> msg = [])) s) =
      (case MLDSA_Verify K m msg sig of Inl _ \<Rightarrow> Use_Refused | Inr ok \<Rightarrow> if sig = [] \<or> msg = [] then Use_False else Use_Answered)
    \<and> open_signer m (snd (alone 3 (Verify_Check (sig = [] \<or> msg = [])) s))"
  using assms by (cases "sg_sig s")
    (simp_all add: open_signer_def MLDSA_Verify_def signer_pc_next_def numeral_3_eq_3 deref_fault_def)

lemma Close_alone:
  assumes "open_signer m s"
  shows "fst (alone 4 Close_Check s) = Close_Returned \<and> open_signer (MLDSA_Close m) (snd (alone 4 Close_Check s))"
  using assms by (cases "sg_sig s")
    (simp_all add: open_signer_def MLDSA_Close_def signer_pc_next_def eval_nat_numeral free_fault_def)

section \<open>Properties\<close>

text \<open>
  C21: as long as the calls of \<open>Sign\<close>, \<open>Verify\<close> and \<open>Close\<close> do not overlap, in whatever order they come and however
  often, the process never reads through nil or a freed object and never frees one twice; and
  when no call is under way, the object is allocated exactly while the pointer is set.
\<close>

theorem signer_serial_safe:
  assumes "reachable signer_created serial_step s"
  shows "sg_fault s = None \<and> ((\<forall>c \<in> set (sg_calls s). \<not> busy c) \<longrightarrow> sg_live s = set_option (sg_sig s))"
proof -
  have i: "serial_inv s" using assms by (rule serial.inv_reachable)
  show ?thesis
  proof (cases "\<forall>c \<in> set (sg_calls s). \<not> busy c")
    case True
    then show ?thesis using i nth_mem unfolding serial_inv_def by blast
  next
    case False
    then show ?thesis using i by (auto simp: serial_inv_def point_ok_def)
  qed
qed

text \<open>Runs by schedule: a new call, or the next access of a call.\<close>

datatype signer_event = Ev_call signer_pc | Ev_access nat

fun signer_do :: "signer_event \<Rightarrow> signer_sys \<Rightarrow> signer_sys option" where
  "signer_do (Ev_call c) s =
     (if sg_fault s = None \<and> signer_entry c then Some (s\<lparr>sg_calls := sg_calls s @ [c]\<rparr>) else None)"
| "signer_do (Ev_access i) s =
     (if sg_fault s = None \<and> i < length (sg_calls s) \<and> \<not> signer_ended (sg_calls s ! i) then Some (signer_move i s) else None)"

fun run_calls :: "signer_event list \<Rightarrow> signer_sys \<Rightarrow> signer_sys option" where
  "run_calls [] s = Some s"
| "run_calls (e # es) s = Option.bind (signer_do e s) (run_calls es)"

lemma run_calls_reachable:
  "reachable signer_created signer_step s \<Longrightarrow> run_calls es s = Some s' \<Longrightarrow> reachable signer_created signer_step s'"
proof (induction es arbitrary: s)
  case (Cons e es)
  then obtain t where t: "signer_do e s = Some t" "run_calls es t = Some s'" by (auto simp: bind_eq_Some_conv)
  have "signer_step s t" using t(1) by (cases e) (auto split: if_splits intro: signer_step.intros)
  then show ?case using Cons.IH t(2) reachable.move [OF Cons.prems(1)] by blast
qed simp

definition ex_signer :: signer_sys where
  "ex_signer = \<lparr> sg_sig = Some 0, sg_live = {0}, sg_calls = [], sg_fault = None \<rparr>"

lemma ex_signer_created: "signer_created ex_signer"
  by (simp add: signer_created_def ex_signer_def)

theorem signer_serial_safe_witness:
  "\<exists>s. reachable signer_created serial_step s \<and> sg_calls s = [Close_Load] \<and> busy Close_Load \<and> sg_fault s = None"
proof -
  let ?s = "ex_signer\<lparr>sg_calls := [Close_Check]\<rparr>"
  have "serial_step ex_signer ?s" using serial_step.call [of ex_signer Close_Check] by (simp add: ex_signer_def)
  then have r: "reachable signer_created serial_step ?s"
    using reachable.move reachable.start ex_signer_created by metis
  have "serial_step ?s (signer_move 0 ?s)" by (rule serial_step.move) (simp_all add: ex_signer_def)
  with r have r': "reachable signer_created serial_step (signer_move 0 ?s)" by (rule reachable.move)
  have "sg_calls (signer_move 0 ?s) = [Close_Load]" by (simp add: signer_move_def signer_pc_next_def ex_signer_def)
  with r' signer_serial_safe [OF r'] show ?thesis by (auto simp: busy_def)
qed

text \<open>
  Calls that overlap are not safe: a \<open>Verify\<close> that has passed its test, and then a whole \<open>Close\<close>, reads through
  the nil pointer; when it had read the pointer too, it reads the freed object; and two calls of \<open>Close\<close> free the
  object twice.
\<close>

definition races :: "fault \<Rightarrow> bool" where
  "races f \<longleftrightarrow> (\<exists>s. reachable signer_created signer_step s \<and> sg_fault s = Some f)"

lemma racesI:
  assumes "map_option sg_fault (run_calls es ex_signer) = Some (Some f)"
  shows "races f"
proof -
  obtain s where s: "run_calls es ex_signer = Some s" "sg_fault s = Some f" using assms by auto
  have "reachable signer_created signer_step s"
    using run_calls_reachable [OF reachable.start s(1)] ex_signer_created by blast
  with s(2) show ?thesis by (auto simp: races_def)
qed

lemma signer_race: "races Null_dereference" "races Use_after_free" "races Double_free"
proof -
  let ?v = "[Ev_call (Verify_Check False), Ev_call Close_Check]"
  have "map_option sg_fault (run_calls (?v @ [Ev_access 0, Ev_access 1, Ev_access 1, Ev_access 1, Ev_access 1, Ev_access 0, Ev_access 0]) ex_signer)
      = Some (Some Null_dereference)"
    by code_simp
  then show "races Null_dereference" by (rule racesI)
  have "map_option sg_fault (run_calls (?v @ [Ev_access 0, Ev_access 0, Ev_access 1, Ev_access 1, Ev_access 1, Ev_access 0]) ex_signer)
      = Some (Some Use_after_free)"
    by code_simp
  then show "races Use_after_free" by (rule racesI)
  have "map_option sg_fault (run_calls [Ev_call Close_Check, Ev_call Close_Check, Ev_access 0, Ev_access 0, Ev_access 1, Ev_access 1,
      Ev_access 0, Ev_access 1] ex_signer) = Some (Some Double_free)"
    by code_simp
  then show "races Double_free" by (rule racesI)
qed

end
