(* ===== verification/Service_Shutdown.thy ===== *)
theory Service_Shutdown
  imports Request_Path Presence_Shutdown Signer_Lifetime
begin

text \<open>
  Listening and the graceful shutdown: \<open>Start\<close> and \<open>Shutdown\<close> of \<open>src/internal/app/container.go\<close>, with \<open>Close\<close> of
  \<open>src/internal/service/auth.go\<close> and \<open>src/pkg/nats/nats.go\<close> and \<open>Shutdown\<close> of \<open>src/pkg/postgres/postgres.go\<close>, started
  by the signal goroutine of \<open>src/cmd/server/main.go\<close>.

  \<open>Shutdown\<close> runs beside the requests that are still served and beside the presence tracker, so its
  statements are steps, interleaved with those of the tracker; the session service that the
  middleware of a request consults is the one of the state at that time.  The calls into the drivers and into
  Fiber are arguments.
\<close>

section \<open>The statements of \<open>Shutdown\<close>\<close>

text \<open>\<open>Close\<close> of the broker connection: whether the client is still open after it.\<close>

definition nats_Close :: "('c, 'j) natsConnection \<Rightarrow> bool \<Rightarrow> bool" where
  "nats_Close nc opened = (if nc_conn nc \<noteq> None then False else opened)"

text \<open>
  \<open>Shutdown\<close> of the database connection: what it logs as errors and whether the pool is still open after it; no
  result is the use of a nil pointer.
\<close>

record 'g sql_driver =
  sd_DB :: "'g \<Rightarrow> unit result"
  sd_Close :: "'g \<Rightarrow> goerr option"

definition postgres_Shutdown :: "'g sql_driver \<Rightarrow> 'g postgreSQLConnection \<Rightarrow> bool \<Rightarrow> (string list \<times> bool) option" where
  "postgres_Shutdown D c opened =
     (case pg_db c of
        None \<Rightarrow> None
      | Some db \<Rightarrow>
          (case sd_DB D db of
             Inl err \<Rightarrow> Some ([''Failed to get database connection for shutdown''], opened)
           | Inr _ \<Rightarrow>
               (case sd_Close D db of
                  Some err \<Rightarrow> Some ([''Failed to close database connection''], opened)
                | None \<Rightarrow> Some ([], False))))"

definition server_addr :: "viper \<Rightarrow> string" where
  "server_addr V = vp_GetString V ServerHost @ '':'' @ vp_GetString V ServerPort"

datatype shutdown_pc =
    Sd_Running | Sd_presence | Sd_waiting nat | Sd_auth | Sd_nats | Sd_db | Sd_app | Sd_Returned "goerr option" | Sd_Panicked

record 'r service =
  sc_presence :: "'r presence_sys option"
  sc_auth :: "AuthService option"
  sc_nats :: "(unit, unit) natsConnection option"
  sc_nats_open :: bool
  sc_db :: "unit postgreSQLConnection option"
  sc_db_open :: bool
  sc_redis_open :: bool
  sc_listening :: bool
  sc_pc :: shutdown_pc

text \<open>The part of the container that \<open>Shutdown\<close> reads, while the server listens.\<close>

definition listening :: "Container \<Rightarrow> 'r presence_sys \<Rightarrow> 'r service" where
  "listening c p =
     \<lparr> sc_presence = Some p, sc_auth = Some (sv_AuthService (ct_services c)), sc_nats = Some (ct_NATSConn c), sc_nats_open = True,
       sc_db = Some (ct_DB c), sc_db_open = True, sc_redis_open = True, sc_listening = True, sc_pc = Sd_Running \<rparr>"

text \<open>\<open>Listen\<close> fails at once, or the server listens from then on.\<close>

definition Start :: "viper \<Rightarrow> (string \<Rightarrow> goerr option) \<Rightarrow> Container \<Rightarrow> 'r presence_sys \<Rightarrow> 'r service result" where
  "Start V Listen c p =
     (let addr = server_addr V in
      case Listen addr of Some err \<Rightarrow> Inl err | None \<Rightarrow> Inr (listening c p))"

fun Shutdown :: "unit sql_driver \<Rightarrow> goerr option \<Rightarrow> shutdown_pc \<Rightarrow> 'r service \<Rightarrow> 'r service option" where
  "Shutdown D err Sd_presence s =
     (case sc_presence s of
        None \<Rightarrow> Some (s\<lparr>sc_pc := Sd_auth\<rparr>)
      | Some p \<Rightarrow> Some (s\<lparr>sc_presence := Some (p\<lparr>ps_closers := ps_closers p @ [Cl_stopSweep St_Enter]\<rparr>),
                       sc_pc := Sd_waiting (length (ps_closers p))\<rparr>))"
| "Shutdown D err (Sd_waiting i) s =
     (case sc_presence s of
        None \<Rightarrow> None
      | Some p \<Rightarrow> if i < length (ps_closers p) \<and> close_rank (ps_closers p ! i) = 7 then Some (s\<lparr>sc_pc := Sd_auth\<rparr>) else None)"
| "Shutdown D err Sd_auth s = Some (s\<lparr>sc_auth := map_option Auth_Close (sc_auth s), sc_pc := Sd_nats\<rparr>)"
| "Shutdown D err Sd_nats s =
     Some (s\<lparr>sc_nats_open := (case sc_nats s of None \<Rightarrow> sc_nats_open s | Some nc \<Rightarrow> nats_Close nc (sc_nats_open s)), sc_pc := Sd_db\<rparr>)"
| "Shutdown D err Sd_db s =
     (case sc_db s of
        None \<Rightarrow> Some (s\<lparr>sc_pc := Sd_app\<rparr>)
      | Some db \<Rightarrow>
          (case postgres_Shutdown D db (sc_db_open s) of
             None \<Rightarrow> Some (s\<lparr>sc_pc := Sd_Panicked\<rparr>)
           | Some (_, opened) \<Rightarrow> Some (s\<lparr>sc_db_open := opened, sc_pc := Sd_app\<rparr>)))"
| "Shutdown D err Sd_app s = Some (s\<lparr>sc_listening := False, sc_pc := Sd_Returned err\<rparr>)"
| "Shutdown D err pc s = None"

text \<open>
  The signal goroutine receives once; the tracker goes on by itself, and nothing moves after a panic.
\<close>

inductive shutdown_step :: "presence_contract \<Rightarrow> unit sql_driver \<Rightarrow> 'r service \<Rightarrow> 'r service \<Rightarrow> bool" for K D where
  signal: "sc_pc s = Sd_Running \<Longrightarrow> shutdown_step K D s (s\<lparr>sc_pc := Sd_presence\<rparr>)"
| statement: "Shutdown D err (sc_pc s) s = Some s' \<Longrightarrow> shutdown_step K D s s'"
| tracker: "sc_pc s \<noteq> Sd_Panicked \<Longrightarrow> sc_presence s = Some p \<Longrightarrow> tracker_step K p p' \<Longrightarrow> shutdown_step K D s (s\<lparr>sc_presence := Some p'\<rparr>)"

text \<open>
  A service that has started: \<open>NewContainer\<close> answered the container and the constructor of the tracker, with the same
  subscriptions, the tracker, and the server listens.
\<close>

definition subjects_of :: "'r container_env \<Rightarrow> presence_subjects" where
  "subjects_of E = \<lparr> psu_Presence = ce_SubjectPresence E, psu_HeartbeatTLS = ce_SubjectHeartbeatTLS E,
     psu_HeartbeatWallet = ce_SubjectHeartbeatWallet E \<rparr>"

definition service_started :: "'r service \<Rightarrow> bool" where
  "service_started s \<longleftrightarrow>
     (\<exists>(E :: 'r container_env) fuel m d c m' d' R r p ev Listen. NewContainer E fuel m d = Some (Inr c, m', d')
        \<and> start_tracker (ce_Subscribe E) (subjects_of E) (Some R) r = (Inr p, ev) \<and> Start (ce_viper E) Listen c p = Inr s)"

section \<open>What the container provides\<close>

lemma presence_subscriptions_tracker:
  "presence_subscriptions E =
     (case fst (start_tracker (ce_Subscribe E) (subjects_of E) (Some R) r) of Inl err \<Rightarrow> Some err | Inr _ \<Rightarrow> None)"
  by (simp add: presence_subscriptions_def start_tracker_def subjects_of_def Let_def split: option.split)

lemma open_connections_connected:
  "open_connections E = Inr (db, nc) \<Longrightarrow> pg_db db \<noteq> None \<and> nc_conn nc \<noteq> None"
  by (auto simp: open_connections_def Run_def nats_New_def rbind_eq_Inr_iff Let_def split: sum.splits option.splits prod.splits)

lemma NewContainer_connected:
  assumes "NewContainer E fuel m d = Some (Inr c, m', d')"
  shows "pg_db (ct_DB c) \<noteq> None \<and> nc_conn (ct_NATSConn c) \<noteq> None \<and> presence_subscriptions E = None"
proof -
  have o: "open_connections E = Inr (ct_DB c, ct_NATSConn c)" and b: "build_services E = Inr (ct_services c)"
    using assms by (auto simp: NewContainer_def split: sum.splits option.splits prod.splits)
  have "presence_subscriptions E = None"
    using b by (auto simp: build_services_def Let_def rbind_eq_Inr_iff split: if_splits option.splits)
  with open_connections_connected [OF o] show ?thesis by simp
qed

text \<open>After \<open>Close\<close> of the session service no token is issued and none is accepted.\<close>

definition keys_closed :: "AuthService \<Rightarrow> bool" where
  "keys_closed a \<longleftrightarrow> (\<forall>k. as_keys a = Some k \<longrightarrow> \<not> ml_sig (keys_pqc k))"

lemma keys_closed_Auth_Close [simp]: "keys_closed (Auth_Close a)"
  by (auto simp: keys_closed_def Auth_Close_def MLDSA_Close_def)

lemma signatures_closed:
  assumes "\<not> ml_sig (keys_pqc k)" and "signatures_loop K k payload sigs edOK False = Inr (e, p)"
  shows "\<not> p"
  using assms(2)
proof (induction sigs arbitrary: edOK)
  case (Cons sig sigs)
  obtain ev pv where v: "verifySignature K k sig payload = Inr (ev, pv)"
    "signatures_loop K k payload sigs (ev \<or> edOK) (pv \<or> False) = Inr (e, p)"
    using Cons.prems by (auto split: sum.splits)
  have "\<not> pv" using v(1) assms(1) by (auto simp: verifySignature_def MLDSA_Verify_def Let_def rbind_eq_Inr_iff split: if_splits)
  with v(2) Cons.IH show ?case by simp
qed simp

lemma ValidateToken_closed:
  assumes "keys_closed a"
  shows "\<exists>err. ValidateToken K a now tok = Inl err"
proof (cases "ValidateToken K a now tok")
  case (Inr cl)
  then obtain k and obj :: jwsJSON where "as_keys a = Some k" "signatures_loop K k (jws_Payload obj) (jws_Signatures obj) False False = Inr (True, True)"
    by (auto simp: ValidateToken_def verifyHybridJWT_def rbind_eq_Inr_iff split: option.splits if_splits)
  then show ?thesis using signatures_closed assms unfolding keys_closed_def by blast
qed blast

lemma generateToken_closed:
  assumes "keys_closed a"
  shows "\<exists>err. generateToken K rnd a now uid email = Inl err"
proof (cases "generateToken K rnd a now uid email")
  case (Inr t)
  then show ?thesis using assms
    by (auto simp: generateToken_def mintHybridJWT_def MLDSA_Sign_def keys_closed_def Let_def rbind_eq_Inr_iff
        split: option.splits sum.splits if_splits)
qed blast

lemma signed_in_closed: "keys_closed a \<Longrightarrow> \<not> signed_in K a now c"
  by (metis Inl_Inr_False ValidateToken_closed signed_in_def)

text \<open>
  A registration that comes while the shutdown is under way is half done: the account is stored, the answer is an error,
  and the address is taken from then on.
\<close>

lemma signup_half_done:
  assumes "db_faults d = []" and "active_plans PlanTypeFree d \<noteq> []" and "signup_form A req d" and "keys_closed a"
  shows "\<exists>err r. Signup A a req d = (Inl (ErrWrap ''failed to generate token'' err), d\<lparr>db_users := db_users d @ [r]\<rparr>)
    \<and> user_Email r = su_Email req"
proof -
  obtain err where "generateToken (ae_pkg A) (ae_rnd A) a (Auth_Service.ae_now A) (ae_fresh A) (su_Email req) = Inl err"
    using generateToken_closed [OF assms(4)] by blast
  with Signup_form [OF assms(1-3), of a] show ?thesis by auto
qed

section \<open>The invariant\<close>

fun shutdown_rank :: "shutdown_pc \<Rightarrow> nat" where
  "shutdown_rank Sd_Running = 0"
| "shutdown_rank Sd_presence = 1"
| "shutdown_rank (Sd_waiting i) = 2"
| "shutdown_rank Sd_auth = 3"
| "shutdown_rank Sd_nats = 4"
| "shutdown_rank Sd_db = 5"
| "shutdown_rank Sd_app = 6"
| "shutdown_rank (Sd_Returned e) = 7"
| "shutdown_rank Sd_Panicked = 8"

definition db_closes :: "unit sql_driver \<Rightarrow> bool" where
  "db_closes D \<longleftrightarrow> (\<exists>x. sd_DB D () = Inr x) \<and> sd_Close D () = None"

definition service_inv :: "unit sql_driver \<Rightarrow> 'r service \<Rightarrow> bool" where
  "service_inv D s \<longleftrightarrow> sc_pc s \<noteq> Sd_Panicked
     \<and> (\<exists>p. sc_presence s = Some p \<and> shutdown_inv p
          \<and> (\<forall>i. sc_pc s = Sd_waiting i \<longrightarrow> i < length (ps_closers p))
          \<and> (3 \<le> shutdown_rank (sc_pc s) \<longrightarrow> (\<exists>r. Cl_Returned r \<in> set (ps_closers p))))
     \<and> (\<exists>a. sc_auth s = Some a \<and> (4 \<le> shutdown_rank (sc_pc s) \<longrightarrow> keys_closed a))
     \<and> (\<exists>nc. sc_nats s = Some nc \<and> nc_conn nc \<noteq> None) \<and> (5 \<le> shutdown_rank (sc_pc s) \<longrightarrow> \<not> sc_nats_open s)
     \<and> (\<exists>db. sc_db s = Some db \<and> pg_db db \<noteq> None) \<and> (6 \<le> shutdown_rank (sc_pc s) \<longrightarrow> db_closes D \<longrightarrow> \<not> sc_db_open s)
     \<and> (sc_listening s \<longleftrightarrow> shutdown_rank (sc_pc s) < 7)"

lemma rank_7: "close_rank c = 7 \<longleftrightarrow> (\<exists>r. c = Cl_Returned r)"
  by (cases c rule: close_rank.cases) auto

text \<open>The calls of \<open>Close\<close> on the tracker are only added to, and one that has returned stays so.\<close>

lemma tracker_closers:
  assumes "tracker_step K p p'"
  shows "length (ps_closers p) \<le> length (ps_closers p')
    \<and> (i < length (ps_closers p) \<longrightarrow> close_rank (ps_closers p ! i) = 7 \<longrightarrow> ps_closers p' ! i = ps_closers p ! i)"
proof -
  have c: "ps_closers t = ps_closers s" if "tracker_Close err c s = Some (c', t)" for err c s c' and t :: "'a presence_sys"
  proof (cases c)
    case (Cl_stopSweep q)
    then show ?thesis using that
      by (cases q) (auto simp: sweepStop_closed_def split: if_splits once_state.splits)
  qed (use that in auto)
  have w: "ps_closers t = ps_closers s" if "runWalletSweep q x s = Some t" for q x s and t :: "'a presence_sys"
    using that by (cases q; cases x) (auto simp: sweepDone_closed_def split: if_splits)
  from assms show ?thesis
  proof cases
    case closing
    then show ?thesis
    proof cases
      case (close j err cp t)
      then have "close_rank (ps_closers p ! j) \<noteq> 7" by (auto simp: rank_7)
      then show ?thesis using close(1) c [OF close(4)] by (cases "i = j") auto
    qed (simp add: w)
  qed (simp_all add: w nth_append)
qed

lemma service_inv_tracker:
  assumes "service_inv D s" and "sc_presence s = Some p" and "tracker_step K p p'"
  shows "service_inv D (s\<lparr>sc_presence := Some p'\<rparr>)"
proof -
  have i: "shutdown_inv p" "\<And>i. sc_pc s = Sd_waiting i \<Longrightarrow> i < length (ps_closers p)"
    "3 \<le> shutdown_rank (sc_pc s) \<Longrightarrow> \<exists>r. Cl_Returned r \<in> set (ps_closers p)"
    using assms(1,2) by (auto simp: service_inv_def)
  have "Cl_Returned r \<in> set (ps_closers p')" if m: "Cl_Returned r \<in> set (ps_closers p)" for r
  proof -
    obtain j where "j < length (ps_closers p)" "ps_closers p ! j = Cl_Returned r" using m unfolding in_set_conv_nth by blast
    then show ?thesis using tracker_closers [OF assms(3), of j] nth_mem [of j "ps_closers p'"] by simp
  qed
  moreover have "length (ps_closers p) \<le> length (ps_closers p')" using tracker_closers [OF assms(3)] by blast
  moreover have "shutdown_inv p'" using shutdown.inv_step [OF i(1) assms(3)] .
  ultimately have "\<exists>q. Some p' = Some q \<and> shutdown_inv q \<and> (\<forall>i. sc_pc s = Sd_waiting i \<longrightarrow> i < length (ps_closers q))
    \<and> (3 \<le> shutdown_rank (sc_pc s) \<longrightarrow> (\<exists>r. Cl_Returned r \<in> set (ps_closers q)))"
    using i(2,3) less_le_trans by (intro exI [of _ p']) blast
  then show ?thesis using assms(1) by (simp add: service_inv_def)
qed

lemma service_inv_statement:
  assumes "service_inv D s" and "Shutdown D err (sc_pc s) s = Some s'"
  shows "service_inv D s'"
proof -
  obtain p a nc db where s: "sc_presence s = Some p" "sc_auth s = Some a" "sc_nats s = Some nc" "nc_conn nc \<noteq> None"
    "sc_db s = Some db" "pg_db db = Some ()" and i: "shutdown_inv p"
    using assms(1) by (auto simp: service_inv_def)
  note inv = assms(1) [unfolded service_inv_def] and frame = service_inv_def s
  show ?thesis
  proof (cases "sc_pc s")
    case Sd_presence
    then show ?thesis using assms(2) inv s shutdown_inv_call [OF i] by (auto simp: frame)
  next
    case (Sd_waiting k)
    then have "k < length (ps_closers p)" "\<exists>r. ps_closers p ! k = Cl_Returned r"
      using assms(2) s by (auto simp: rank_7 split: if_splits)
    then have "\<exists>r. Cl_Returned r \<in> set (ps_closers p)" by (metis nth_mem)
    then show ?thesis using Sd_waiting assms(2) inv s by (auto simp: frame split: if_splits)
  next
    case Sd_auth
    then show ?thesis using assms(2) inv s by (auto simp: frame)
  next
    case Sd_nats
    then show ?thesis using assms(2) inv s by (auto simp: frame nats_Close_def)
  next
    case Sd_db
    then show ?thesis using assms(2) inv s
      by (auto simp: frame postgres_Shutdown_def db_closes_def split: sum.splits option.splits)
  next
    case Sd_app
    then show ?thesis using assms(2) inv s by (auto simp: frame)
  qed (use assms(2) in auto)
qed

interpretation service: invariant_of service_started "shutdown_step K D" "service_inv D"
  for K D
proof
  fix s :: "'a service"
  show "service_started s \<Longrightarrow> service_inv D s"
    using NewContainer_connected shutdown_inv_start
    by (fastforce simp: service_started_def service_inv_def Start_def listening_def split: option.splits)
  fix s' assume i: "service_inv D s" and "shutdown_step K D s s'"
  from this(2) show "service_inv D s'"
  proof cases
    case signal
    then show ?thesis using i by (auto simp: service_inv_def)
  qed (simp_all add: i service_inv_statement [OF i] service_inv_tracker [OF i])
qed

section \<open>Progress\<close>

lemma closing_lifts:
  assumes "closing_step\<^sup>*\<^sup>* p p'" and "sc_presence s = Some p" and "sc_pc s \<noteq> Sd_Panicked"
  shows "(shutdown_step K D)\<^sup>*\<^sup>* s (s\<lparr>sc_presence := Some p'\<rparr>)"
  using assms(1)
proof (induction rule: rtranclp_induct)
  case base
  have "s\<lparr>sc_presence := Some p\<rparr> = s" using assms(2) by simp
  then show ?case by simp
next
  case (step q q')
  have "shutdown_step K D (s\<lparr>sc_presence := Some q\<rparr>) (s\<lparr>sc_presence := Some q\<rparr>\<lparr>sc_presence := Some q'\<rparr>)"
    using step(2) assms(3) by (intro shutdown_step.tracker [of _ q]) (simp_all add: tracker_step.closing)
  with step(3) show ?case by simp
qed

lemma postgres_Shutdown_ends: "pg_db c \<noteq> None \<Longrightarrow> postgres_Shutdown D c opened \<noteq> None"
  by (auto simp: postgres_Shutdown_def split: sum.splits option.splits)

lemma shutdown_advances:
  assumes "service_inv D s" and "sc_pc s \<noteq> Sd_Running" and "\<nexists>e. sc_pc s = Sd_Returned e"
  shows "\<exists>s'. (shutdown_step K D)\<^sup>*\<^sup>* s s' \<and> shutdown_rank (sc_pc s) < shutdown_rank (sc_pc s')"
proof -
  obtain p db where s: "sc_presence s = Some p" "sc_db s = Some db" "pg_db db = Some ()" and i: "shutdown_inv p"
    and np: "sc_pc s \<noteq> Sd_Panicked"
    using assms(1) by (auto simp: service_inv_def)
  have one: ?thesis if "\<exists>s'. Shutdown D None (sc_pc s) s = Some s' \<and> shutdown_rank (sc_pc s) < shutdown_rank (sc_pc s')"
    using that shutdown_step.statement r_into_rtranclp by metis
  show ?thesis
  proof (cases "sc_pc s")
    case (Sd_waiting k)
    obtain p' where p': "closing_step\<^sup>*\<^sup>* p p'" "all_returned p'" using closing_completes [OF i] by blast
    let ?s = "s\<lparr>sc_presence := Some p'\<rparr>"
    have r: "(shutdown_step K D)\<^sup>*\<^sup>* s ?s" using closing_lifts [OF p'(1) s(1) np] .
    then have "service_inv D ?s" using service.inv_star assms(1) by blast
    then have "k < length (ps_closers p')" using Sd_waiting by (simp add: service_inv_def)
    then have "Shutdown D None (sc_pc ?s) ?s = Some (?s\<lparr>sc_pc := Sd_auth\<rparr>)"
      using p'(2) Sd_waiting by (simp add: all_returned_def)
    from rtranclp.rtrancl_into_rtrancl [OF r shutdown_step.statement [OF this]] Sd_waiting show ?thesis
      by (intro exI [of _ "?s\<lparr>sc_pc := Sd_auth\<rparr>"]) simp
  next
    case Sd_db
    obtain logs opened where "postgres_Shutdown D db (sc_db_open s) = Some (logs, opened)"
      using postgres_Shutdown_ends [of db D "sc_db_open s"] s(3) by auto
    then show ?thesis using s Sd_db by (intro one) simp
  next
    case Sd_presence
    then show ?thesis using s by (intro one) simp
  next
    case Sd_auth
    then show ?thesis by (intro one) simp
  next
    case Sd_nats
    then show ?thesis by (intro one) simp
  next
    case Sd_app
    then show ?thesis by (intro one) simp
  qed (use assms(2,3) np in blast)+
qed

lemma shutdown_finishes:
  assumes "service_inv D s" and "sc_pc s \<noteq> Sd_Running"
  shows "\<exists>s' e. (shutdown_step K D)\<^sup>*\<^sup>* s s' \<and> sc_pc s' = Sd_Returned e"
  using assms
proof (induction "8 - shutdown_rank (sc_pc s)" arbitrary: s rule: less_induct)
  case less
  show ?case
  proof (cases "\<exists>e. sc_pc s = Sd_Returned e")
    case False
    then obtain t where t: "(shutdown_step K D)\<^sup>*\<^sup>* s t" "shutdown_rank (sc_pc s) < shutdown_rank (sc_pc t)"
      using shutdown_advances [OF less.prems] by blast
    have i: "service_inv D t" using service.inv_star [OF t(1) less.prems(1)] .
    have "shutdown_rank (sc_pc t) \<le> 8" by (cases "sc_pc t") simp_all
    then have "8 - shutdown_rank (sc_pc t) < 8 - shutdown_rank (sc_pc s)" "sc_pc t \<noteq> Sd_Running" using t(2) by auto
    from less.hyps [OF this(1) i this(2)] t(1) show ?thesis by (meson rtranclp_trans)
  qed blast
qed

section \<open>Properties\<close>

text \<open>
  C7: the shutdown fails closed.  From the moment \<open>Shutdown\<close> has closed the session service, and whatever is still
  served, no token is accepted or issued, and a request runs only a handler that needs no session: every
  request to a signed-in route is answered without its handler, and nothing but the metrics
  changes.
\<close>

theorem shutdown_fails_closed:
  assumes "fiber_ok F" and "reachable service_started (shutdown_step K D) s" and "4 \<le> shutdown_rank (sc_pc s)"
  shows "\<exists>a. sc_auth s = Some a
    \<and> (\<forall>A now tok. isl (ValidateToken A a now tok)) \<and> (\<forall>A rnd now u e. isl (generateToken A rnd a now u e))
    \<and> (\<forall>A now rnd token not_found l c.
        (\<exists>e c'. needed e \<noteq> Some GuardJWT \<and> (\<forall>(H :: route_endpoint \<Rightarrow> 'w handler) w obs.
            fst (app_handler F A a now rnd token not_found l H c (w, obs)) = fst (H e c' w)))
      \<or> (\<exists>r. (\<forall>(H :: route_endpoint \<Rightarrow> 'w handler) w obs.
            fst (app_handler F A a now rnd token not_found l H c (w, obs)) = r
            \<and> fst (snd (app_handler F A a now rnd token not_found l H c (w, obs))) = w)
          \<and> (resp_status (snd r) = 401 \<or> (\<exists>c'. r = not_found c'))))"
proof -
  have "service_inv D s" using assms(2) by (rule service.inv_reachable)
  then obtain a where a: "sc_auth s = Some a" "keys_closed a" using assms(3) by (auto simp: service_inv_def)
  note t = HTTPMiddleware_transparent app_handler_def
  have "(\<exists>e c'. needed e \<noteq> Some GuardJWT \<and> (\<forall>(H :: route_endpoint \<Rightarrow> 'w handler) w obs.
            fst (app_handler F A a now rnd token not_found l H c (w, obs)) = fst (H e c' w)))
      \<or> (\<exists>r. (\<forall>(H :: route_endpoint \<Rightarrow> 'w handler) w obs.
            fst (app_handler F A a now rnd token not_found l H c (w, obs)) = r
            \<and> fst (snd (app_handler F A a now rnd token not_found l H c (w, obs))) = w)
          \<and> (resp_status (snd r) = 401 \<or> (\<exists>c'. r = not_found c')))" for A now rnd token not_found l c
  proof -
    have "outcome (app_guard A a now rnd token :: route_guard \<Rightarrow> 'w handler \<Rightarrow> 'w handler) (app_passed A a now token) F not_found
        (hl_Method l) (hl_Path l) setupRoutes c"
      by (rule app.routes_outcome [OF assms(1) setupRoutes_guards]) simp
    then show ?thesis unfolding outcome_def
    proof (elim disjE exE conjE)
      fix e c'
      assume h: "\<forall>H w. serve F (app_guard A a now rnd token :: route_guard \<Rightarrow> 'w handler \<Rightarrow> 'w handler) not_found H
          (hl_Method l) (hl_Path l) setupRoutes c w = H e c' w"
        and p: "\<forall>g. needed e = Some g \<longrightarrow> app_passed A a now token g c'"
      have "needed e \<noteq> Some GuardJWT" using p signed_in_closed [OF a(2)] by (auto simp: app_passed_def)
      with h show ?thesis by (intro disjI1 exI [of _ e] exI [of _ c']) (simp add: t)
    qed (auto simp: t)
  qed
  then show ?thesis using a(1) ValidateToken_closed [OF a(2)] generateToken_closed [OF a(2)]
    by (intro exI [of _ a] conjI) (simp_all add: isl_def)
qed

text \<open>A driver that closes, and a schedule: a statement of \<open>Shutdown\<close> or a move of the tracker.\<close>

definition ex_sql :: "unit sql_driver" where
  "ex_sql = \<lparr> sd_DB = (\<lambda>_. Inr ()), sd_Close = (\<lambda>_. None) \<rparr>"

fun do_shutdown :: "move option \<Rightarrow> 'r service \<Rightarrow> 'r service option" where
  "do_shutdown None s = (if sc_pc s = Sd_Running then Some (s\<lparr>sc_pc := Sd_presence\<rparr>) else Shutdown ex_sql None (sc_pc s) s)"
| "do_shutdown (Some m) s =
     (case sc_presence s of
        None \<Rightarrow> None
      | Some p \<Rightarrow> if ps_panicked p \<or> sc_pc s = Sd_Panicked then None else map_option (\<lambda>p'. s\<lparr>sc_presence := Some p'\<rparr>) (do_move m p))"

fun run_shutdown :: "move option list \<Rightarrow> 'r service \<Rightarrow> 'r service option" where
  "run_shutdown [] s = Some s"
| "run_shutdown (m # ms) s = Option.bind (do_shutdown m s) (run_shutdown ms)"

lemma run_shutdown_reachable:
  assumes "reachable service_started (shutdown_step K ex_sql) s" and "run_shutdown ms s = Some s'"
  shows "reachable service_started (shutdown_step K ex_sql) s'"
  using assms
proof (induction ms arbitrary: s)
  case (Cons m ms)
  then obtain t where t: "do_shutdown m s = Some t" "run_shutdown ms t = Some s'" by (auto simp: bind_eq_Some_conv)
  have "shutdown_step K ex_sql s t"
  proof (cases m)
    case None
    then show ?thesis using t(1) by (auto split: if_splits intro: shutdown_step.signal shutdown_step.statement)
  next
    case (Some k)
    then show ?thesis using t(1)
      by (auto split: option.splits if_splits intro!: shutdown_step.tracker do_move_step)
  qed
  then show ?case using Cons.IH t(2) reachable.move [OF Cons.prems(1)] by blast
qed simp

definition ex_tracker :: "(string \<times> string) list presence_sys" where
  "ex_tracker = started_tracker (Some \<lparr> rd_Set = (\<lambda>k v t r. (k, v) # r), rd_Get = (\<lambda>k r. case map_of r k of None \<Rightarrow> Inl (ErrNew ''nil'') | Some v \<Rightarrow> Inr v) \<rparr>)
     [] ''p'' (Some ''t'') (Some ''w'') [Subscribed ''p'', Subscribed ''t'', Subscribed ''w'']"

lemma ex_service_starts: "\<exists>c. service_started (listening c ex_tracker) \<and> pg_db (ct_DB c) = Some ()"
proof -
  obtain c m' d' where x: "NewContainer ex_container_env 91 no_metrics ex_empty_db = Some (Inr c, m', d')"
    using ex_container_starts by blast
  let ?R = "\<lparr> rd_Set = (\<lambda>k v t r. (k, v) # r), rd_Get = (\<lambda>k r. case map_of r k of None \<Rightarrow> Inl (ErrNew ''nil'') | Some v \<Rightarrow> Inr v) \<rparr>"
  have "start_tracker (ce_Subscribe ex_container_env) (subjects_of ex_container_env) (Some ?R) []
      = (Inr ex_tracker, [Subscribed ''p'', Subscribed ''t'', Subscribed ''w''])"
    by (simp add: start_tracker_def ex_container_env_def subjects_of_def ex_tracker_def Let_def)
  moreover have "Start (ce_viper ex_container_env) (\<lambda>_. None) c ex_tracker = Inr (listening c ex_tracker)" by (simp add: Start_def)
  ultimately have "service_started (listening c ex_tracker)" using x unfolding service_started_def by blast
  moreover have "pg_db (ct_DB c) = Some ()" using NewContainer_connected [OF x] by auto
  ultimately show ?thesis by blast
qed

text \<open>The signal, \<open>Close\<close> of the tracker with the end of the sweep, then \<open>Close\<close> of the session service.\<close>

definition ex_schedule :: "move option list" where
  "ex_schedule = [None, None, Some (Move_close 0), Some (Move_close 0), Some Move_sweep_end, Some Move_sweep_end, Some (Move_close 0),
     Some (Move_close 0), Some (Move_close 0), Some (Move_close 0), None, None]"

lemma ex_schedule_runs:
  assumes "pg_db (ct_DB c) = Some ()"
  shows "\<exists>s. run_shutdown ex_schedule (listening c ex_tracker) = Some s \<and> sc_pc s = Sd_nats \<and> sc_listening s \<and> sc_db s = Some (ct_DB c)"
  by (simp add: ex_schedule_def listening_def ex_tracker_def started_tracker_def sweepStop_closed_def sweepDone_closed_def Unsubscribe_def)

theorem shutdown_fails_closed_witness:
  "\<exists>(s :: (string \<times> string) list service) a. sc_listening s \<and> sc_auth s = Some a \<and> isl (ValidateToken (ex_auth (\<lambda>_. True)) a 0 ''x'')
     \<and> isl (generateToken (ex_auth (\<lambda>_. True)) ''r'' a 0 1 ''u'')"
proof -
  obtain c where c: "service_started (listening c ex_tracker)" "pg_db (ct_DB c) = Some ()" using ex_service_starts by blast
  obtain s where s: "run_shutdown ex_schedule (listening c ex_tracker) = Some s" "sc_pc s = Sd_nats" "sc_listening s"
    using ex_schedule_runs [OF c(2)] by blast
  have r: "reachable service_started (shutdown_step ex_presence_contract ex_sql) s"
    using run_shutdown_reachable [OF _ s(1)] reachable.start [of service_started, OF c(1)] by blast
  have "4 \<le> shutdown_rank (sc_pc s)" using s(2) by simp
  from shutdown_fails_closed [OF ex_fiber_ok r this, where 'w = unit] show ?thesis
  proof (elim exE conjE)
    fix a
    assume "sc_auth s = Some a" and "\<forall>A now tok. isl (ValidateToken A a now tok)"
      and "\<forall>A rnd now u e. isl (generateToken A rnd a now u e)"
    with s(3) show ?thesis by (intro exI [of _ s] exI [of _ a]) simp
  qed
qed

text \<open>
  C20: the shutdown ends, and what it leaves.  From every state of a running shutdown, \<open>Shutdown\<close> can return; it never
  panics; and when it has returned, the sweep of the presence tracker has ended and its subscriptions are given
  back, the signer is closed, the broker's client is closed, the server does not listen, and the
  database is closed when the driver closes it.
\<close>

theorem shutdown_completes:
  assumes "reachable service_started (shutdown_step K D) s"
  shows "sc_pc s \<noteq> Sd_Panicked
    \<and> (sc_pc s \<noteq> Sd_Running \<longrightarrow> (\<exists>s' e. (shutdown_step K D)\<^sup>*\<^sup>* s s' \<and> sc_pc s' = Sd_Returned e))
    \<and> (\<forall>e. sc_pc s = Sd_Returned e \<longrightarrow>
         (\<exists>p a. sc_presence s = Some p \<and> ps_sweeper p = Sw_Done
            \<and> (\<forall>x. Subscribed x \<in> set (ps_events p) \<longrightarrow> Unsubscribed x \<in> set (ps_events p))
            \<and> sc_auth s = Some a \<and> keys_closed a)
         \<and> \<not> sc_nats_open s \<and> \<not> sc_listening s \<and> (db_closes D \<longrightarrow> \<not> sc_db_open s))"
proof -
  have i: "service_inv D s" using assms by (rule service.inv_reachable)
  have "(\<exists>p a. sc_presence s = Some p \<and> ps_sweeper p = Sw_Done
            \<and> (\<forall>x. Subscribed x \<in> set (ps_events p) \<longrightarrow> Unsubscribed x \<in> set (ps_events p))
            \<and> sc_auth s = Some a \<and> keys_closed a)
         \<and> \<not> sc_nats_open s \<and> \<not> sc_listening s \<and> (db_closes D \<longrightarrow> \<not> sc_db_open s)" if e: "sc_pc s = Sd_Returned e" for e
  proof -
    obtain p a r where p: "sc_presence s = Some p" "shutdown_inv p" "Cl_Returned r \<in> set (ps_closers p)" "sc_auth s = Some a" "keys_closed a"
      using i e by (auto simp: service_inv_def)
    then show ?thesis using i e returned_final [OF p(2,3)] by (auto simp: service_inv_def)
  qed
  with i shutdown_finishes [OF i] show ?thesis by (auto simp: service_inv_def)
qed

theorem shutdown_completes_witness:
  "\<exists>(s :: (string \<times> string) list service) p. run_shutdown [None, None, None] s \<noteq> None \<and> \<not> sc_nats_open (the (run_shutdown [None, None, None] s))
     \<and> sc_presence (the (run_shutdown [None, None, None] s)) = Some p \<and> ps_sweeper p = Sw_Done
     \<and> \<not> sc_db_open (the (run_shutdown [None, None, None] s))"
proof -
  obtain c where c: "service_started (listening c ex_tracker)" "pg_db (ct_DB c) = Some ()" using ex_service_starts by blast
  obtain s where s: "run_shutdown ex_schedule (listening c ex_tracker) = Some s" "sc_pc s = Sd_nats" "sc_db s = Some (ct_DB c)"
    using ex_schedule_runs [OF c(2)] by blast
  have r: "reachable service_started (shutdown_step ex_presence_contract ex_sql) s"
    using run_shutdown_reachable [OF _ s(1)] reachable.start [of service_started, OF c(1)] by blast
  obtain t where t: "run_shutdown [None, None, None] s = Some t" "sc_pc t = Sd_Returned None"
    using s(2,3) c(2) by (simp add: postgres_Shutdown_def ex_sql_def split: option.split)
  have "reachable service_started (shutdown_step ex_presence_contract ex_sql) t"
    using run_shutdown_reachable [OF r t(1)] .
  moreover have "db_closes ex_sql" by (simp add: db_closes_def ex_sql_def)
  ultimately show ?thesis using t shutdown_completes [of ex_presence_contract ex_sql t] by (intro exI [of _ s]) auto
qed

end
