(* ===== verification/Server_Main.thy ===== *)
theory Server_Main
  imports Service_Shutdown Chain_Config
begin

text \<open>
  The server command, \<open>src/cmd/server/main.go\<close>: the configuration, the chain configuration, the container and the
  listening, with the ways in which the process ends.  The environment, the file system, viper and Fiber's
  \<open>Listen\<close> are arguments; what the command asks of viper is the list of its calls, in order.
\<close>

section \<open>The configuration\<close>

datatype viper_call = SetDefault string config_value | SetConfigFile string | SetConfigType string | ReadInConfig | AutomaticEnv

definition config_path :: "(string \<Rightarrow> string) \<Rightarrow> string" where
  "config_path Getenv = (let configPath = Getenv ''CONFIG_PATH'' in if configPath = '''' then ''config.yaml'' else configPath)"

text \<open>\<open>read\<close> is the answer of \<open>ReadInConfig\<close>; the second part of the result is the line that is logged.\<close>

definition initConfig :: "(string \<Rightarrow> string) \<Rightarrow> goerr option \<Rightarrow> viper_call list \<times> string" where
  "initConfig Getenv read =
     (map (\<lambda>(configName, defaultValue). SetDefault configName defaultValue) GetDefaultConfigValues
        @ [SetConfigFile (config_path Getenv), SetConfigType ''yaml'', ReadInConfig, AutomaticEnv],
      case read of
        Some err \<Rightarrow> ''Config file not found, using defaults and environment variables: '' @ Error err
      | None \<Rightarrow> ''Loaded config from: '' @ config_path Getenv)"

section \<open>The command\<close>

datatype exit = Fatal string goerr | Ended Container

text \<open>No result is a panic, or a wait of \<open>NewContainer\<close> that the fuel does not cover.\<close>

definition main ::
  "(string \<Rightarrow> string) \<Rightarrow> goerr option \<Rightarrow> (string \<Rightarrow> 'b result) \<Rightarrow> ('b \<Rightarrow> ChainConfig result) \<Rightarrow> 'r container_env \<Rightarrow> nat
     \<Rightarrow> metrics_state \<Rightarrow> db \<Rightarrow> (string \<Rightarrow> goerr option) \<Rightarrow> (viper_call list \<times> log_level \<times> exit) option" where
  "main Getenv read ReadFile Unmarshal E fuel m d Listen =
     (let (calls, _) = initConfig Getenv read;
          level = initLogging (ce_viper E)
      in map_option (\<lambda>x. (calls, level, x))
        (case LoadChainConfig ReadFile Unmarshal (config_path Getenv) of
           Inl err \<Rightarrow> Some (Fatal ''Failed to load config'' err)
         | Inr cfgChain \<Rightarrow>
             (case NewContainer E fuel m d of
                None \<Rightarrow> None
              | Some (Inl err, _, _) \<Rightarrow> Some (Fatal ''Failed to initialize container'' err)
              | Some (Inr container, _, _) \<Rightarrow>
                  (case Listen (server_addr (ce_viper E)) of
                     Some err \<Rightarrow> Some (Fatal ''Failed to start server'' err)
                   | None \<Rightarrow> Some (Ended container)))))"

section \<open>What the command shows\<close>

lemma main_ended:
  assumes "main Getenv read ReadFile Unmarshal E fuel m d Listen = Some (calls, level, Ended c)"
  shows "(\<exists>cfg. LoadChainConfig ReadFile Unmarshal (config_path Getenv) = Inr cfg)
    \<and> (\<exists>m' d'. NewContainer E fuel m d = Some (Inr c, m', d')) \<and> Listen (server_addr (ce_viper E)) = None
    \<and> (\<forall>k v. map_of GetDefaultConfigValues k = Some v \<longrightarrow> SetDefault k v \<in> set calls)"
proof -
  have "set calls \<supseteq> (\<lambda>(k, v). SetDefault k v) ` set GetDefaultConfigValues"
    using assms by (auto simp: main_def initConfig_def)
  then have "SetDefault k v \<in> set calls" if "map_of GetDefaultConfigValues k = Some v" for k v
    using map_of_SomeD [OF that] by (auto simp: image_subset_iff)
  then show ?thesis
    using assms by (auto simp: main_def split: sum.splits option.splits prod.splits)
qed

text \<open>
  The configuration file is not optional: a file that cannot be read is accepted by \<open>initConfig\<close>, which goes on with the
  defaults, and ends the process in \<open>LoadChainConfig\<close>, which reads the same path.
\<close>

lemma config_file_required:
  assumes "ReadFile (config_path Getenv) = Inl err"
  shows "main Getenv read ReadFile Unmarshal E fuel m d Listen =
    Some (fst (initConfig Getenv read), initLogging (ce_viper E),
      Fatal ''Failed to load config'' (ErrWrap ''failed to read config file'' err))"
  using assms by (simp add: main_def LoadChainConfig_def split_beta)

end
