(* ===== verification/Lifecycle_Consumer.thy ===== *)
theory Lifecycle_Consumer
  imports Broker Metrics
begin

text \<open>
  The lifecycle consumer put together: \<open>SettleWalletLifecycle\<close>, \<open>RunWalletLifecycleConsumer\<close> and
  \<open>waitWalletLifecycle\<close> of \<open>src/internal/service/wallet_lifecycle.go\<close>, over the consumer that
  \<open>src/pkg/nats/lifecycle.go\<close> configures and the counter of \<open>src/internal/metrics/metrics.go\<close>.

  A context is when it is done and with which error; the clock is the time a wait
  starts.
\<close>

section \<open>One delivery\<close>

definition walletLifecycleTimeout :: go_duration where "walletLifecycleTimeout = seconds 15"

record go_context =
  cx_Done :: "go_time option"
  cx_Err :: goerr

text \<open>When both are ready, \<open>select\<close> may take either: here the context.\<close>

definition waitWalletLifecycle :: "go_context \<Rightarrow> go_time \<Rightarrow> go_duration \<Rightarrow> unit result" where
  "waitWalletLifecycle ctx now d =
     (case cx_Done ctx of
        Some t \<Rightarrow> if t \<le> now + d then Inl (cx_Err ctx) else Inr ()
      | None \<Rightarrow> Inr ())"

fun record_actions :: "action list \<Rightarrow> ScanMetrics option \<Rightarrow> ScanMetrics option" where
  "record_actions [] m = m"
| "record_actions (act # acts) m =
     record_actions acts (case act of Record r \<Rightarrow> RecordWalletLifecycle r m | _ \<Rightarrow> m)"

text \<open>
  \<open>apply\<close> is \<open>client.ApplyWalletTransition\<close> at each attempt, \<open>clock\<close> the time at each wait.
  The result is what is done to the delivery and the metrics.
\<close>

definition SettleWalletLifecycle ::
  "lifecycle_pkg \<Rightarrow> uuid_pkg \<Rightarrow> (walletCommand \<Rightarrow> string result) \<Rightarrow> (nat \<Rightarrow> uuid \<Rightarrow> uuid \<Rightarrow> string \<Rightarrow> (string \<times> string \<times> bool) result)
     \<Rightarrow> go_context \<Rightarrow> (nat \<Rightarrow> go_time) \<Rightarrow> WalletLifecycleMessage \<Rightarrow> ScanMetrics option \<Rightarrow> action list \<times> ScanMetrics option" where
  "SettleWalletLifecycle C U marshal apply_fn ctx clock msg m =
     (let acts = settle C U \<lparr> ws_apply = apply_fn, ws_wait = (\<lambda>k. waitWalletLifecycle ctx (clock k)), ws_marshal = marshal \<rparr> msg
      in (acts, record_actions acts m))"

text \<open>The deliveries of a run, in the order in which the consumer hands them out.\<close>

definition RunWalletLifecycleConsumer ::
  "lifecycle_pkg \<Rightarrow> ('c, 'j) nats_driver \<Rightarrow> (WalletLifecycleMessage \<Rightarrow> ScanMetrics option \<Rightarrow> action list \<times> ScanMetrics option)
     \<Rightarrow> WalletLifecycleMessage list \<Rightarrow> ('c, 'j) natsConnection \<Rightarrow> ScanMetrics option \<Rightarrow> action list list \<times> ScanMetrics option" where
  "RunWalletLifecycleConsumer C D handle msgs nc m =
     (case ConsumeWalletLifecycle C D nc of
        (Some _, _) \<Rightarrow> ([], m)
      | (None, _) \<Rightarrow> fold (\<lambda>msg (done, m). case handle msg m of (acts, m') \<Rightarrow> (done @ [acts], m')) msgs ([], m))"

section \<open>The shape of a settlement\<close>

definition lifecycle_reasons :: "string list" where
  "lifecycle_reasons = [walletLifecycleMetadata, walletLifecycleInvalid, walletLifecycleRejected, walletLifecycleRetryable,
     walletLifecycleTransport, walletLifecycleProjection]"

text \<open>How a settlement may end: acknowledged, or with one reason terminated or put back.\<close>

definition final_acts :: "action list \<Rightarrow> bool" where
  "final_acts acts \<longleftrightarrow> acts = [Ack]
     \<or> (\<exists>r\<in>set lifecycle_reasons. acts = [Record r, Term] \<or> acts = [Record r, NakWithDelay walletLifecycleNakDelay])"

lemma settle_outcome_final: "settle_outcome cmd tr r = (Some acts, tr') \<Longrightarrow> final_acts acts"
  by (drule settle_outcome_cases) (auto simp: final_acts_def lifecycle_reasons_def)

lemma settle_loop_end: "final_acts (settle_loop S cmd body 2 tr)"
  by (simp add: settle_loop.simps walletLifecycleAttempts_def settler_alert_def final_acts_def lifecycle_reasons_def)

lemma settle_loop_last:
  "(\<exists>pre acts. settle_loop S cmd body 1 tr = Wait walletLifecycleGap # pre @ acts \<and> final_acts acts
      \<and> pre = [Post (wc_UserID cmd) (wc_ScanID cmd) body])
   \<or> settle_loop S cmd body 1 tr = [Wait walletLifecycleGap] \<and> isl (ws_wait S 1 walletLifecycleGap)"
proof (cases "isl (ws_wait S 1 walletLifecycleGap)")
  case False
  obtain a tr' where o': "settle_outcome cmd tr (settler_post S 1 cmd body) = (a, tr')" by (rule prod.exhaust)
  have e: "settle_loop S cmd body 1 tr = Wait walletLifecycleGap # Post (wc_UserID cmd) (wc_ScanID cmd) body
      # (case a of Some acts \<Rightarrow> acts | None \<Rightarrow> settle_loop S cmd body 2 tr')"
    using False o' by (subst settle_loop.simps) (simp add: walletLifecycleAttempts_def numeral_2_eq_2 split: option.split)
  have "final_acts (case a of Some acts \<Rightarrow> acts | None \<Rightarrow> settle_loop S cmd body 2 tr')"
    using o' settle_outcome_final settle_loop_end by (cases a) auto
  with e show ?thesis by simp
qed (subst settle_loop.simps, simp add: walletLifecycleAttempts_def)

lemma settle_loop_shape:
  "(\<exists>pre acts. settle_loop S cmd body 0 tr = pre @ acts \<and> final_acts acts
      \<and> (\<exists>p. is_post p \<and> (pre = [p] \<or> pre = [p, Wait walletLifecycleGap, p])))
   \<or> (\<exists>p. is_post p \<and> settle_loop S cmd body 0 tr = [p, Wait walletLifecycleGap]) \<and> isl (ws_wait S 1 walletLifecycleGap)"
proof -
  let ?p = "Post (wc_UserID cmd) (wc_ScanID cmd) body"
  obtain a tr' where o': "settle_outcome cmd tr (settler_post S 0 cmd body) = (a, tr')" by (rule prod.exhaust)
  have e: "settle_loop S cmd body 0 tr = ?p # (case a of Some acts \<Rightarrow> acts | None \<Rightarrow> settle_loop S cmd body 1 tr')"
    using o' by (subst settle_loop.simps) (simp add: walletLifecycleAttempts_def split: option.split)
  have p: "is_post ?p" by simp
  show ?thesis
  proof (cases a)
    case (Some acts)
    then have "settle_loop S cmd body 0 tr = [?p] @ acts" using e by simp
    then show ?thesis using Some o' settle_outcome_final p by blast
  next
    case None
    then have n: "settle_loop S cmd body 0 tr = ?p # settle_loop S cmd body 1 tr'" using e by simp
    with settle_loop_last [of S cmd body tr'] p show ?thesis
    proof (elim disjE exE conjE)
      fix pre acts
      assume "settle_loop S cmd body 1 tr' = Wait walletLifecycleGap # pre @ acts" "final_acts acts" "pre = [?p]"
      with n p show ?thesis
        by - (rule disjI1, rule exI [of _ "[?p, Wait walletLifecycleGap, ?p]"], rule exI [of _ acts], auto)
    qed (use n p in simp)
  qed
qed

definition settled_shape :: "walletDeliverySettler \<Rightarrow> action list \<Rightarrow> bool" where
  "settled_shape S acts \<longleftrightarrow>
     (\<exists>pre f. acts = pre @ f \<and> final_acts f \<and> (pre = [] \<or> (\<exists>p. is_post p \<and> (pre = [p] \<or> pre = [p, Wait walletLifecycleGap, p]))))
   \<or> (\<exists>p. is_post p \<and> acts = [p, Wait walletLifecycleGap]) \<and> isl (ws_wait S 1 walletLifecycleGap)"

lemma settle_shape: "settled_shape S (settle C U S msg)"
proof -
  have f: "settled_shape S acts" if "final_acts acts" for acts
    using that unfolding settled_shape_def by (intro disjI1 exI [of _ "[]"] exI [of _ acts]) simp
  have l: "settled_shape S (settle_loop S cmd body 0 False)" for cmd body
    using settle_loop_shape [of S cmd body False] unfolding settled_shape_def by blast
  have s: "final_acts [Ack]" "final_acts [Record walletLifecycleInvalid, Term]"
    "final_acts [Record walletLifecycleMetadata, NakWithDelay walletLifecycleNakDelay]"
    by (simp_all add: final_acts_def lifecycle_reasons_def)
  show ?thesis
    unfolding settle_def using f [OF s(1)] f [OF s(2)] f [OF s(3)] l by (simp split: sum.split option.split)
qed

lemma settled_cases:
  assumes "settled_shape S acts"
  obtains (at_once) "final_acts acts"
  | (one_post) p f where "acts = p # f" "is_post p" "final_acts f"
  | (two_posts) p f where "acts = p # Wait walletLifecycleGap # p # f" "is_post p" "final_acts f"
  | (cut) p where "acts = [p, Wait walletLifecycleGap]" "is_post p" "isl (ws_wait S 1 walletLifecycleGap)"
  using assms unfolding settled_shape_def by auto

section \<open>Time and counters\<close>

text \<open>A post takes at most its timeout, a wait its duration; the rest is not waited for.\<close>

fun action_time :: "action \<Rightarrow> go_duration" where
  "action_time (Post _ _ _) = walletLifecycleTimeout"
| "action_time (Wait d) = d"
| "action_time _ = 0"

definition settle_time :: "action list \<Rightarrow> go_duration" where
  "settle_time acts = sum_list (map action_time acts)"

lemma is_post_time [simp]: "is_post p \<Longrightarrow> action_time p = walletLifecycleTimeout"
  by (cases p) simp_all

lemma final_acts_time [simp]: "final_acts acts \<Longrightarrow> settle_time acts = 0"
  by (auto simp: final_acts_def settle_time_def)

lemma settle_time_Cons: "settle_time (a # acts) = action_time a + settle_time acts" "settle_time [] = 0"
  by (simp_all add: settle_time_def)

lemma settled_time: "settled_shape S acts \<Longrightarrow> settle_time acts \<le> 2 * walletLifecycleTimeout + walletLifecycleGap"
  by (erule settled_cases) (simp_all add: settle_time_Cons walletLifecycleTimeout_def walletLifecycleGap_def seconds_def)

text \<open>The reasons that a list of actions counts.\<close>

fun reasons :: "action list \<Rightarrow> string list" where
  "reasons [] = []"
| "reasons (Record r # acts) = r # reasons acts"
| "reasons (_ # acts) = reasons acts"

lemma reasons_append [simp]: "reasons (xs @ ys) = reasons xs @ reasons ys"
  by (induction xs rule: reasons.induct) simp_all

lemma is_post_reasons [simp]: "is_post p \<Longrightarrow> reasons (p # acts) = reasons acts"
  by (cases p) simp_all

lemma final_reasons: "final_acts acts \<Longrightarrow> length (reasons acts) \<le> 1 \<and> set (reasons acts) \<subseteq> set lifecycle_reasons"
  by (auto simp: final_acts_def)

lemma settled_reasons: "settled_shape S acts \<Longrightarrow> length (reasons acts) \<le> 1 \<and> set (reasons acts) \<subseteq> set lifecycle_reasons"
  by (erule settled_cases) (use final_reasons in \<open>simp_all\<close>)

definition count_reasons :: "string list \<Rightarrow> ScanMetrics \<Rightarrow> ScanMetrics" where
  "count_reasons rs m = m\<lparr>WalletLifecycleTotal :=
     (WalletLifecycleTotal m)\<lparr>col_Seen := col_Seen (WalletLifecycleTotal m) @ map (\<lambda>r. [r]) rs\<rparr>\<rparr>"

lemma record_actions_reasons: "record_actions acts (Some m) = Some (count_reasons (reasons acts) m)"
  by (induction acts arbitrary: m rule: reasons.induct)
    (simp_all add: count_reasons_def RecordWalletLifecycle_def observe_def)


lemma final_acts_end: "final_acts acts \<Longrightarrow> \<exists>pre f. acts = pre @ [f] \<and> is_final f \<and> list_all (\<lambda>x. \<not> is_final x) pre"
proof -
  assume "final_acts acts"
  then consider "acts = [] @ [Ack]" | r where "acts = [Record r] @ [Term]"
    | r where "acts = [Record r] @ [NakWithDelay walletLifecycleNakDelay]"
    by (auto simp: final_acts_def)
  then show ?thesis by cases (intro exI conjI, assumption, simp_all)+
qed

lemma settled_end:
  assumes "settled_shape S acts"
  shows "(\<exists>pre f. acts = pre @ [f] \<and> is_final f \<and> list_all (\<lambda>x. \<not> is_final x) pre)
    \<or> list_all (\<lambda>x. \<not> is_final x) acts \<and> isl (ws_wait S 1 walletLifecycleGap)"
proof -
  have post: "\<not> is_final p" if "is_post p" for p using that by (cases p) simp_all
  have more: "\<exists>pre f. xs @ acts = pre @ [f] \<and> is_final f \<and> list_all (\<lambda>x. \<not> is_final x) pre"
    if fin: "final_acts acts" and "list_all (\<lambda>x. \<not> is_final x) xs" for xs acts
  proof -
    obtain pre f where "acts = pre @ [f]" "is_final f" "list_all (\<lambda>x. \<not> is_final x) pre"
      using final_acts_end [OF fin] by blast
    then show ?thesis using that(2) by (intro exI [of _ "xs @ pre"] exI [of _ f]) simp
  qed
  from assms show ?thesis
  proof (cases rule: settled_cases)
    case at_once
    then show ?thesis using more [of acts "[]"] by simp
  next
    case (one_post p f)
    then show ?thesis using more [of f "[p]"] post by simp
  next
    case (two_posts p f)
    then show ?thesis using more [of f "[p, Wait walletLifecycleGap, p]"] post by simp
  next
    case (cut p)
    then show ?thesis using post by simp
  qed
qed

lemma settled_posts: "settled_shape S acts \<Longrightarrow> length (filter is_post acts) \<le> 2"
proof (erule settled_cases)
  have n: "filter is_post f = []" if "final_acts f" for f using that by (auto simp: final_acts_def)
  show "length (filter is_post acts) \<le> 2" if "final_acts acts" using n [OF that] by simp
  show "length (filter is_post acts) \<le> 2" if "acts = p # f" "is_post p" "final_acts f" for p f using n [OF that(3)] that by simp
  show "length (filter is_post acts) \<le> 2" if "acts = p # Wait walletLifecycleGap # p # f" "is_post p" "final_acts f" for p f
    using n [OF that(3)] that by simp
qed simp

section \<open>Properties\<close>



definition ex_ctx_open :: go_context where
  "ex_ctx_open = \<lparr> cx_Done = None, cx_Err = ErrNew ''context canceled'' \<rparr>"


end
