(* ===== verification/Lifecycle_Http.thy ===== *)
theory Lifecycle_Http
  imports Lifecycle_Consumer Scan_Http
begin

text \<open>
  A lifecycle delivery down to the wire: \<open>SettleWalletLifecycle\<close> of \<open>src/internal/service/wallet_lifecycle.go\<close> with
  \<open>ApplyWalletTransition\<close> of \<open>src/internal/persistence/scanhttp/client_transition.go\<close> as its \<open>apply\<close>, over a network that
  records the requests it is given.
\<close>

section \<open>The delivery over the network\<close>

type_synonym response_decoder = "walletTransitionResponse decoder"

text \<open>The network after some calls with one command, and the answer of each call.\<close>

primrec net_after :: "response_decoder \<Rightarrow> 'n net \<Rightarrow> uuid \<Rightarrow> uuid \<Rightarrow> string \<Rightarrow> 'n \<Rightarrow> nat \<Rightarrow> 'n" where
  "net_after dec N userID scanID body n 0 = n"
| "net_after dec N userID scanID body n (Suc k) = snd (ApplyWalletTransition dec N userID scanID body (net_after dec N userID scanID body n k))"

definition http_apply ::
  "response_decoder \<Rightarrow> 'n net \<Rightarrow> 'n \<Rightarrow> nat \<Rightarrow> uuid \<Rightarrow> uuid \<Rightarrow> string \<Rightarrow> (string \<times> string \<times> bool) result" where
  "http_apply dec N n attempt userID scanID body =
     fst (ApplyWalletTransition dec N userID scanID body (net_after dec N userID scanID body n attempt))"

text \<open>What the actions of a delivery do to the network, in their order.\<close>

fun after_actions :: "response_decoder \<Rightarrow> 'n net \<Rightarrow> action list \<Rightarrow> 'n \<Rightarrow> 'n" where
  "after_actions dec N [] n = n"
| "after_actions dec N (Post userID scanID body # acts) n =
     after_actions dec N acts (snd (ApplyWalletTransition dec N userID scanID body n))"
| "after_actions dec N (act # acts) n = after_actions dec N acts n"

definition recording :: "'n net \<Rightarrow> ('n \<times> http_request list) net" where
  "recording N =
     \<lparr> net_uuid = net_uuid N,
       net_http = \<lparr> http_NewRequest = http_NewRequest (net_http N),
         http_Do = (\<lambda>rq (n, sent). case http_Do (net_http N) rq n of (r, n') \<Rightarrow> (r, (n', sent @ [rq]))) \<rparr>,
       net_client = net_client N \<rparr>"

definition transition_request :: "'n net \<Rightarrow> walletCommand \<Rightarrow> string \<Rightarrow> http_request" where
  "transition_request N cmd body =
     client_request N ''POST'' (scan_url N WalletScanTransition (wc_ScanID cmd)) (wc_UserID cmd) '''' body"

section \<open>One call, one request\<close>

lemma recording_sel [simp]:
  "net_uuid (recording N) = net_uuid N" "net_client (recording N) = net_client N"
  "http_NewRequest (net_http (recording N)) = http_NewRequest (net_http N)"
  "scan_url (recording N) p i = scan_url N p i"
  "client_request (recording N) m url u t b = client_request N m url u t b"
  by (simp_all add: recording_def scan_url_def client_request_def)

lemma transition_sends:
  "snd (snd (ApplyWalletTransition dec (recording N) (wc_UserID cmd) (wc_ScanID cmd) body (n, sent))) =
     sent @ (if http_NewRequest (net_http N) ''POST'' (scan_url N WalletScanTransition (wc_ScanID cmd)) = None
             then [transition_request N cmd body] else [])"
  by (simp add: ApplyWalletTransition_def doJSONOnce_def transition_request_def split: option.split prod.split)
     (auto simp: recording_def split: prod.splits option.splits sum.splits)

text \<open>The body of a reply in the 2xx range that decodes, and what it decodes to.\<close>

definition replied :: "response_decoder \<Rightarrow> 'n net \<Rightarrow> http_request \<Rightarrow> 'n \<Rightarrow> walletTransitionResponse \<Rightarrow> bool" where
  "replied dec N rq n out \<longleftrightarrow>
     (\<exists>status raw n'. http_Do (net_http N) rq n = (Inr (status, Inr raw), n') \<and> 200 \<le> status \<and> status < 300 \<and> raw \<noteq> []
        \<and> dec raw \<lparr> wt_Outcome = '''', wt_Status = '''', wt_ProjectionReady = False \<rparr> = (None, out))"

lemma transition_replied:
  assumes "fst (ApplyWalletTransition dec (recording N) (wc_UserID cmd) (wc_ScanID cmd) body (n, sent)) = Inr (outcome, st, ready)"
    and "outcome \<noteq> ''''"
  shows "\<exists>out. replied dec N (transition_request N cmd body) n out \<and> wt_Outcome out = outcome \<and> wt_ProjectionReady out = ready"
proof -
  let ?rq = "transition_request N cmd body"
  obtain r n' where d: "http_Do (net_http N) ?rq n = (r, n')" by (rule prod.exhaust)
  then have d': "http_Do (net_http (recording N)) ?rq (n, sent) = (r, (n', sent @ [?rq]))" by (simp add: recording_def)
  show ?thesis using assms d d'
    by (auto simp: ApplyWalletTransition_def doJSONOnce_def transition_request_def replied_def
        split: option.splits sum.splits prod.splits if_splits)
qed

section \<open>The posts of a settlement\<close>

abbreviation made :: "action list \<Rightarrow> nat" where
  "made acts \<equiv> length (filter is_post acts)"

text \<open>All posts carry the one command; an acknowledgement or a termination is due to the answer of a post that was made.\<close>

lemma settle_loop_made:
  "(\<forall>a \<in> set (settle_loop S cmd body n tr). is_post a \<longrightarrow> a = Post (wc_UserID cmd) (wc_ScanID cmd) body)
   \<and> (Ack \<in> set (settle_loop S cmd body n tr) \<longrightarrow>
        (\<exists>k. n \<le> k \<and> k < n + made (settle_loop S cmd body n tr) \<and> settled_answer cmd (settler_post S k cmd body)))
   \<and> (Term \<in> set (settle_loop S cmd body n tr) \<longrightarrow>
        (\<exists>k ready. n \<le> k \<and> k < n + made (settle_loop S cmd body n tr) \<and> settler_post S k cmd body = Inr (''rejected'', ready)))"
proof (induction S cmd body n tr rule: settle_loop.induct)
  case (1 S cmd body n tr)
  let ?p = "Post (wc_UserID cmd) (wc_ScanID cmd) body" and ?w = "if n > 0 then [Wait walletLifecycleGap] else []"
  obtain r tr' where o': "settle_outcome cmd tr (settler_post S n cmd body) = (r, tr')" by fastforce
  show ?case
  proof (cases "n < walletLifecycleAttempts \<and> \<not> (n > 0 \<and> isl (ws_wait S n walletLifecycleGap))")
    case True
    have e: "settle_loop S cmd body n tr = ?w @ ?p # (case r of Some acts \<Rightarrow> acts | None \<Rightarrow> settle_loop S cmd body (n + 1) tr')"
      using True o' by (subst settle_loop.simps) (simp split: option.split)
    show ?thesis
    proof (cases r)
      case (Some acts)
      have "settle_outcome cmd tr (settler_post S n cmd body) = (Some acts, tr')" using o' Some by simp
      from settle_outcome_cases [OF this] Some show ?thesis unfolding e by (auto intro!: exI [of _ n])
    next
      case None
      then have f: "settle_loop S cmd body n tr = ?w @ ?p # settle_loop S cmd body (n + 1) tr'" using e by simp
      have m: "made (settle_loop S cmd body n tr) = Suc (made (settle_loop S cmd body (n + 1) tr'))" unfolding f by simp
      have ih: "(\<forall>a \<in> set (settle_loop S cmd body (n + 1) tr'). is_post a \<longrightarrow> a = ?p)
        \<and> (Ack \<in> set (settle_loop S cmd body (n + 1) tr') \<longrightarrow>
             (\<exists>k. n + 1 \<le> k \<and> k < n + 1 + made (settle_loop S cmd body (n + 1) tr') \<and> settled_answer cmd (settler_post S k cmd body)))
        \<and> (Term \<in> set (settle_loop S cmd body (n + 1) tr') \<longrightarrow>
             (\<exists>k ready. n + 1 \<le> k \<and> k < n + 1 + made (settle_loop S cmd body (n + 1) tr')
                \<and> settler_post S k cmd body = Inr (''rejected'', ready)))"
        using True None by (intro 1 [OF _ _ o' [symmetric]]) simp_all
      have s: "x \<in> set (settle_loop S cmd body n tr) \<longleftrightarrow> x \<in> set ?w \<or> x = ?p \<or> x \<in> set (settle_loop S cmd body (n + 1) tr')" for x
        unfolding f by auto
      show ?thesis unfolding m Ball_def s using ih by (auto split: if_splits) (meson Suc_leD)+
    qed
  next
    case False
    then have "settle_loop S cmd body n tr = [Wait walletLifecycleGap]
      \<or> (\<exists>reason. settle_loop S cmd body n tr = [Record reason, NakWithDelay walletLifecycleNakDelay])"
      by (subst (1 2) settle_loop.simps) (simp add: settler_alert_def)
    then show ?thesis by auto
  qed
qed

text \<open>The network sees one call for each post.\<close>

lemma after_actions_posts:
  assumes "\<forall>a \<in> set acts. is_post a \<longrightarrow> a = Post userID scanID body"
  shows "after_actions dec N acts (net_after dec N userID scanID body n k) = net_after dec N userID scanID body n (k + made acts)"
  using assms
proof (induction acts arbitrary: k)
  case (Cons act acts)
  have "\<forall>a \<in> set acts. is_post a \<longrightarrow> a = Post userID scanID body" using Cons.prems by simp
  note ih = Cons.IH [OF this]
  show ?case
  proof (cases "is_post act")
    case True
    then have "act = Post userID scanID body" using Cons.prems by simp
    then show ?thesis using ih [of "Suc k"] by simp
  next
    case False
    then show ?thesis using ih [of k] by (cases act) simp_all
  qed
qed simp

lemma net_after_sent:
  "snd (net_after dec (recording N) (wc_UserID cmd) (wc_ScanID cmd) body (n, []) k) =
     (if http_NewRequest (net_http N) ''POST'' (scan_url N WalletScanTransition (wc_ScanID cmd)) = None
      then replicate k (transition_request N cmd body) else [])"
proof (induction k)
  case (Suc k)
  let ?m = "net_after dec (recording N) (wc_UserID cmd) (wc_ScanID cmd) body (n, []) k"
  obtain n' sent where m: "?m = (n', sent)" by (rule prod.exhaust)
  show ?case using Suc unfolding net_after.simps m transition_sends by (simp add: replicate_append_same)
qed simp

lemma settled_answer_outcome:
  "settled_answer cmd r \<Longrightarrow> \<exists>outcome ready. r = Inr (outcome, ready) \<and> outcome \<noteq> ''''"
  by (auto simp: settled_answer_def)

section \<open>Properties\<close>

text \<open>
  C9: a delivery on the wire.  For a valid wallet event, whatever the persistence service answers, the delivery sends
  the same POST of the command at most twice, once for each post (never when the request cannot be built).  When the
  delivery is acknowledged, one of these requests got a reply in the 2xx range whose body decodes to an outcome
  that settles the event; when it is terminated, one got the outcome \<open>rejected\<close>.  So every error
  status, a lost or empty reply and a body that does not decode end in a redelivery.
\<close>

theorem delivery_on_the_wire:
  assumes "msg_Metadata msg = Inr (Some meta)"
    and "WalletTransitionCommand C U (msg_Subject msg) (msg_Data msg) (meta_Stream meta) (meta_Sequence meta) = Inr cmd"
    and "marshal cmd = Inr body"
    and "SettleWalletLifecycle C U marshal (http_apply dec (recording N) (n, [])) ctx clock msg m = (acts, m')"
  defines "rq \<equiv> transition_request N cmd body"
    and "seen \<equiv> (\<lambda>k. fst (net_after dec (recording N) (wc_UserID cmd) (wc_ScanID cmd) body (n, []) k))"
  shows "snd (after_actions dec (recording N) acts (n, [])) =
      replicate (if http_NewRequest (net_http N) ''POST'' (hq_URL rq) = None then made acts else 0) rq
    \<and> made acts \<le> 2
    \<and> (Ack \<in> set acts \<longrightarrow> (\<exists>k < made acts. \<exists>out. replied dec N rq (seen k) out
         \<and> settled_answer cmd (Inr (wt_Outcome out, wt_ProjectionReady out))))
    \<and> (Term \<in> set acts \<longrightarrow> (\<exists>k < made acts. \<exists>out. replied dec N rq (seen k) out \<and> wt_Outcome out = ''rejected''))"
proof -
  let ?S = "\<lparr> ws_apply = http_apply dec (recording N) (n, []), ws_wait = (\<lambda>k. waitWalletLifecycle ctx (clock k)), ws_marshal = marshal \<rparr>"
  have s: "acts = settle C U ?S msg" using assms(4) by (auto simp: SettleWalletLifecycle_def Let_def)
  have a: "acts = settle_loop ?S cmd body 0 False" using assms(1-3) unfolding s by (simp add: settle_def)
  note l = settle_loop_made [of ?S cmd body 0 False, folded a]
  have answer: "\<exists>out. replied dec N rq (seen k) out \<and> wt_Outcome out = outcome \<and> wt_ProjectionReady out = ready"
    if p: "settler_post ?S k cmd body = Inr (outcome, ready)" and "outcome \<noteq> ''''" for k outcome ready
  proof -
    let ?m = "net_after dec (recording N) (wc_UserID cmd) (wc_ScanID cmd) body (n, []) k"
    obtain st where "fst (ApplyWalletTransition dec (recording N) (wc_UserID cmd) (wc_ScanID cmd) body (fst ?m, snd ?m)) = Inr (outcome, st, ready)"
      using p by (auto simp: settler_post_def http_apply_def split: sum.splits)
    from transition_replied [OF this that(2)] show ?thesis by (simp add: rq_def seen_def)
  qed
  have "snd (after_actions dec (recording N) acts (n, [])) =
      replicate (if http_NewRequest (net_http N) ''POST'' (hq_URL rq) = None then made acts else 0) rq"
  proof -
    have "after_actions dec (recording N) acts (n, []) = net_after dec (recording N) (wc_UserID cmd) (wc_ScanID cmd) body (n, []) (made acts)"
      using after_actions_posts [of acts _ _ _ dec "recording N" "(n, [])" 0] l by simp
    moreover have "hq_URL rq = scan_url N WalletScanTransition (wc_ScanID cmd)"
      by (simp add: rq_def transition_request_def client_request_def)
    ultimately show ?thesis by (simp add: net_after_sent rq_def)
  qed
  moreover have "made acts \<le> 2" using settled_posts [OF settle_shape] unfolding s .
  moreover have "\<exists>k < made acts. \<exists>out. replied dec N rq (seen k) out
      \<and> settled_answer cmd (Inr (wt_Outcome out, wt_ProjectionReady out))" if "Ack \<in> set acts"
  proof -
    obtain k where k: "k < made acts" "settled_answer cmd (settler_post ?S k cmd body)" using l \<open>Ack \<in> set acts\<close> by auto
    obtain outcome ready where o': "settler_post ?S k cmd body = Inr (outcome, ready)" "outcome \<noteq> ''''"
      using settled_answer_outcome [OF k(2)] by blast
    from answer [OF this] k o' show ?thesis by auto
  qed
  moreover have "\<exists>k < made acts. \<exists>out. replied dec N rq (seen k) out \<and> wt_Outcome out = ''rejected''" if "Term \<in> set acts"
  proof -
    obtain k ready where k: "k < made acts" "settler_post ?S k cmd body = Inr (''rejected'', ready)" using l \<open>Term \<in> set acts\<close> by auto
    from answer [OF k(2)] k(1) show ?thesis by auto
  qed
  ultimately show ?thesis by blast
qed

text \<open>The first reply is lost, the second says that the transition is stored.\<close>

definition ex_wire_net :: "nat net" where
  "ex_wire_net =
     \<lparr> net_uuid = ex_uuid1,
       net_http = \<lparr> http_NewRequest = (\<lambda>_ _. None),
         http_Do = (\<lambda>_ n. (if n = 0 then Inl (ErrNew ''EOF'') else Inr (200, Inr ''applied''), Suc n)) \<rparr>,
       net_client = \<lparr> cl_baseURL = ''http://p'', cl_token = ''t'' \<rparr> \<rparr>"

definition ex_response_dec :: response_decoder where
  "ex_response_dec raw out = (None, out\<lparr>wt_Outcome := raw, wt_ProjectionReady := True\<rparr>)"

theorem delivery_on_the_wire_witness:
  "\<exists>acts m'. SettleWalletLifecycle ex_contract ex_uuid1 (\<lambda>c. Inr (wc_Error c)) (http_apply ex_response_dec (recording ex_wire_net) (0, []))
       ex_ctx_open (\<lambda>_. 0) ex_msg None = (acts, m')
     \<and> Ack \<in> set acts
     \<and> snd (after_actions ex_response_dec (recording ex_wire_net) acts (0, [])) =
          [transition_request ex_wire_net ex_cmd ''boom'', transition_request ex_wire_net ex_cmd ''boom'']
     \<and> (\<exists>n out. replied ex_response_dec ex_wire_net (transition_request ex_wire_net ex_cmd ''boom'') n out)"
proof -
  let ?apply = "http_apply ex_response_dec (recording ex_wire_net) (0, [])"
  obtain acts m' where s: "SettleWalletLifecycle ex_contract ex_uuid1 (\<lambda>c. Inr (wc_Error c)) ?apply ex_ctx_open (\<lambda>_. 0) ex_msg None = (acts, m')"
    by (rule prod.exhaust)
  have a0: "?apply 0 7 7 ''boom'' = Inl scanread_ErrUnavailable" and a1: "?apply 1 7 7 ''boom'' = Inr (''applied'', '''', True)"
    by (simp_all add: http_apply_def ApplyWalletTransition_def doJSONOnce_def recording_def ex_wire_net_def ex_response_dec_def)
  have "acts = [Post 7 7 ''boom'', Wait walletLifecycleGap, Post 7 7 ''boom'', Ack]"
    using s ex_command a0 a1
    by (auto simp: SettleWalletLifecycle_def Let_def settle_def ex_msg_def settle_loop.simps settle_outcome_def settler_post_def
        walletLifecycleAttempts_def ex_cmd_def ex_ctx_open_def waitWalletLifecycle_def)
  moreover have m: "msg_Metadata ex_msg = Inr (Some \<lparr> meta_Stream = ''W'', meta_Sequence = 5 \<rparr>)" by (simp add: ex_msg_def)
  moreover have c: "WalletTransitionCommand ex_contract ex_uuid1 (msg_Subject ex_msg) (msg_Data ex_msg)
      (meta_Stream \<lparr> meta_Stream = ''W'', meta_Sequence = 5 \<rparr>) (meta_Sequence \<lparr> meta_Stream = ''W'', meta_Sequence = 5 \<rparr>) = Inr ex_cmd"
    using ex_command by (simp add: ex_msg_def)
  moreover have b: "(\<lambda>c. Inr (wc_Error c)) ex_cmd = Inr ''boom''" by (simp add: ex_cmd_def)
  moreover have "http_NewRequest (net_http ex_wire_net) = (\<lambda>_ _. None)" by (simp add: ex_wire_net_def)
  ultimately show ?thesis using s delivery_on_the_wire [OF m c b s] by (intro exI [of _ acts] exI [of _ m']) auto
qed

end
