(* ===== verification/Abandon_Loop.thy ===== *)
theory Abandon_Loop
  imports Scan_Abandon
begin

text \<open>
  \<open>RunScanRequestAbandoner\<close> of \<open>src/internal/service/scan_request_abandon.go\<close>: the rounds of one process, from a fresh
  abandoner, one at the start and one at each tick of its ticker, until the context is done.  The rounds
  that are run are its argument; an error of a round is logged and the loop goes on.
\<close>

section \<open>The loop\<close>

definition scanRequestAbandonEvery :: go_duration where "scanRequestAbandonEvery = seconds 15"

fun abandoner_loop ::
  "round_env list \<Rightarrow> ScanRequestAbandoner \<Rightarrow> ScanRequestAbandoner \<times> abandon_act list \<times> goerr list" where
  "abandoner_loop [] a = (a, [], [])"
| "abandoner_loop (E # Es) a =
     (case publishMissing E a of
        (a', acts, err) \<Rightarrow>
          (case abandoner_loop Es a' of
             (a'', acts', logged) \<Rightarrow> (a'', acts @ acts', (case err of Some e \<Rightarrow> [e] | None \<Rightarrow> []) @ logged)))"

definition RunScanRequestAbandoner :: "round_env list \<Rightarrow> ScanRequestAbandoner \<times> abandon_act list \<times> goerr list" where
  "RunScanRequestAbandoner Es = abandoner_loop Es (NewScanRequestAbandoner scanRequestMissingGrace)"

section \<open>Lemmas\<close>

lemma loop_state: "fst (abandoner_loop Es a) = run_rounds Es a"
  by (induction Es arbitrary: a) (simp_all add: run_rounds_def split: prod.split, metis fst_conv)

lemma run_rounds_append: "run_rounds (Es @ Fs) a = run_rounds Fs (run_rounds Es a)"
  by (simp add: run_rounds_def)

lemma run_reachable:
  assumes "reachable abandon_init abandon_step (a, hist)"
  shows "\<exists>hist'. reachable abandon_init abandon_step (run_rounds Es a, hist')"
  using assms
proof (induction Es arbitrary: a hist)
  case (Cons E Es)
  obtain a' acts err where p: "publishMissing E a = (a', acts, err)" by (metis prod_cases3)
  have "\<exists>h. reachable abandon_init abandon_step (a', h)"
    using reachable.move [OF Cons.prems] abandon_step.round [OF p] abandon_step.failed_read [OF p] by (cases "reads_ok E") blast+
  then show ?case using Cons.IH p by (auto simp: run_rounds_def)
qed (auto simp: run_rounds_def)

lemma new_reachable: "reachable abandon_init abandon_step (NewScanRequestAbandoner g, [])"
  by (rule reachable.start) (auto simp: abandon_init_def)

text \<open>A scan that has become marked was published by one of the rounds.\<close>

lemma publish_loop_published:
  "publish_loop E rows a = (a', acts, err) \<Longrightarrow> i \<in> ab_sent a' \<Longrightarrow> i \<notin> ab_sent a \<Longrightarrow>
     \<exists>js ev. Published js ev \<in> set acts \<and> fl_ScanID ev = uuid_String (ae_uuid E) i"
proof (induction rows arbitrary: a a' acts err)
  case (Cons row rows)
  obtain r acts0 where p: "publishAbandonedScan E row = (r, acts0)" by fastforce
  show ?case
  proof (cases r)
    case (Inl e) then show ?thesis using Cons.prems p by auto
  next
    case (Inr sent)
    let ?a = "if sent then MarkSent (open_ScanID row) a else a"
    obtain a1 acts1 err1 where l: "publish_loop E rows ?a = (a1, acts1, err1)" by (metis prod_cases3)
    have a': "a' = a1" and acts: "acts = acts0 @ acts1" using Cons.prems(1) p Inr l by simp_all
    show ?thesis
    proof (cases "i \<in> ab_sent ?a")
      case True
      then have "sent" "open_ScanID row = i" using Cons.prems(3) by (auto split: if_splits)
      then have "\<exists>js ev. acts0 = [Published js ev] \<and> fl_ScanID ev = uuid_String (ae_uuid E) i"
        using p Inr by (auto simp: publishAbandonedScan_def Let_def split: if_splits sum.splits)
      then obtain js ev where "acts0 = [Published js ev]" "fl_ScanID ev = uuid_String (ae_uuid E) i" by blast
      then show ?thesis using acts by (intro exI [of _ js] exI [of _ ev]) simp
    next
      case False
      then show ?thesis using Cons.IH [OF l] Cons.prems(2) a' acts by fastforce
    qed
  qed
qed simp

lemma round_published:
  assumes "publishMissing E a = (a', acts, err)" and "abandon_inv (a, hist)" and "i \<in> ab_sent a'" and "i \<notin> ab_sent a"
  shows "\<exists>js ev. Published js ev \<in> set acts \<and> fl_ScanID ev = uuid_String (ae_uuid E) i"
proof (cases "reads_ok E")
  case True
  obtain rows where r: "publishMissing E a = publish_loop E (snd (Due (ae_now E) rows (ids_queued E) a))
         (fst (Due (ae_now E) rows (ids_queued E) a))"
    using publishMissing_ok [OF True] by metis
  have "i \<notin> ab_sent (fst (Due (ae_now E) rows (ids_queued E) a))"
    using Due_sent [of a "ae_now E" rows "ids_queued E"] assms(2,4) by (simp add: abandon_inv_def)
  then show ?thesis using publish_loop_published [OF assms(1) [unfolded r] assms(3)] by blast
next
  case False
  then show ?thesis using publishMissing_failed [of E a] assms by simp
qed

lemma loop_published:
  assumes "abandon_inv (a, hist)" and "i \<in> ab_sent (fst (abandoner_loop Es a))" and "i \<notin> ab_sent a"
  shows "\<exists>G \<in> set Es. \<exists>js ev. Published js ev \<in> set (fst (snd (abandoner_loop Es a))) \<and> fl_ScanID ev = uuid_String (ae_uuid G) i"
  using assms
proof (induction Es arbitrary: a hist)
  case (Cons E Es)
  obtain a' acts err where p: "publishMissing E a = (a', acts, err)" by (metis prod_cases3)
  obtain a'' acts' lg where l: "abandoner_loop Es a' = (a'', acts', lg)" by (metis prod_cases3)
  obtain h where h: "abandon_inv (a', h)" using run_inv [OF Cons.prems(1), of E] p by auto
  show ?case
  proof (cases "i \<in> ab_sent a'")
    case True
    then show ?thesis using round_published [OF p Cons.prems(1) _ Cons.prems(3)] p l by fastforce
  next
    case False
    then show ?thesis using Cons.IH [OF h] Cons.prems(2) p l by fastforce
  qed
qed simp

section \<open>The time of a report\<close>

text \<open>Rounds no further apart than the ticker's period.\<close>

fun timely :: "round_env list \<Rightarrow> bool" where
  "timely (E # F # Es) \<longleftrightarrow> ae_now E \<le> ae_now F \<and> ae_now F \<le> ae_now E + scanRequestAbandonEvery \<and> timely (F # Es)"
| "timely Es \<longleftrightarrow> True"

lemma timely_step: "timely (xs @ E # F # ys) \<Longrightarrow> ae_now F \<le> ae_now E + scanRequestAbandonEvery"
proof (induction xs)
  case (Cons x xs)
  then show ?case by (cases xs) simp_all
qed simp

lemma first_after:
  assumes "timely (E # Es)" and "F' \<in> set Es" and "ae_now E + g \<le> ae_now F'" and "0 < g"
  shows "\<exists>Gs F Hs. Es = Gs @ F # Hs \<and> ae_now E + g \<le> ae_now F \<and> ae_now F \<le> ae_now E + g + scanRequestAbandonEvery"
proof -
  obtain Gs F Hs where s: "Es = Gs @ F # Hs" "ae_now E + g \<le> ae_now F" "\<forall>G \<in> set Gs. \<not> ae_now E + g \<le> ae_now G"
    using split_list_first_prop [of Es "\<lambda>F. ae_now E + g \<le> ae_now F"] assms(2,3) by blast
  obtain xs G where b: "E # Gs = xs @ [G]" by (metis rev_exhaust list.distinct(1))
  have "ae_now F \<le> ae_now G + scanRequestAbandonEvery"
    using timely_step [of xs G F Hs] assms(1) s(1) b by (metis append.assoc append_Cons append_Nil)
  moreover have "G \<in> set (E # Gs)" unfolding b by simp
  then have "ae_now G < ae_now E + g" using s(3) assms(4) by auto
  ultimately have "ae_now F \<le> ae_now E + g + scanRequestAbandonEvery" by linarith
  with s show ?thesis by blast
qed

section \<open>Properties\<close>

text \<open>
  C13: a lost scan is reported in time.  In a process whose rounds are at most the ticker's 15 seconds apart, let a scan
  that is not tracked yet be open, off the queue and publishable from some round on.  Then by a round no later than 135
  seconds after that one (the grace period and one tick) the process has published \<open>scan.failed\<close> for it, provided it
  runs that long.
\<close>

theorem abandon_in_time:
  assumes "ab_missingSince (fst (RunScanRequestAbandoner Pre)) i = None" and "list_all (abandonable i) (E # Es)" and "timely (E # Es)"
    and "\<exists>F' \<in> set Es. ae_now E + scanRequestMissingGrace \<le> ae_now F'"
  shows "\<exists>Gs F Hs. Es = Gs @ F # Hs \<and> ae_now F \<le> ae_now E + seconds 135
    \<and> (\<exists>G js ev. G \<in> set (Pre @ E # Gs @ [F]) \<and> fl_ScanID ev = uuid_String (ae_uuid G) i
         \<and> Published js ev \<in> set (fst (snd (RunScanRequestAbandoner (Pre @ E # Gs @ [F])))))"
proof -
  let ?new = "NewScanRequestAbandoner scanRequestMissingGrace"
  have g: "scanRequestMissingGrace = seconds 120" "scanRequestAbandonEvery = seconds 15"
    by (simp_all add: scanRequestMissingGrace_def scanRequestAbandonEvery_def)
  obtain Gs F Hs where s: "Es = Gs @ F # Hs" "ae_now E + seconds 120 \<le> ae_now F" "ae_now F \<le> ae_now E + seconds 120 + seconds 15"
  proof -
    obtain F' where "F' \<in> set Es" "ae_now E + seconds 120 \<le> ae_now F'" using assms(4) unfolding g by blast
    moreover have "0 < seconds 120" by (simp add: seconds_def)
    ultimately show ?thesis using first_after [OF assms(3)] that unfolding g by blast
  qed
  obtain h where h: "reachable abandon_init abandon_step (run_rounds Pre ?new, h)" using run_reachable [OF new_reachable] by blast
  have gr: "ab_Grace (run_rounds Pre ?new) = seconds 120"
  proof -
    have "ab_Grace (run_rounds Pre a) = ab_Grace a" for a by (induction Pre arbitrary: a) (simp_all add: run_rounds_def round_Grace)
    then show ?thesis by (simp add: NewScanRequestAbandoner_def g)
  qed
  have "ab_Grace (run_rounds Pre ?new) \<le> time_Sub (ae_now F) (ae_now E)"
    using s(2) unfolding gr by (simp add: time_Sub_def seconds_def)
  moreover have "list_all (abandonable i) (E # Gs @ [F])" using assms(2) s(1) by simp
  moreover have "ab_missingSince (run_rounds Pre ?new) i = None" using assms(1) by (simp add: RunScanRequestAbandoner_def loop_state)
  ultimately have "i \<in> ab_sent (run_rounds (E # Gs @ [F]) (run_rounds Pre ?new))" by (intro abandon_eventually [OF h])
  then have "i \<in> ab_sent (fst (abandoner_loop (Pre @ E # Gs @ [F]) ?new))" by (simp add: loop_state run_rounds_append)
  moreover have "abandon_inv (?new, [])" using abandoner.inv_reachable [OF new_reachable] .
  moreover have "i \<notin> ab_sent ?new" by (simp add: NewScanRequestAbandoner_def)
  ultimately have "\<exists>G js ev. G \<in> set (Pre @ E # Gs @ [F]) \<and> fl_ScanID ev = uuid_String (ae_uuid G) i
      \<and> Published js ev \<in> set (fst (snd (RunScanRequestAbandoner (Pre @ E # Gs @ [F]))))"
    using loop_published unfolding RunScanRequestAbandoner_def by blast
  moreover have "ae_now F \<le> ae_now E + seconds 135" using s(3) by (simp add: seconds_def)
  ultimately show ?thesis using s(1) by blast
qed

text \<open>Rounds at 1, 16, \<dots>, 136 seconds: the ninth round after the first reports the scan.\<close>

definition ex_rounds :: "round_env list" where
  "ex_rounds = map (\<lambda>k. ex_round (seconds (1 + 15 * int k))) [1..<10]"

theorem abandon_in_time_witness:
  "\<exists>Gs F Hs js ev. ex_rounds = Gs @ F # Hs \<and> ae_now F \<le> seconds 136
     \<and> Published js ev \<in> set (fst (snd (RunScanRequestAbandoner (ex_round (seconds 1) # Gs @ [F]))))"
proof -
  have e: "ex_rounds = [ex_round (seconds 16), ex_round (seconds 31), ex_round (seconds 46), ex_round (seconds 61), ex_round (seconds 76),
      ex_round (seconds 91), ex_round (seconds 106), ex_round (seconds 121), ex_round (seconds 136)]"
    by (simp add: ex_rounds_def upt_rec)
  have "ab_missingSince (fst (RunScanRequestAbandoner [])) 2 = None"
    by (simp add: RunScanRequestAbandoner_def NewScanRequestAbandoner_def)
  moreover have "list_all (abandonable 2) (ex_round (seconds 1) # ex_rounds)" unfolding e by (simp add: ex_abandonable)
  moreover have "timely (ex_round (seconds 1) # ex_rounds)" unfolding e by (simp add: scanRequestAbandonEvery_def seconds_def)
  moreover have "\<exists>F' \<in> set ex_rounds. ae_now (ex_round (seconds 1)) + scanRequestMissingGrace \<le> ae_now F'"
    unfolding e by (simp add: scanRequestMissingGrace_def seconds_def)
  ultimately show ?thesis using abandon_in_time [of "[]" 2 "ex_round (seconds 1)" ex_rounds] by (fastforce simp: seconds_def)
qed

end
