(* ===== verification/Spec2Isabelle.thy ===== *)
theory Spec2Isabelle
  imports Ledger_Concurrency Wallet_Lifecycle Scan_Abandon Scan_Authz Scan_Http Scanner_Presence Auth_Service Cafe_Wallets
    Server_Main Lifecycle_Http Abandon_Loop
begin

text \<open>
  A verification development of cafe-discovery, the backend of the CAFE scan service
  (the Go code under \<open>src/\<close>).

  \<^bold>\<open>The program.\<close>  A user signs up and signs in (\<open>service/auth.go\<close>), receives a token with two
  signatures, and asks for scans of wallets and of TLS endpoints.  \<open>POST /discovery/v1/scan\<close>
  (\<open>handler/discovery.go\<close>) validates the request, asks the policy service whether the target is
  in use, reserves quota in the usage ledger (\<open>repository/scan_usage_ledger_repository.go\<close>),
  reserves the scan in the pending store of the persistence service, and publishes a
  request on the broker.  Scanners work on the requests and publish lifecycle events, which
  the wallet consumer (\<open>service/wallet_lifecycle.go\<close>) turns into status transitions; a request that
  left the queue without a result is reported as failed (\<open>service/scan_request_abandon.go\<close>).
  Reading, listing and deleting scans goes through the persistence service
  (\<open>persistence/scanhttp\<close>), with a Redis cache for endpoints.  The policy service asks over an
  internal endpoint who may read a scan (\<open>service/scan_authz.go\<close>).  At the start the service connects,
  migrates, waits for the others and requests scans of the default endpoints (\<open>internal/app\<close>,
  \<open>service/startup.go\<close>, \<open>service/default_endpoints.go\<close>); on a signal it closes its parts in order and stops
  serving (\<open>cmd/server/main.go\<close>, \<open>app/container.go\<close>).

  \<^bold>\<open>Conventions.\<close>  \<open>Prelude\<close>: an \<open>error\<close> is a \<open>goerr\<close> (a sentinel or a wrapped error), a pair of value and
  error is a sum, a nil-able pointer an option, a \<open>uuid.UUID\<close> a 128-bit word, times are
  nanoseconds.  \<open>Go_Strings\<close>: the functions of \<open>strings\<close> and \<open>strconv\<close> on byte strings.  \<open>Http_Model\<close>: the
  request and the response of a Fiber handler; a handler is a function from a context
  and a world to both.  \<open>Relational_Store\<close>: the database as tables of rows with a list of
  faults, one entry per statement to come, so that every statement may fail; a method of
  a repository is a state transformer \<open>'a stm\<close>.  Definitions have the names of the code;
  a name used twice in the code carries its receiver or package as a prefix.

  \<^bold>\<open>Theories and what they show.\<close>

  \<^item> \<open>Scan_State\<close> (\<open>pkg/scan\<close>), \<open>Address\<close> (\<open>internal/address\<close>), \<open>Domain_Model\<close> (\<open>internal/domain\<close>): the status
    machine and the shape of its paths (locale \<open>status_machine\<close>); the language of addresses
    and its canonical form; entities and wallet kinds.
  \<^item> \<open>Repositories\<close>, \<open>Scan_Ledger\<close>, \<open>Ledger_Concurrency\<close> (\<open>internal/repository\<close>): pages of the wallet list; the
    ledger with its locks and transactions, proved to keep every positive quota over any
    sequence of operations (locale \<open>usage_ledger\<close>), to be atomic, to undo a reservation by
    its release, and to do so for every interleaving of concurrent transactions; the
    interleaved machine run alone is the sequential code.
  \<^item> \<open>Plan_Service\<close>, \<open>Plan_Handlers\<close> (\<open>service/plan.go\<close>, \<open>handler/plan.go\<close>): limits and the quota of a request.
  \<^item> \<open>Scan_Pending\<close>, \<open>Scan_Read\<close> (\<open>persistence/scanpending\<close>, \<open>scanread\<close>): the contracts of the stores and
    their wire formats.  \<open>Scan_Http\<close> (\<open>persistence/scanhttp\<close>, \<open>cphttp\<close>): the clients, their retries and
    error mapping.
  \<^item> \<open>Post_Scan\<close> (\<open>handler/discovery.go\<close>): accepting a scan is all or nothing over ledger, pending
    store and broker.  \<open>Scan_Documents\<close>, \<open>Scan_Handlers\<close> (\<open>handler/discovery_v1_*.go\<close>, \<open>internal/cbom\<close>):
    documents, lists, details and deletions (locale \<open>wallet_scan_store\<close>, interpreted on the
    repositories).
  \<^item> \<open>Wallet_Lifecycle\<close>, \<open>Scan_Abandon\<close>, \<open>Scanner_Presence\<close> (\<open>internal/service\<close>): state machines over deliveries,
    rounds and presence messages, with invariants over all reachable states (locale
    \<open>invariant_of\<close>).  \<open>Lifecycle_Consumer\<close>: a delivery with the consumer's configuration and the
    metrics: settled once, in less time than the broker waits for it.  \<open>Lifecycle_Http\<close>: the same delivery over
    the HTTP client: at most two equal requests, and no acknowledgement without a reply that
    settles it.  \<open>Abandon_Loop\<close>: the loop of one process reports a lost scan within 135 seconds.
  \<^item> \<open>Scan_Authz\<close> (\<open>internal/authz\<close>, \<open>middleware\<close>): who may read a scan, and the two middlewares.
  \<^item> \<open>Base64url\<close>, \<open>Auth_Tokens\<close>, \<open>Auth_Service\<close> (\<open>service/auth.go\<close>, \<open>pkg/pqc\<close>, \<open>handler/auth.go\<close>): tokens are
    accepted until they expire and only if they were issued, as long as one of the two
    signature schemes is unforgeable; sign-up, sign-in, and the gate of every signed-in route.
  \<^item> \<open>Cafe_Wallets\<close> (\<open>cafe_wallet*.go\<close>): the wallet service refines a map (locale \<open>cafe_wallet_store\<close>).
    \<open>Tls_Cache\<close> (\<open>redis_tls_scan_repository.go\<close>, \<open>user_scan_cache.go\<close>): entries of one user and address.
    \<open>Chain_Config\<close> (\<open>config/chain.go\<close>, \<open>walletobservation\<close>): valid chain tables and exported observations.
  \<^item> \<open>Connections\<close> (\<open>config/config.go\<close>, \<open>pkg/postgres\<close>, \<open>pkg/redis\<close>, \<open>internal/version\<close>, the log level of
    \<open>cmd/server\<close>): keys, defaults, lists, persistence clients; what is logged of the data source
    name.  \<open>Broker\<close> (\<open>pkg/nats\<close>): the connection; listing the work queue ends and protects every
    queued scan from being reported.
  \<^item> \<open>Metrics\<close> (\<open>internal/metrics\<close>): collectors and the labels of the HTTP middleware.
  \<^item> \<open>Routes\<close> (\<open>setupRoutes\<close>, \<open>discovery_v1_routes.go\<close>, \<open>discoveryroutes\<close>): no handler without its middleware.
    \<open>Startup\<close>, \<open>Boot_Sequence\<close>, \<open>Service_Container\<close> (\<open>internal/app\<close>, \<open>startup.go\<close>, \<open>default_endpoints.go\<close>): the
    migrations, the waits, the default endpoints and \<open>NewContainer\<close>, which composes them
    with the sign-up of \<open>Auth_Service\<close>.  \<open>Request_Path\<close>: the way of a request through the metrics
    middleware, the routes and the middlewares to one handler (locale \<open>guarded_router\<close>,
    interpreted on the JWT and service-token middlewares).
  \<^item> \<open>Presence_Shutdown\<close> (\<open>service/scanner_presence.go\<close>): the constructor, the sweep goroutine and concurrent calls of
    \<open>Close\<close> over channels and \<open>sync.Once\<close>, interleaved: no channel is closed twice, \<open>Close\<close> is final and never
    deadlocks.  \<open>Signer_Lifetime\<close> (\<open>pkg/pqc\<close>): the memory of the signer, access by access: safe as long as calls do
    not overlap, with the races when they do.  \<open>Service_Shutdown\<close> (\<open>internal/app\<close>): \<open>Start\<close> and \<open>Shutdown\<close> of a
    container that \<open>NewContainer\<close> answered, interleaved with the tracker and with requests: the
    shutdown fails closed and ends.  \<open>Server_Main\<close> (\<open>cmd/server\<close>): the command and its exits.

  \<^bold>\<open>Parameters and their laws.\<close>  Code outside the repository is an argument: the UUID and
  time packages (\<open>uuid_pkg_ok\<close>, \<open>time_pkg_ok\<close>), JSON and YAML codecs (\<open>json_ok\<close>), Ed25519 and liboqs
  (\<open>signatures_ok\<close>, and unforgeability as a hypothesis of the theorem that needs it), bcrypt
  (\<open>bcrypt_ok\<close>), Redis (\<open>redis_ok\<close>), the path matching of Fiber (\<open>fiber_ok\<close>), the contracts module, Viper,
  the NATS and SQL drivers and the remote services.  Every law has an instance, and
  every property with hypotheses a witness on concrete values.

  \<^bold>\<open>Bounds.\<close>  Recursion is on data or on a measure.  Fuel is used in \<open>poll_loop\<close> only: the poll
  interval is two seconds and the timeout three minutes, so that ninety-one rounds always
  end (\<open>poll_loop_ends\<close>).  \<open>stream_loop\<close> counts on 64 bits and may run forever at the largest
  sequence number; below it the listing is proved to end.  A delivery makes at most two
  posts.  Lock keys and counters that the code keeps in 32 or 64 bits are words or have
  their range written out.

  \<^bold>\<open>Not modelled.\<close>  Logging other than of the data source name and of the server command, durations in
  metrics, tracing; the options given to Fiber, CORS and the NATS client; the methods of the
  Redis connection that only forward to the client; the C code under \<open>pkg/pqc\<close> and liboqs behind it;
  \<open>discoveryroutes/legacy_removed.go\<close> and the exports for contract tests; constructors and interfaces that only
  name the parts they hold; GORM's table names and the DDL of \<open>AutoMigrate\<close>; the persistence service, whose
  transitions the repository does not document beyond their outcomes.  Fairness is not assumed:
  what is proved of a concurrent shutdown is that some step is always possible and that each
  brings it nearer to its end.  Strings are bytes and case mapping is that of ASCII letters, which is
  what the program's identifiers, addresses and constants use.
\<close>

end
